(* ===== verification/Prelude.thy ===== *)
theory Prelude
  imports Main "HOL-Library.Word" "HOL-Library.Char_ord" "HOL-Library.List_Lexorder"
begin

text \<open>
  What every component shares: the theorem collections of the development, the parts of the
  C++ standard library the sources call (\<open>std::find\<close>, \<open>std::search\<close>, \<open>std::copy\<close>,
  \<open>std::map\<close>, \<open>std::to_string\<close>, \<open>std::stoul\<close>, \<open>isspace\<close>), lists of bytes, and
  the generic notion of a reachable state with its invariant rule.

  Conventions. A \<open>std::string\<close> or a byte array is a \<open>string\<close> (a list of 8-bit characters).
  A \<open>size_t\<close> that measures an object in memory is a \<open>nat\<close>; an integer whose width matters
  (bit masks, stock counters) is a \<open>word\<close>. An exception, an abort or undefined behaviour is a
  value of \<open>cpp_error\<close> on the left of a sum.
\<close>

section \<open>Collections\<close>

named_theorems wf_intros \<open>operations keep the well-formedness invariant of their component\<close>
named_theorems abs_simps \<open>what an operation does to the abstract value of its component\<close>

section \<open>Errors\<close>

text \<open>
  \<open>LogFatal\<close> is a \<open>LOG_FATAL\<close>, which aborts the process; \<open>OutOfBounds\<close> is a read or write
  outside an object; \<open>NeverReturns\<close> is a call that waits for ever, so that nothing after it runs;
  the others are C++ exceptions.
\<close>

datatype cpp_error =
    InvalidArgument
  | OutOfRange
  | OutOfBounds
  | LogFatal
  | RuntimeError
  | NullDeref
  | FutureError
  | JsonError
  | SqlException
  | NeverReturns

text \<open>The values of \<open>errno\<close> that the sources distinguish.\<close>

datatype errno = EAGAIN | EINTR | EPIPE | ECONNRESET | EBADF | ENOENT | EMFILE | EOTHER

text \<open>One fallible computation after another.\<close>

definition sum_bind :: "cpp_error + 'a \<Rightarrow> ('a \<Rightarrow> cpp_error + 'b) \<Rightarrow> cpp_error + 'b" where
  "sum_bind r f = (case r of Inl e \<Rightarrow> Inl e | Inr x \<Rightarrow> f x)"

lemma sum_bind_simps [simp]: "sum_bind (Inl e) f = Inl e" "sum_bind (Inr x) f = f x"
  by (simp_all add: sum_bind_def)

section \<open>Memory\<close>

text \<open>\<open>std::copy\<close> inside one array, byte after byte from the front, as the library runs it.\<close>

fun std_copy :: "nat \<Rightarrow> nat \<Rightarrow> nat \<Rightarrow> 'a list \<Rightarrow> 'a list" where
  "std_copy 0 src dst m = m"
| "std_copy (Suc n) src dst m = std_copy n (Suc src) (Suc dst) (m[dst := m ! src])"

text \<open>Writing a block of bytes at an index, and \<open>std::vector::resize\<close>.\<close>

definition write_at :: "nat \<Rightarrow> 'a list \<Rightarrow> 'a list \<Rightarrow> 'a list" where
  "write_at i d m = take i m @ d @ drop (i + length d) m"

definition vec_resize :: "nat \<Rightarrow> string \<Rightarrow> string" where
  "vec_resize n m = take n m @ replicate (n - length m) (CHR 0x00)"

section \<open>Searching\<close>

text \<open>
  \<open>std::find(first, last, c)\<close> and \<open>std::string::find(c)\<close>: the index of the first \<open>c\<close>;
  \<open>None\<close> is \<open>last\<close> or \<open>npos\<close>.
\<close>

fun find_char :: "char \<Rightarrow> string \<Rightarrow> nat option" where
  "find_char c [] = None"
| "find_char c (x # xs) = (if x = c then Some 0 else map_option Suc (find_char c xs))"

text \<open>\<open>std::search\<close> and \<open>std::string::find(s)\<close>: the first place where the pattern starts.\<close>

fun starts_with :: "string \<Rightarrow> string \<Rightarrow> bool" where
  "starts_with [] s = True"
| "starts_with (p # ps) [] = False"
| "starts_with (p # ps) (x # xs) = (p = x \<and> starts_with ps xs)"

fun find_sub :: "string \<Rightarrow> string \<Rightarrow> nat option" where
  "find_sub p [] = (if p = [] then Some 0 else None)"
| "find_sub p (x # xs) =
     (if starts_with p (x # xs) then Some 0 else map_option Suc (find_sub p xs))"

section \<open>Characters and numbers\<close>

text \<open>\<open>isspace\<close> of the C locale.\<close>

definition isspace :: "char \<Rightarrow> bool" where
  "isspace c \<longleftrightarrow> c \<in> {CHR 0x20, CHR 0x09, CHR 0x0A, CHR 0x0B, CHR 0x0C, CHR 0x0D}"

definition isdigit :: "char \<Rightarrow> bool" where
  "isdigit c \<longleftrightarrow> 48 \<le> (of_char c :: nat) \<and> (of_char c :: nat) \<le> 57"

definition digit_val :: "char \<Rightarrow> nat" where
  "digit_val c = of_char c - 48"

definition digit_char :: "nat \<Rightarrow> char" where
  "digit_char d = char_of (48 + d)"

text \<open>\<open>std::to_string\<close> of an unsigned and of a signed integer.\<close>

fun show_nat :: "nat \<Rightarrow> string" where
  "show_nat n = (if n < 10 then [digit_char n] else show_nat (n div 10) @ [digit_char (n mod 10)])"

declare show_nat.simps [simp del]

definition show_int :: "int \<Rightarrow> string" where
  "show_int i = (if i < 0 then CHR ''-'' # show_nat (nat (- i)) else show_nat (nat i))"

fun digits_val :: "nat \<Rightarrow> string \<Rightarrow> nat" where
  "digits_val acc [] = acc"
| "digits_val acc (c # cs) = digits_val (10 * acc + digit_val c) cs"

text \<open>
  \<open>std::stoul\<close> and \<open>std::stoull\<close> (both 64 bit here): skip white space, an optional sign, the
  longest run of digits; trailing characters are ignored. No digit raises
  \<open>std::invalid_argument\<close>, a magnitude that does not fit raises \<open>std::out_of_range\<close>, and a
  minus sign negates modulo \<open>2 ^ 64\<close> as \<open>strtoul\<close> does.
\<close>

definition std_stoul :: "string \<Rightarrow> cpp_error + nat" where
  "std_stoul s =
     (let t = dropWhile isspace s;
          neg = (case t of c # _ \<Rightarrow> c = CHR ''-'' | [] \<Rightarrow> False);
          u = (case t of c # r \<Rightarrow> if c = CHR ''-'' \<or> c = CHR ''+'' then r else t | [] \<Rightarrow> []);
          ds = takeWhile isdigit u;
          v = digits_val 0 ds
      in if ds = [] then Inl InvalidArgument
         else if 2 ^ 64 \<le> v then Inl OutOfRange
         else Inr (if neg \<and> 0 < v then 2 ^ 64 - v else v))"

section \<open>\<open>std::map\<close>\<close>

text \<open>
  An ordered map, as its iteration order shows it: the pairs sorted by key. \<open>m[k] = v\<close>
  replaces or inserts.
\<close>

fun map_put :: "'k::linorder \<Rightarrow> 'v \<Rightarrow> ('k \<times> 'v) list \<Rightarrow> ('k \<times> 'v) list" where
  "map_put k v [] = [(k, v)]"
| "map_put k v ((k', v') # m) =
     (if k < k' then (k, v) # (k', v') # m
      else if k = k' then (k, v) # m
      else (k', v') # map_put k v m)"

text \<open>\<open>m.erase(k)\<close>.\<close>

definition map_erase :: "'k \<Rightarrow> ('k \<times> 'v) list \<Rightarrow> ('k \<times> 'v) list" where
  "map_erase k m = filter (\<lambda>kv. fst kv \<noteq> k) m"

text \<open>
  The contract of a container of values under keys, whatever holds it: an ordered map, a hash
  map, a session store, a remote cache.
\<close>

locale kv_store =
  fixes inv :: "'m \<Rightarrow> bool"
    and get :: "'m \<Rightarrow> 'k \<Rightarrow> 'v option"
    and put :: "'k \<Rightarrow> 'v \<Rightarrow> 'm \<Rightarrow> 'm"
    and del :: "'k \<Rightarrow> 'm \<Rightarrow> 'm"
  assumes inv_put: "inv m \<Longrightarrow> inv (put k v m)"
    and inv_del: "inv m \<Longrightarrow> inv (del k m)"
    and get_put: "inv m \<Longrightarrow> get (put k v m) k' = (if k' = k then Some v else get m k')"
    and get_del: "inv m \<Longrightarrow> get (del k m) k' = (if k' = k then None else get m k')"
begin

lemma put_put: "inv m \<Longrightarrow> get (put k v (put k u m)) = get (put k v m)"
  by (simp add: fun_eq_iff get_put inv_put)

lemma put_other: "inv m \<Longrightarrow> k \<noteq> k' \<Longrightarrow> get (put k v (put k' v' m)) = get (put k' v' (put k v m))"
  by (auto simp: fun_eq_iff get_put inv_put)

lemma del_put: "inv m \<Longrightarrow> get (del k (put k v m)) = get (del k m)"
  by (simp add: fun_eq_iff get_put get_del inv_put)

lemma puts:
  "inv m \<Longrightarrow> inv (fold (\<lambda>(k, v). put k v) kvs m) \<and>
     get (fold (\<lambda>(k, v). put k v) kvs m) = get m ++ map_of (rev kvs)"
proof (induction kvs arbitrary: m)
  case (Cons kv kvs)
  obtain k v where kv: "kv = (k, v)" by fastforce
  from Cons.IH [OF inv_put [OF Cons.prems, of k v]] show ?case
    by (auto simp: kv fun_eq_iff map_add_def get_put [OF Cons.prems] split: option.splits)
qed simp

end

section \<open>Reachable states\<close>

inductive reachable :: "('s \<Rightarrow> bool) \<Rightarrow> ('s \<Rightarrow> 's \<Rightarrow> bool) \<Rightarrow> 's \<Rightarrow> bool"
  for init :: "'s \<Rightarrow> bool" and step :: "'s \<Rightarrow> 's \<Rightarrow> bool" where
  reach_init: "init s \<Longrightarrow> reachable init step s"
| reach_step: "reachable init step s \<Longrightarrow> step s t \<Longrightarrow> reachable init step t"

text \<open>The contract of an inductive invariant, and what it buys.\<close>

locale inductive_invariant =
  fixes init :: "'s \<Rightarrow> bool"
    and step :: "'s \<Rightarrow> 's \<Rightarrow> bool"
    and inv :: "'s \<Rightarrow> bool"
  assumes init_inv: "init s \<Longrightarrow> inv s"
    and step_inv: "inv s \<Longrightarrow> step s t \<Longrightarrow> inv t"
begin

lemma reachable_inv:
  assumes "reachable init step s"
  shows "inv s"
  using assms by (induction rule: reachable.induct) (auto intro: init_inv step_inv)

lemma steps_inv:
  assumes "inv s" and "step\<^sup>*\<^sup>* s t"
  shows "inv t"
  using assms(2,1) by (induction rule: rtranclp_induct) (auto intro: step_inv)

end

section \<open>Lemmas on memory\<close>

lemma length_std_copy [simp]: "length (std_copy n src dst m) = length m"
  by (induction n src dst m rule: std_copy.induct) auto

lemma length_write_at [simp]: "i + length d \<le> length m \<Longrightarrow> length (write_at i d m) = length m"
  by (simp add: write_at_def)

lemma length_vec_resize [simp]: "length (vec_resize n m) = n"
  by (simp add: vec_resize_def)

lemma take_write_at [simp]: "i \<le> length m \<Longrightarrow> take i (write_at i d m) = take i m"
  by (simp add: write_at_def)

lemma write_at_Nil [simp]: "write_at i [] m = m"
  by (simp add: write_at_def)

lemma nth_std_copy:
  assumes "dst \<le> src" and "src + n \<le> length m" and "i < length m"
  shows "std_copy n src dst m ! i = (if dst \<le> i \<and> i < dst + n then m ! (src + (i - dst)) else m ! i)"
  using assms
proof (induction n src dst m rule: std_copy.induct)
  case (1 src dst m)
  then show ?case by auto
next
  case (2 n src dst m)
  from 2 have "std_copy n (Suc src) (Suc dst) (m[dst := m ! src]) ! i =
      (if Suc dst \<le> i \<and> i < Suc dst + n
       then m[dst := m ! src] ! (Suc src + (i - Suc dst)) else m[dst := m ! src] ! i)"
    by simp
  moreover have "m[dst := m ! src] ! (Suc src + (i - Suc dst)) = m ! (Suc src + (i - Suc dst))"
    using "2.prems" by simp
  moreover have "Suc dst \<le> i \<Longrightarrow> Suc src + (i - Suc dst) = src + (i - dst)" by simp
  ultimately show ?case
    using "2.prems" by (auto simp del: diff_Suc_Suc simp: nth_list_update not_le less_Suc_eq Suc_diff_le)
qed

text \<open>
  Copying towards the front is safe although the two ranges overlap: the result is the block
  that was there before the copy.
\<close>

lemma std_copy_down:
  assumes "dst \<le> src" and "src + n \<le> length m"
  shows "std_copy n src dst m = write_at dst (take n (drop src m)) m"
proof (rule nth_equalityI)
  show "length (std_copy n src dst m) = length (write_at dst (take n (drop src m)) m)"
    using assms by simp
next
  fix i assume "i < length (std_copy n src dst m)"
  then have i: "i < length m" by simp
  with assms show "std_copy n src dst m ! i = write_at dst (take n (drop src m)) m ! i"
    by (auto simp: nth_std_copy write_at_def nth_append)
qed

section \<open>Lemmas on searching\<close>

lemma starts_with_iff: "starts_with p s \<longleftrightarrow> (\<exists>r. s = p @ r)"
  by (induction p s rule: starts_with.induct) auto

lemma find_char_None [simp]: "find_char c s = None \<longleftrightarrow> c \<notin> set s"
  by (induction s) auto

lemma find_char_notin [simp]: "c \<notin> set s \<Longrightarrow> find_char c s = None"
  by simp

lemma find_char_SomeD:
  "find_char c s = Some i \<Longrightarrow>
     i < length s \<and> s ! i = c \<and> c \<notin> set (take i s) \<and> s = take i s @ c # drop (Suc i) s"
proof (induction s arbitrary: i)
  case Nil
  then show ?case by simp
next
  case (Cons x xs)
  then show ?case by (auto split: if_splits)
qed

lemma find_char_append [simp]:
  "c \<notin> set p \<Longrightarrow> find_char c (p @ s) = map_option ((+) (length p)) (find_char c s)"
  by (induction p) (auto simp: option.map_comp comp_def option.map_ident_strong intro: option.map_cong)

lemma find_char_hit: "c \<notin> set p \<Longrightarrow> find_char c (p @ c # s) = Some (length p)"
  by simp

lemma find_sub_SomeD:
  "find_sub p s = Some i \<Longrightarrow> i + length p \<le> length s \<and> s = take i s @ p @ drop (i + length p) s"
proof (induction s arbitrary: i)
  case Nil
  then show ?case by (auto split: if_splits)
next
  case (Cons x xs)
  show ?case
  proof (cases "starts_with p (x # xs)")
    case True
    with Cons.prems have "i = 0" by simp
    moreover from True obtain r where "x # xs = p @ r" by (auto simp: starts_with_iff)
    ultimately show ?thesis by simp
  next
    case False
    with Cons.prems obtain j where "find_sub p xs = Some j" and "i = Suc j" by auto
    with Cons.IH show ?thesis by auto
  qed
qed

text \<open>More input behind a hit does not move the hit.\<close>

lemma starts_with_append: "starts_with p s \<Longrightarrow> starts_with p (s @ t)"
  by (auto simp: starts_with_iff)

lemma starts_with_long:
  "starts_with p (s @ t) \<Longrightarrow> length p \<le> length s \<Longrightarrow> starts_with p s"
  by (induction p s rule: starts_with.induct) auto

lemma find_sub_append:
  "find_sub p s = Some i \<Longrightarrow> find_sub p (s @ t) = Some i"
proof (induction s arbitrary: i)
  case Nil
  then show ?case by (cases t) (auto split: if_splits)
next
  case (Cons x xs)
  show ?case
  proof (cases "starts_with p (x # xs)")
    case True
    with Cons.prems show ?thesis using starts_with_append [of p "x # xs" t] by simp
  next
    case False
    with Cons.prems obtain j where j: "find_sub p xs = Some j" and i: "i = Suc j" by auto
    from find_sub_SomeD [OF j] have "length p \<le> length (x # xs)" by simp
    with False have "\<not> starts_with p ((x # xs) @ t)" using starts_with_long by blast
    with Cons.IH [OF j] i show ?thesis by simp
  qed
qed

section \<open>Lemmas on numbers\<close>

lemma digit_char_props [simp]:
  assumes "d < 10"
  shows "isdigit (digit_char d)" and "digit_val (digit_char d) = d"
proof -
  have "of_char (digit_char d) = 48 + d"
    using assms by (simp add: digit_char_def of_char_of)
  then show "isdigit (digit_char d)" and "digit_val (digit_char d) = d"
    using assms by (simp_all add: isdigit_def digit_val_def)
qed

lemma digits_val_append: "digits_val a (xs @ ys) = digits_val (digits_val a xs) ys"
  by (induction xs arbitrary: a) auto

lemma show_nat_digits: "c \<in> set (show_nat n) \<Longrightarrow> isdigit c"
proof (induction n rule: show_nat.induct)
  case (1 n)
  then show ?case by (subst (asm) show_nat.simps) (auto split: if_splits)
qed

lemma show_nat_nonempty [simp]: "show_nat n \<noteq> []"
  by (subst show_nat.simps) simp

lemma digits_val_show_nat [simp]: "digits_val 0 (show_nat n) = n"
proof (induction n rule: show_nat.induct)
  case (1 n)
  then show ?case by (subst show_nat.simps) (auto simp: digits_val_append)
qed

lemma length_show_nat: "n < 10 ^ Suc k \<Longrightarrow> length (show_nat n) \<le> Suc k"
proof (induction k arbitrary: n)
  case 0
  then show ?case by (subst show_nat.simps) simp
next
  case (Suc k)
  then have "n div 10 < 10 ^ Suc k" by (simp add: div_less_iff_less_mult)
  from Suc.IH [OF this] show ?case by (subst show_nat.simps) simp
qed

lemma show_nat_inj: "show_nat m = show_nat n \<Longrightarrow> m = n"
  by (metis digits_val_show_nat)

lemma show_int_inj:
  assumes "show_int i = show_int j"
  shows "i = j"
proof -
  have minus: "CHR ''-'' # s \<noteq> show_nat n" for s n
  proof
    assume "CHR ''-'' # s = show_nat n"
    then have "isdigit (CHR ''-'')" using show_nat_digits [of "CHR ''-''" n] by (metis list.set_intros(1))
    then show False by (simp add: isdigit_def)
  qed
  show ?thesis
  proof (cases "i < 0"; cases "j < 0")
    assume "i < 0" "j < 0"
    with assms show ?thesis using show_nat_inj [of "nat (- i)" "nat (- j)"] by (simp add: show_int_def)
  next
    assume "\<not> i < 0" "\<not> j < 0"
    with assms show ?thesis using show_nat_inj [of "nat i" "nat j"] by (simp add: show_int_def)
  qed (use assms minus in \<open>auto simp: show_int_def dest: sym\<close>)
qed

lemma isdigit_not_special:
  "isdigit c \<Longrightarrow> \<not> isspace c \<and> c \<noteq> CHR ''-'' \<and> c \<noteq> CHR ''+'' \<and> c \<noteq> CHR '':'' \<and> c \<noteq> CHR ''|''
     \<and> c \<noteq> CHR '','' \<and> c \<noteq> CHR '' ''"
  by (auto simp: isdigit_def isspace_def)

text \<open>\<open>std::stoul\<close> reads back what \<open>std::to_string\<close> printed, whatever non-digit follows.\<close>

lemma std_stoul_show_nat:
  assumes "n < 2 ^ 64" and "case rest of [] \<Rightarrow> True | c # _ \<Rightarrow> \<not> isdigit c"
  shows "std_stoul (show_nat n @ rest) = Inr n"
proof -
  obtain c cs where s: "show_nat n = c # cs" by (cases "show_nat n") auto
  then have c: "isdigit c" using show_nat_digits by (metis list.set_intros(1))
  have tw: "takeWhile isdigit (show_nat n @ rest) = show_nat n"
    using assms(2) show_nat_digits by (cases rest) (auto simp: takeWhile_append)
  show ?thesis
    using isdigit_not_special [OF c] s tw assms(1) digits_val_show_nat [of n]
    by (simp add: std_stoul_def Let_def)
qed

section \<open>Lemmas on ordered maps\<close>

lemma map_of_map_put [simp]:
  "sorted_wrt (<) (map fst m) \<Longrightarrow> map_of (map_put k v m) = (map_of m)(k \<mapsto> v)"
  by (induction k v m rule: map_put.induct) (auto simp: fun_eq_iff)

lemma keys_map_put [simp]: "fst ` set (map_put k v m) = insert k (fst ` set m)"
  by (induction k v m rule: map_put.induct) auto

lemma sorted_map_put [simp]:
  "sorted_wrt (<) (map fst m) \<Longrightarrow> sorted_wrt (<) (map fst (map_put k v m))"
proof (induction k v m rule: map_put.induct)
  case (1 k v)
  then show ?case by simp
next
  case (2 k v k' v' m)
  have keys: "set (map fst (map_put k v m)) = insert k (set (map fst m))" by simp
  from 2 show ?case by (auto simp del: set_map simp: keys)
qed

lemma map_of_map_erase [simp]: "map_of (map_erase k m) = (map_of m)(k := None)"
  by (induction m) (auto simp: map_erase_def fun_eq_iff)

lemma sorted_map_erase [simp]:
  "sorted_wrt (<) (map fst m) \<Longrightarrow> sorted_wrt (<) (map fst (map_erase k m))"
  by (induction m) (auto simp: map_erase_def)

interpretation omap: kv_store "\<lambda>m :: ('k::linorder \<times> 'v) list. sorted_wrt (<) (map fst m)" map_of map_put map_erase
  by unfold_locales auto

end
