(* ===== verification/Byte_Buffer.thy ===== *)
theory Byte_Buffer
  imports Prelude
begin

text \<open>
  \<open>src/base/Buffer.h\<close> and \<open>src/base/Buffer.cpp\<close>: the byte buffer of the network library, a
  vector with a reader and a writer index. The state is the record \<open>buffer\<close>, with one
  definition per member function. The promise of the class is the locale \<open>byte_queue\<close>: the
  readable bytes are a queue, appended at the back and retrieved at the front; \<open>Buffer\<close> is an
  interpretation of it, and its clients (the HTTP parser, the response printer, the TCP
  connection) use only the locale's laws.

  The system calls \<open>readv\<close> and \<open>write\<close> are outside the source: their result is an argument.
\<close>

section \<open>State and operations\<close>

record buffer =
  buf_data :: string
  readerIndex :: nat
  writerIndex :: nat

definition kCheapPrepend :: nat where
  "kCheapPrepend = 8"

definition kInitialSize :: nat where
  "kInitialSize = 1024"

definition Buffer_new :: "nat \<Rightarrow> buffer" where
  "Buffer_new initialSize =
     \<lparr>buf_data = replicate (kCheapPrepend + initialSize) (CHR 0x00),
      readerIndex = kCheapPrepend, writerIndex = kCheapPrepend\<rparr>"

definition readableBytes :: "buffer \<Rightarrow> nat" where
  "readableBytes b = writerIndex b - readerIndex b"

definition writableBytes :: "buffer \<Rightarrow> nat" where
  "writableBytes b = length (buf_data b) - writerIndex b"

definition prependableBytes :: "buffer \<Rightarrow> nat" where
  "prependableBytes b = readerIndex b"

text \<open>\<open>peek()\<close> is a pointer into the vector: the bytes from there to the vector's end.\<close>

definition Buffer_peek :: "buffer \<Rightarrow> string" where
  "Buffer_peek b = drop (readerIndex b) (buf_data b)"

definition retrieveAll :: "buffer \<Rightarrow> buffer" where
  "retrieveAll b = b\<lparr>readerIndex := kCheapPrepend, writerIndex := kCheapPrepend\<rparr>"

definition Buffer_retrieve :: "nat \<Rightarrow> buffer \<Rightarrow> buffer" where
  "Buffer_retrieve len b =
     (if len < readableBytes b then b\<lparr>readerIndex := readerIndex b + len\<rparr> else retrieveAll b)"

text \<open>
  \<open>std::string result(peek(), len)\<close> copies \<open>len\<close> bytes without a check: past the vector's end
  it is undefined, and between the writer index and the vector's end it returns stale bytes.
\<close>

definition retrieveAsString :: "nat \<Rightarrow> buffer \<Rightarrow> cpp_error + string \<times> buffer" where
  "retrieveAsString len b =
     (if length (Buffer_peek b) < len then Inl OutOfBounds
      else Inr (take len (Buffer_peek b), Buffer_retrieve len b))"

definition retrieveAllAsString :: "buffer \<Rightarrow> cpp_error + string \<times> buffer" where
  "retrieveAllAsString b = retrieveAsString (readableBytes b) b"

definition makeSpace :: "nat \<Rightarrow> buffer \<Rightarrow> buffer" where
  "makeSpace len b =
     (if writableBytes b + prependableBytes b < len + kCheapPrepend
      then b\<lparr>buf_data := vec_resize (writerIndex b + len) (buf_data b)\<rparr>
      else (let readable = readableBytes b
            in b\<lparr>buf_data := std_copy (writerIndex b - readerIndex b) (readerIndex b)
                               kCheapPrepend (buf_data b),
                readerIndex := kCheapPrepend,
                writerIndex := kCheapPrepend + readable\<rparr>))"

definition ensureWritableBytes :: "nat \<Rightarrow> buffer \<Rightarrow> buffer" where
  "ensureWritableBytes len b = (if writableBytes b < len then makeSpace len b else b)"

definition Buffer_append :: "string \<Rightarrow> buffer \<Rightarrow> buffer" where
  "Buffer_append data b =
     (let b1 = ensureWritableBytes (length data) b
      in b1\<lparr>buf_data := write_at (writerIndex b1) data (buf_data b1),
            writerIndex := writerIndex b1 + length data\<rparr>)"

text \<open>
  \<open>readFd\<close> offers \<open>readv\<close> the writable bytes and, when they are fewer than 65536, a second
  area on the stack. \<open>readFd_capacity\<close> is what the call can return at most. The argument \<open>r\<close>
  is the outcome of \<open>readv\<close>: an errno, or the bytes received, scattered over the two areas in
  order. The returned value is \<open>n\<close>, or the errno saved for the caller.
\<close>

definition extrabuf_size :: nat where
  "extrabuf_size = 65536"

definition readFd_capacity :: "buffer \<Rightarrow> nat" where
  "readFd_capacity b =
     writableBytes b + (if writableBytes b < extrabuf_size then extrabuf_size else 0)"

definition Buffer_readFd :: "errno + string \<Rightarrow> buffer \<Rightarrow> (errno + nat) \<times> buffer" where
  "Buffer_readFd r b =
     (case r of
        Inl e \<Rightarrow> (Inl e, b)
      | Inr received \<Rightarrow>
          (let writable = writableBytes b;
               n = length received;
               b1 = b\<lparr>buf_data := write_at (writerIndex b) (take writable received) (buf_data b)\<rparr>
           in if n \<le> writable
              then (Inr n, b1\<lparr>writerIndex := writerIndex b1 + n\<rparr>)
              else (Inr n, Buffer_append (drop writable received)
                             (b1\<lparr>writerIndex := length (buf_data b1)\<rparr>))))"

text \<open>
  \<open>writeFd\<close> hands the readable bytes to \<open>write\<close> and leaves the buffer alone; the caller
  retrieves what was written. \<open>writeFd_offer\<close> is what the kernel is offered.
\<close>

definition writeFd_offer :: "buffer \<Rightarrow> string" where
  "writeFd_offer b = take (readableBytes b) (Buffer_peek b)"

section \<open>The promise: a queue of bytes\<close>

definition Buffer_inv :: "buffer \<Rightarrow> bool" where
  "Buffer_inv b \<longleftrightarrow>
     kCheapPrepend \<le> readerIndex b \<and> readerIndex b \<le> writerIndex b \<and>
     writerIndex b \<le> length (buf_data b)"

definition Buffer_contents :: "buffer \<Rightarrow> string" where
  "Buffer_contents b = take (writerIndex b - readerIndex b) (drop (readerIndex b) (buf_data b))"

locale byte_queue =
  fixes inv :: "'b \<Rightarrow> bool"
    and contents :: "'b \<Rightarrow> string"
    and app :: "string \<Rightarrow> 'b \<Rightarrow> 'b"
    and retr :: "nat \<Rightarrow> 'b \<Rightarrow> 'b"
  assumes inv_app: "inv b \<Longrightarrow> inv (app d b)"
    and inv_retr: "inv b \<Longrightarrow> inv (retr n b)"
    and contents_app: "inv b \<Longrightarrow> contents (app d b) = contents b @ d"
    and contents_retr: "inv b \<Longrightarrow> contents (retr n b) = drop n (contents b)"
begin

lemma app_all:
  "inv b \<Longrightarrow> inv (fold app ds b) \<and> contents (fold app ds b) = contents b @ concat ds"
proof (induction ds arbitrary: b)
  case Nil
  then show ?case by simp
next
  case (Cons d ds)
  then show ?case using Cons.IH [OF inv_app [OF Cons.prems, of d]] by (simp add: contents_app)
qed

lemmas inv_app_all = app_all [THEN conjunct1]
lemmas contents_app_all = app_all [THEN conjunct2]

text \<open>Bytes leave in the order they came: retrieving what was there leaves what was added.\<close>

lemma fifo: "inv b \<Longrightarrow> contents (retr (length (contents b)) (app d b)) = d"
  by (simp add: contents_app contents_retr inv_app)

lemma retr_retr: "inv b \<Longrightarrow> contents (retr m (retr n b)) = contents (retr (n + m) b)"
  by (simp add: contents_retr inv_retr add.commute)

lemma app_retr:
  "inv b \<Longrightarrow> n \<le> length (contents b) \<Longrightarrow> contents (app d (retr n b)) = contents (retr n (app d b))"
  by (simp add: contents_app contents_retr inv_app inv_retr)

end

section \<open>Any run of operations\<close>

text \<open>The calls a user of the class can make, with the system's answers.\<close>

datatype buffer_op =
    OpAppend string
  | OpRetrieve nat
  | OpRetrieveAll
  | OpEnsure nat
  | OpReadFd "errno + string"

fun buffer_exec :: "buffer_op \<Rightarrow> buffer \<Rightarrow> buffer" where
  "buffer_exec (OpAppend d) b = Buffer_append d b"
| "buffer_exec (OpRetrieve n) b = Buffer_retrieve n b"
| "buffer_exec OpRetrieveAll b = retrieveAll b"
| "buffer_exec (OpEnsure n) b = ensureWritableBytes n b"
| "buffer_exec (OpReadFd r) b = snd (Buffer_readFd r b)"

fun queue_exec :: "buffer_op \<Rightarrow> string \<Rightarrow> string" where
  "queue_exec (OpAppend d) q = q @ d"
| "queue_exec (OpRetrieve n) q = drop n q"
| "queue_exec OpRetrieveAll q = []"
| "queue_exec (OpEnsure n) q = q"
| "queue_exec (OpReadFd r) q = (case r of Inl e \<Rightarrow> q | Inr d \<Rightarrow> q @ d)"

section \<open>Lemmas\<close>

lemmas buffer_defs =
  readableBytes_def writableBytes_def prependableBytes_def Buffer_peek_def kCheapPrepend_def

lemma length_Buffer_contents [simp]: "Buffer_inv b \<Longrightarrow> length (Buffer_contents b) = readableBytes b"
  by (auto simp: Buffer_contents_def Buffer_inv_def buffer_defs min_def)

lemma writeFd_offer_contents [simp]: "writeFd_offer b = Buffer_contents b"
  by (simp add: writeFd_offer_def Buffer_contents_def buffer_defs)

lemma Buffer_new_inv [wf_intros]: "Buffer_inv (Buffer_new n)"
  by (simp add: Buffer_inv_def Buffer_new_def)

lemma Buffer_new_contents [abs_simps]: "Buffer_contents (Buffer_new n) = []"
  by (simp add: Buffer_contents_def Buffer_new_def)

lemma retrieveAll_inv [wf_intros]: "Buffer_inv b \<Longrightarrow> Buffer_inv (retrieveAll b)"
  by (auto simp: Buffer_inv_def retrieveAll_def)

lemma retrieveAll_contents [abs_simps]: "Buffer_contents (retrieveAll b) = []"
  by (simp add: Buffer_contents_def retrieveAll_def)

lemma Buffer_retrieve_inv [wf_intros]: "Buffer_inv b \<Longrightarrow> Buffer_inv (Buffer_retrieve n b)"
  by (auto simp: Buffer_retrieve_def retrieveAll_inv) (auto simp: Buffer_inv_def buffer_defs)

lemma Buffer_retrieve_contents [abs_simps]:
  assumes "Buffer_inv b"
  shows "Buffer_contents (Buffer_retrieve n b) = drop n (Buffer_contents b)"
proof (cases "n < readableBytes b")
  case True
  then show ?thesis
    by (simp add: Buffer_retrieve_def Buffer_contents_def drop_take add.commute)
next
  case False
  with assms show ?thesis by (simp add: Buffer_retrieve_def retrieveAll_contents)
qed

text \<open>The data move: \<open>makeSpace\<close> keeps the readable bytes and makes the room asked for.\<close>

lemma makeSpace_spec:
  assumes "Buffer_inv b" and "writableBytes b < len"
  shows "Buffer_inv (makeSpace len b)" and "len \<le> writableBytes (makeSpace len b)"
    and "Buffer_contents (makeSpace len b) = Buffer_contents b"
proof -
  have "Buffer_inv (makeSpace len b) \<and> len \<le> writableBytes (makeSpace len b) \<and>
        Buffer_contents (makeSpace len b) = Buffer_contents b"
  proof (cases "writableBytes b + prependableBytes b < len + kCheapPrepend")
    case True
    with assms show ?thesis
      by (auto simp: makeSpace_def Buffer_inv_def Buffer_contents_def buffer_defs vec_resize_def)
  next
    case False
    let ?n = "writerIndex b - readerIndex b"
    have copy: "std_copy ?n (readerIndex b) kCheapPrepend (buf_data b)
        = write_at kCheapPrepend (Buffer_contents b) (buf_data b)"
      using assms(1) by (simp add: std_copy_down Buffer_inv_def Buffer_contents_def)
    have "length (Buffer_contents b) = ?n"
      using assms(1) by (simp add: readableBytes_def)
    moreover have "makeSpace len b = b\<lparr>buf_data := write_at kCheapPrepend (Buffer_contents b) (buf_data b),
        readerIndex := kCheapPrepend, writerIndex := kCheapPrepend + ?n\<rparr>"
      using False copy by (simp add: makeSpace_def Let_def readableBytes_def)
    moreover have "kCheapPrepend + ?n \<le> length (buf_data b)"
      and "len \<le> length (buf_data b) - (kCheapPrepend + ?n)"
      using assms False by (auto simp: Buffer_inv_def writableBytes_def prependableBytes_def)
    moreover have "kCheapPrepend \<le> length (buf_data b)"
      using assms(1) by (auto simp: Buffer_inv_def)
    ultimately show ?thesis
      by (simp add: Buffer_inv_def Buffer_contents_def [of "b\<lparr>buf_data := _, readerIndex := _, writerIndex := _\<rparr>"]
          writableBytes_def) (simp add: write_at_def)
  qed
  then show "Buffer_inv (makeSpace len b)" and "len \<le> writableBytes (makeSpace len b)"
    and "Buffer_contents (makeSpace len b) = Buffer_contents b" by auto
qed

lemma ensureWritableBytes_inv [wf_intros]: "Buffer_inv b \<Longrightarrow> Buffer_inv (ensureWritableBytes n b)"
  by (simp add: ensureWritableBytes_def makeSpace_spec)

lemma ensureWritableBytes_room: "Buffer_inv b \<Longrightarrow> n \<le> writableBytes (ensureWritableBytes n b)"
  by (simp add: ensureWritableBytes_def makeSpace_spec)

lemma ensureWritableBytes_contents [abs_simps]:
  "Buffer_inv b \<Longrightarrow> Buffer_contents (ensureWritableBytes n b) = Buffer_contents b"
  by (simp add: ensureWritableBytes_def makeSpace_spec)

text \<open>Writing \<open>d\<close> at the writer index, where there is room, adds \<open>d\<close> to the readable bytes.\<close>

lemma write_tail:
  assumes "Buffer_inv b" and "length d \<le> writableBytes b"
  shows "Buffer_inv (b\<lparr>buf_data := write_at (writerIndex b) d (buf_data b),
                      writerIndex := writerIndex b + length d\<rparr>)"
    and "Buffer_contents (b\<lparr>buf_data := write_at (writerIndex b) d (buf_data b),
                      writerIndex := writerIndex b + length d\<rparr>) = Buffer_contents b @ d"
proof -
  have room: "writerIndex b + length d \<le> length (buf_data b)" "readerIndex b \<le> writerIndex b"
    using assms by (auto simp: Buffer_inv_def writableBytes_def)
  then show "Buffer_inv (b\<lparr>buf_data := write_at (writerIndex b) d (buf_data b),
                      writerIndex := writerIndex b + length d\<rparr>)"
    using assms(1) by (simp add: Buffer_inv_def)
  let ?p = "drop (readerIndex b) (take (writerIndex b) (buf_data b))"
  have "drop (readerIndex b) (write_at (writerIndex b) d (buf_data b))
      = ?p @ d @ drop (writerIndex b + length d) (buf_data b)"
    using room by (simp add: write_at_def)
  moreover have "length ?p = writerIndex b - readerIndex b" using room by simp
  ultimately show "Buffer_contents (b\<lparr>buf_data := write_at (writerIndex b) d (buf_data b),
                      writerIndex := writerIndex b + length d\<rparr>) = Buffer_contents b @ d"
    using room by (simp add: Buffer_contents_def drop_take)
qed

lemma Buffer_append_inv [wf_intros]: "Buffer_inv b \<Longrightarrow> Buffer_inv (Buffer_append d b)"
  unfolding Buffer_append_def Let_def
  by (rule write_tail) (simp_all add: wf_intros ensureWritableBytes_room)

lemma Buffer_append_contents [abs_simps]:
  "Buffer_inv b \<Longrightarrow> Buffer_contents (Buffer_append d b) = Buffer_contents b @ d"
  unfolding Buffer_append_def Let_def
  using write_tail(2) [of "ensureWritableBytes (length d) b" d]
  by (simp add: wf_intros abs_simps ensureWritableBytes_room)

interpretation bufq: byte_queue Buffer_inv Buffer_contents Buffer_append Buffer_retrieve
  by unfold_locales (simp_all add: wf_intros abs_simps)

lemma readFd_scatter:
  fixes b :: buffer and d :: string
  assumes "Buffer_inv b"
  defines "b1 \<equiv> b\<lparr>buf_data := write_at (writerIndex b) (take (writableBytes b) d) (buf_data b)\<rparr>"
  shows "length d \<le> writableBytes b \<Longrightarrow>
           Buffer_inv (b1\<lparr>writerIndex := writerIndex b1 + length d\<rparr>) \<and>
           Buffer_contents (b1\<lparr>writerIndex := writerIndex b1 + length d\<rparr>) = Buffer_contents b @ d"
    and "writableBytes b < length d \<Longrightarrow>
           Buffer_inv (b1\<lparr>writerIndex := length (buf_data b1)\<rparr>) \<and>
           Buffer_contents (b1\<lparr>writerIndex := length (buf_data b1)\<rparr>)
             = Buffer_contents b @ take (writableBytes b) d"
proof -
  let ?d = "take (writableBytes b) d"
  have wt: "Buffer_inv (b\<lparr>buf_data := write_at (writerIndex b) ?d (buf_data b),
                      writerIndex := writerIndex b + length ?d\<rparr>)"
    "Buffer_contents (b\<lparr>buf_data := write_at (writerIndex b) ?d (buf_data b),
                      writerIndex := writerIndex b + length ?d\<rparr>) = Buffer_contents b @ ?d"
    by (rule write_tail; use assms(1) in simp)+
  show "length d \<le> writableBytes b \<Longrightarrow>
           Buffer_inv (b1\<lparr>writerIndex := writerIndex b1 + length d\<rparr>) \<and>
           Buffer_contents (b1\<lparr>writerIndex := writerIndex b1 + length d\<rparr>) = Buffer_contents b @ d"
    using wt by (simp add: b1_def)
  assume big: "writableBytes b < length d"
  then have "length (write_at (writerIndex b) ?d (buf_data b)) = writerIndex b + length ?d"
    using assms(1) by (simp add: Buffer_inv_def writableBytes_def)
  with wt big show "Buffer_inv (b1\<lparr>writerIndex := length (buf_data b1)\<rparr>) \<and>
           Buffer_contents (b1\<lparr>writerIndex := length (buf_data b1)\<rparr>)
             = Buffer_contents b @ take (writableBytes b) d"
    by (simp add: b1_def)
qed

lemma Buffer_readFd_inv [wf_intros]: "Buffer_inv b \<Longrightarrow> Buffer_inv (snd (Buffer_readFd r b))"
proof (cases r)
  case (Inr d)
  moreover assume "Buffer_inv b"
  ultimately show ?thesis
    using readFd_scatter [of b d]
    by (cases "length d \<le> writableBytes b") (simp_all add: Buffer_readFd_def Let_def Buffer_append_inv)
qed (simp add: Buffer_readFd_def)

lemma Buffer_readFd_contents [abs_simps]:
  "Buffer_inv b \<Longrightarrow> Buffer_contents (snd (Buffer_readFd (Inr d) b)) = Buffer_contents b @ d"
  using readFd_scatter [of b d]
  by (cases "length d \<le> writableBytes b") (simp_all add: Buffer_readFd_def Let_def Buffer_append_contents)

lemma Buffer_readFd_error [simp]: "Buffer_readFd (Inl e) b = (Inl e, b)"
  by (simp add: Buffer_readFd_def)

lemma Buffer_readFd_count [simp]: "fst (Buffer_readFd (Inr d) b) = Inr (length d)"
  by (simp add: Buffer_readFd_def Let_def)

lemma buffer_exec_inv [wf_intros]: "Buffer_inv b \<Longrightarrow> Buffer_inv (buffer_exec op b)"
  by (cases op) (simp_all add: wf_intros)

lemma buffer_exec_contents [abs_simps]:
  "Buffer_inv b \<Longrightarrow> Buffer_contents (buffer_exec op b) = queue_exec op (Buffer_contents b)"
  by (cases op) (auto simp: abs_simps split: sum.splits)

section \<open>Properties\<close>

text \<open>
  C8. The buffer is a queue of bytes. Whatever calls are made on a new buffer, with whatever the
  kernel delivers to \<open>readFd\<close>, the indices stay ordered inside the vector and the readable bytes
  are those of the plain queue run on the same calls: nothing is lost, duplicated or reordered
  when the vector grows or its bytes move to the front.
\<close>

theorem buffer_refines_queue:
  "Buffer_inv (fold buffer_exec ops (Buffer_new n)) \<and>
   Buffer_contents (fold buffer_exec ops (Buffer_new n)) = fold queue_exec ops []"
proof -
  have "Buffer_inv b \<Longrightarrow> Buffer_inv (fold buffer_exec ops b) \<and>
      Buffer_contents (fold buffer_exec ops b) = fold queue_exec ops (Buffer_contents b)" for b
  proof (induction ops arbitrary: b)
    case (Cons a ops)
    from Cons.IH [OF buffer_exec_inv [OF Cons.prems]] show ?case
      by (simp add: buffer_exec_contents [OF Cons.prems])
  qed simp
  from this [of "Buffer_new n"] show ?thesis by (simp add: wf_intros abs_simps)
qed

text \<open>
  C37. Growth. \<open>append\<close> enlarges the vector exactly when the reserved prefix, the readable bytes
  and the new bytes do not fit in it together; otherwise it reuses the space it has, by moving the
  readable bytes to the front where needed.
\<close>

theorem append_growth:
  assumes "Buffer_inv b"
  shows "length (buf_data (Buffer_append d b)) =
     (if kCheapPrepend + readableBytes b + length d \<le> length (buf_data b)
      then length (buf_data b) else writerIndex b + length d)"
proof -
  have room: "writerIndex b1 + length d \<le> length (buf_data b1)"
    if "b1 = ensureWritableBytes (length d) b" for b1
    using ensureWritableBytes_room [OF assms, of "length d"] ensureWritableBytes_inv [OF assms, of "length d"]
    unfolding that writableBytes_def Buffer_inv_def by linarith
  then have "length (buf_data (Buffer_append d b)) = length (buf_data (ensureWritableBytes (length d) b))"
    by (simp add: Buffer_append_def Let_def)
  also have "\<dots> = (if kCheapPrepend + readableBytes b + length d \<le> length (buf_data b)
      then length (buf_data b) else writerIndex b + length d)"
    using assms by (auto simp: ensureWritableBytes_def makeSpace_def Let_def Buffer_inv_def
        writableBytes_def readableBytes_def prependableBytes_def)
  finally show ?thesis .
qed

theorem append_growth_witness:
  "length (buf_data (Buffer_append ''abcdefgh'' (Buffer_retrieve 6 (Buffer_append ''12345678'' (Buffer_new 10))))) = 18"
proof -
  let ?b = "Buffer_retrieve 6 (Buffer_append ''12345678'' (Buffer_new 10))"
  have "Buffer_inv ?b" by (simp add: wf_intros)
  from append_growth [OF this, of "''abcdefgh''"] show ?thesis
    by (simp add: Buffer_retrieve_def readableBytes_def Buffer_append_def
      ensureWritableBytes_def writableBytes_def Buffer_new_def kCheapPrepend_def Let_def)
qed

end
