(* ===== verification/Http_Request.thy ===== *)
theory Http_Request
  imports Prelude
begin

text \<open>
  \<open>src/net/include/HttpRequest.h\<close> and \<open>src/net/src/HttpRequest.cpp\<close>: the request object the
  parser fills. A \<open>std::map\<close> is its sorted list of pairs, a \<open>std::unordered_map\<close> is a map; a
  \<open>Timestamp\<close> is its microseconds. Pairs of pointers \<open>[start, end)\<close> are the string they
  delimit.
\<close>

section \<open>State\<close>

datatype http_method = kInvalid | kGet | kPost | kHead | kPut | kDelete | kOptions

datatype http_version = kUnknownVersion | kHttp10 | kHttp11 | kHttp2 | kHttp3

record http_request =
  rq_method :: http_method
  rq_version :: string
  rq_path :: string
  rq_pathParameters :: "string \<rightharpoonup> string"
  rq_query :: string
  rq_queryParameters :: "string \<rightharpoonup> string"
  rq_receiveTime :: int
  rq_headers :: "(string \<times> string) list"
  rq_content :: string
  rq_contentLength :: nat

definition HttpRequest_new :: http_request where
  "HttpRequest_new =
     \<lparr>rq_method = kInvalid, rq_version = ''Unknown'', rq_path = [], rq_pathParameters = Map.empty,
      rq_query = [], rq_queryParameters = Map.empty, rq_receiveTime = 0, rq_headers = [],
      rq_content = [], rq_contentLength = 0\<rparr>"

section \<open>Operations\<close>

definition setMethod :: "string \<Rightarrow> http_request \<Rightarrow> bool \<times> http_request" where
  "setMethod m rq =
     (let md = (if m = ''GET'' then kGet
                else if m = ''POST'' then kPost
                else if m = ''HEAD'' then kHead
                else if m = ''PUT'' then kPut
                else if m = ''DELETE'' then kDelete
                else if m = ''OPTIONS'' then kOptions
                else kInvalid)
      in (md \<noteq> kInvalid, rq\<lparr>rq_method := md\<rparr>))"

fun methodString :: "http_method \<Rightarrow> string" where
  "methodString kGet = ''GET''"
| "methodString kPost = ''POST''"
| "methodString kHead = ''HEAD''"
| "methodString kPut = ''PUT''"
| "methodString kDelete = ''DELETE''"
| "methodString kOptions = ''OPTIONS''"
| "methodString kInvalid = ''UNKNOWN''"

fun setVersionEnum :: "http_version \<Rightarrow> http_request \<Rightarrow> http_request" where
  "setVersionEnum kHttp10 rq = rq\<lparr>rq_version := ''HTTP/1.0''\<rparr>"
| "setVersionEnum kHttp11 rq = rq\<lparr>rq_version := ''HTTP/1.1''\<rparr>"
| "setVersionEnum kHttp2 rq = rq\<lparr>rq_version := ''HTTP/2.0''\<rparr>"
| "setVersionEnum kHttp3 rq = rq\<lparr>rq_version := ''HTTP/3.0''\<rparr>"
| "setVersionEnum kUnknownVersion rq = rq\<lparr>rq_version := ''Unknown''\<rparr>"

definition versionEnum :: "http_request \<Rightarrow> http_version" where
  "versionEnum rq =
     (if rq_version rq = ''HTTP/1.0'' then kHttp10
      else if rq_version rq = ''HTTP/1.1'' then kHttp11
      else if rq_version rq = ''HTTP/2.0'' then kHttp2
      else if rq_version rq = ''HTTP/3.0'' then kHttp3
      else kUnknownVersion)"

definition setPath :: "string \<Rightarrow> http_request \<Rightarrow> http_request" where
  "setPath p rq = rq\<lparr>rq_path := p\<rparr>"

definition setPathParameter :: "string \<Rightarrow> string \<Rightarrow> http_request \<Rightarrow> http_request" where
  "setPathParameter k v rq = rq\<lparr>rq_pathParameters := (rq_pathParameters rq)(k \<mapsto> v)\<rparr>"

definition getPathParameter :: "string \<Rightarrow> http_request \<Rightarrow> string" where
  "getPathParameter k rq = (case rq_pathParameters rq k of Some v \<Rightarrow> v | None \<Rightarrow> [])"

text \<open>
  \<open>setQueryParameters\<close>: the loop over the ampersands. \<open>query_pair\<close> is its body, which keeps a
  pair only when it holds an equals sign.
\<close>

definition query_pair :: "string \<Rightarrow> (string \<rightharpoonup> string) \<Rightarrow> (string \<rightharpoonup> string)" where
  "query_pair pair m =
     (case find_char (CHR ''='') pair of
        Some e \<Rightarrow> m(take e pair \<mapsto> drop (Suc e) pair)
      | None \<Rightarrow> m)"

function query_loop :: "string \<Rightarrow> (string \<rightharpoonup> string) \<Rightarrow> (string \<rightharpoonup> string)" where
  "query_loop args m =
     (case find_char (CHR ''&'') args of
        Some pos \<Rightarrow> query_loop (drop (Suc pos) args) (query_pair (take pos args) m)
      | None \<Rightarrow> query_pair args m)"
  by pat_completeness auto
termination
  by (relation "measure (\<lambda>(args, m). length args)") (auto dest: find_char_SomeD)

declare query_loop.simps [simp del]

definition setQueryParameters :: "string \<Rightarrow> http_request \<Rightarrow> http_request" where
  "setQueryParameters args rq = rq\<lparr>rq_queryParameters := query_loop args (rq_queryParameters rq)\<rparr>"

definition getQueryParameter :: "string \<Rightarrow> http_request \<Rightarrow> string" where
  "getQueryParameter k rq = (case rq_queryParameters rq k of Some v \<Rightarrow> v | None \<Rightarrow> [])"

text \<open>
  \<open>addHeader(start, colon, end)\<close>: the field before the colon; the value after it, without the
  white space around it.
\<close>

definition rstrip :: "string \<Rightarrow> string" where
  "rstrip s = rev (dropWhile isspace (rev s))"

definition addHeader :: "string \<Rightarrow> string \<Rightarrow> http_request \<Rightarrow> http_request" where
  "addHeader field after_colon rq =
     (let value = rstrip (dropWhile isspace after_colon)
      in rq\<lparr>rq_headers := map_put field value (rq_headers rq)\<rparr>)"

definition getHeader :: "string \<Rightarrow> http_request \<Rightarrow> string" where
  "getHeader field rq = (case map_of (rq_headers rq) field of Some v \<Rightarrow> v | None \<Rightarrow> [])"

definition setBody :: "string \<Rightarrow> http_request \<Rightarrow> http_request" where
  "setBody body rq = rq\<lparr>rq_content := body\<rparr>"

definition setContentLength :: "nat \<Rightarrow> http_request \<Rightarrow> http_request" where
  "setContentLength n rq = rq\<lparr>rq_contentLength := n\<rparr>"

definition setReceiveTime :: "int \<Rightarrow> http_request \<Rightarrow> http_request" where
  "setReceiveTime t rq = rq\<lparr>rq_receiveTime := t\<rparr>"

text \<open>\<open>swap\<close> exchanges the two objects field by field.\<close>

definition HttpRequest_swap :: "http_request \<Rightarrow> http_request \<Rightarrow> http_request \<times> http_request" where
  "HttpRequest_swap this that =
     (this\<lparr>rq_method := rq_method that, rq_version := rq_version that, rq_path := rq_path that,
           rq_query := rq_query that, rq_headers := rq_headers that,
           rq_pathParameters := rq_pathParameters that,
           rq_queryParameters := rq_queryParameters that, rq_content := rq_content that,
           rq_contentLength := rq_contentLength that, rq_receiveTime := rq_receiveTime that\<rparr>,
      that\<lparr>rq_method := rq_method this, rq_version := rq_version this, rq_path := rq_path this,
           rq_query := rq_query this, rq_headers := rq_headers this,
           rq_pathParameters := rq_pathParameters this,
           rq_queryParameters := rq_queryParameters this, rq_content := rq_content this,
           rq_contentLength := rq_contentLength this, rq_receiveTime := rq_receiveTime this\<rparr>)"

section \<open>Specification of query strings\<close>

text \<open>A query string as a client writes it, and the parameters it stands for.\<close>

fun render_query :: "(string \<times> string) list \<Rightarrow> string" where
  "render_query [] = []"
| "render_query [(k, v)] = k @ CHR ''='' # v"
| "render_query ((k, v) # kvs) = k @ CHR ''='' # v @ CHR ''&'' # render_query kvs"

definition query_safe :: "string \<times> string \<Rightarrow> bool" where
  "query_safe kv \<longleftrightarrow> CHR ''='' \<notin> set (fst kv) \<and> CHR ''&'' \<notin> set (fst kv) \<and> CHR ''&'' \<notin> set (snd kv)"

section \<open>Lemmas\<close>

lemma setMethod_methodString [simp]:
  "m \<noteq> kInvalid \<Longrightarrow> setMethod (methodString m) rq = (True, rq\<lparr>rq_method := m\<rparr>)"
  by (cases m) (simp_all add: setMethod_def)

lemma methodString_no_space: "m \<noteq> kInvalid \<Longrightarrow> c \<in> set (methodString m) \<Longrightarrow> c \<noteq> CHR '' '' \<and> c \<noteq> CHR 0x0D"
  by (cases m) auto

lemma versionEnum_setVersionEnum: "versionEnum (setVersionEnum v rq) = v"
  by (cases v) (simp_all add: versionEnum_def)

lemma HttpRequest_swap_simp [simp]: "HttpRequest_swap a b = (b, a)"
  by (simp add: HttpRequest_swap_def)

lemma dropWhile_isspace_trimmed [simp]:
  "s = [] \<or> \<not> isspace (hd s) \<Longrightarrow> dropWhile isspace s = s"
  by (cases s) auto

lemma rstrip_trimmed [simp]: "s = [] \<or> \<not> isspace (last s) \<Longrightarrow> rstrip s = s"
  by (cases s rule: rev_cases) (auto simp: rstrip_def)

lemma set_rstrip: "set (rstrip s) \<subseteq> set s"
  using set_dropWhileD by (fastforce simp: rstrip_def)

lemma query_pair_hit:
  "CHR ''='' \<notin> set k \<Longrightarrow> query_pair (k @ CHR ''='' # v) m = m(k \<mapsto> v)"
  by (simp add: query_pair_def)

lemma query_loop_render:
  assumes "kvs \<noteq> []" and "list_all query_safe kvs"
  shows "query_loop (render_query kvs) m = m ++ map_of (rev kvs)"
  using assms
proof (induction kvs arbitrary: m rule: render_query.induct)
  case 1
  then show ?case by simp
next
  case (2 k v)
  then show ?case
    by (simp add: query_loop.simps query_pair_hit query_safe_def map_add_def fun_eq_iff)
next
  case (3 k v kv kvs)
  let ?p = "k @ CHR ''='' # v" and ?r = "render_query (kv # kvs)"
  have safe: "CHR ''&'' \<notin> set ?p" "CHR ''='' \<notin> set k" using 3 by (auto simp: query_safe_def)
  have "query_loop (?p @ CHR ''&'' # ?r) m = query_loop ?r (query_pair ?p m)"
    using find_char_hit [OF safe(1), of ?r] by (subst query_loop.simps) simp
  also have "\<dots> = (m(k \<mapsto> v)) ++ map_of (rev (kv # kvs))"
    using 3 safe by (simp add: query_pair_hit)
  finally show ?case by (simp add: map_add_def fun_eq_iff split: option.split)
qed

end
