(* ===== verification/Http_Context.thy ===== *)
theory Http_Context
  imports Byte_Buffer Http_Request
begin

text \<open>
  \<open>src/net/include/HttpContext.h\<close> and \<open>src/net/src/HttpContext.cpp\<close>: the incremental HTTP/1.x
  request parser. \<open>parse_iter\<close> is one pass through the body of the loop of \<open>parseRequest\<close>; it
  reads the readable bytes of the buffer and says how many of them are retrieved. \<open>parse_loop\<close>
  is the loop over the real buffer, \<open>parse_str\<close> the same loop over a plain string. The loop
  ends because every pass that goes on retrieves at least the two bytes of a line end.

  \<open>std::stoul\<close> throws on a \<open>Content-Length\<close> that is no number and nothing catches it: an
  \<open>Inl\<close> result is an exception that leaves \<open>parseRequest\<close>.
\<close>

section \<open>State and operations\<close>

datatype parse_state = kExpectRequestLine | kExpectHeaders | kExpectBody | kGotAll

record http_context =
  hc_state :: parse_state
  hc_request :: http_request

definition HttpContext_new :: http_context where
  "HttpContext_new = \<lparr>hc_state = kExpectRequestLine, hc_request = HttpRequest_new\<rparr>"

definition gotAll :: "http_context \<Rightarrow> bool" where
  "gotAll ctx \<longleftrightarrow> hc_state ctx = kGotAll"

definition HttpContext_reset :: "http_context \<Rightarrow> http_context" where
  "HttpContext_reset ctx =
     ctx\<lparr>hc_state := kExpectRequestLine,
         hc_request := fst (HttpRequest_swap (hc_request ctx) HttpRequest_new)\<rparr>"

definition kCRLF :: string where
  "kCRLF = [CHR 0x0D, CHR 0x0A]"

definition processRequestLine :: "string \<Rightarrow> http_request \<Rightarrow> bool \<times> http_request" where
  "processRequestLine line rq =
     (case find_char (CHR '' '') line of
        None \<Rightarrow> (False, rq)
      | Some i \<Rightarrow>
          (case setMethod (take i line) rq of (valid, rq1) \<Rightarrow>
             if \<not> valid then (False, rq1)
             else (let start = drop (Suc i) line
                   in case find_char (CHR '' '') start of
                        None \<Rightarrow> (False, rq1)
                      | Some j \<Rightarrow>
                          (let target = take j start;
                               rq2 = (case find_char (CHR ''?'') target of
                                        Some q \<Rightarrow> setQueryParameters (drop (Suc q) target)
                                                    (setPath (take q target) rq1)
                                      | None \<Rightarrow> setPath target rq1);
                               v = drop (Suc j) start
                           in if length v = 8 \<and> take 7 v = ''HTTP/1.''
                              then if last v = CHR ''1'' then (True, rq2\<lparr>rq_version := ''HTTP/1.1''\<rparr>)
                                   else if last v = CHR ''0'' then (True, rq2\<lparr>rq_version := ''HTTP/1.0''\<rparr>)
                                   else (False, rq2)
                              else (False, rq2)))))"

text \<open>
  The result of one pass: the new \<open>hasMore\<close>, the new \<open>ok\<close>, the context, and the number of
  bytes handed to \<open>buf->retrieve\<close> (0 when it is not called).
\<close>

type_synonym iter_result = "cpp_error + bool \<times> bool \<times> http_context \<times> nat"

definition iter_request_line :: "int \<Rightarrow> http_context \<Rightarrow> string \<Rightarrow> iter_result" where
  "iter_request_line t ctx s =
     (case find_sub kCRLF s of
        None \<Rightarrow> Inr (False, True, ctx, 0)
      | Some crlf \<Rightarrow>
          (case processRequestLine (take crlf s) (hc_request ctx) of (ok, rq) \<Rightarrow>
             if ok
             then Inr (True, True,
                       ctx\<lparr>hc_state := kExpectHeaders, hc_request := setReceiveTime t rq\<rparr>, crlf + 2)
             else Inr (False, False, ctx\<lparr>hc_request := rq\<rparr>, 0)))"

definition end_of_headers :: "http_context \<Rightarrow> nat \<Rightarrow> iter_result" where
  "end_of_headers ctx n =
     (let rq = hc_request ctx
      in if rq_method rq = kPost \<or> rq_method rq = kPut
         then (let contentLength = getHeader ''Content-Length'' rq
               in if contentLength \<noteq> []
                  then (case std_stoul contentLength of
                          Inl e \<Rightarrow> Inl e
                        | Inr len \<Rightarrow>
                            (let ctx1 = ctx\<lparr>hc_request := setContentLength len rq\<rparr>
                             in if 0 < len then Inr (True, True, ctx1\<lparr>hc_state := kExpectBody\<rparr>, n)
                                else Inr (False, True, ctx1\<lparr>hc_state := kGotAll\<rparr>, n)))
                  else Inr (False, False, ctx, n))
         else Inr (False, True, ctx\<lparr>hc_state := kGotAll\<rparr>, n))"

definition iter_headers :: "http_context \<Rightarrow> string \<Rightarrow> iter_result" where
  "iter_headers ctx s =
     (case find_sub kCRLF s of
        None \<Rightarrow> Inr (False, True, ctx, 0)
      | Some crlf \<Rightarrow>
          (let line = take crlf s
           in case find_char (CHR '':'') line of
                Some colon \<Rightarrow>
                  Inr (True, True,
                       ctx\<lparr>hc_request := addHeader (take colon line) (drop (Suc colon) line)
                                           (hc_request ctx)\<rparr>, crlf + 2)
              | None \<Rightarrow>
                  if line = [] then end_of_headers ctx (crlf + 2)
                  else Inr (False, False, ctx, crlf + 2)))"

definition iter_body :: "http_context \<Rightarrow> string \<Rightarrow> iter_result" where
  "iter_body ctx s =
     (let len = rq_contentLength (hc_request ctx)
      in if length s < len then Inr (False, True, ctx, 0)
         else Inr (False, True,
                   ctx\<lparr>hc_state := kGotAll, hc_request := setBody (take len s) (hc_request ctx)\<rparr>, len))"

definition parse_iter :: "int \<Rightarrow> http_context \<Rightarrow> string \<Rightarrow> iter_result" where
  "parse_iter t ctx s =
     (case hc_state ctx of
        kExpectRequestLine \<Rightarrow> iter_request_line t ctx s
      | kExpectHeaders \<Rightarrow> iter_headers ctx s
      | kExpectBody \<Rightarrow> iter_body ctx s
      | kGotAll \<Rightarrow> Inr (False, True, ctx, 0))"

text \<open>The bytes \<open>[peek(), peek() + readableBytes())\<close>.\<close>

definition readable_span :: "buffer \<Rightarrow> string" where
  "readable_span b = take (readableBytes b) (Buffer_peek b)"

definition retrieve_some :: "nat \<Rightarrow> buffer \<Rightarrow> buffer" where
  "retrieve_some n b = (if n = 0 then b else Buffer_retrieve n b)"

lemma parse_iter_progress:
  "parse_iter t ctx s = Inr (hasMore, ok, ctx', n) \<Longrightarrow> n \<le> length s \<and> (hasMore \<longrightarrow> 2 \<le> n)"
  by (auto simp: parse_iter_def iter_request_line_def iter_headers_def iter_body_def
      end_of_headers_def Let_def kCRLF_def
      split: parse_state.splits option.splits prod.splits if_splits sum.splits
      dest!: find_sub_SomeD)

lemma retrieve_some_shrinks:
  "n \<le> length (readable_span b) \<Longrightarrow> 2 \<le> n \<Longrightarrow> readableBytes (retrieve_some n b) < readableBytes b"
  by (auto simp: retrieve_some_def Buffer_retrieve_def retrieveAll_def readable_span_def
      readableBytes_def)

function parse_loop :: "int \<Rightarrow> http_context \<Rightarrow> buffer \<Rightarrow> cpp_error + bool \<times> http_context \<times> buffer" where
  "parse_loop t ctx b =
     (case parse_iter t ctx (readable_span b) of
        Inl e \<Rightarrow> Inl e
      | Inr (hasMore, ok, ctx', n) \<Rightarrow>
          (if hasMore then parse_loop t ctx' (retrieve_some n b)
           else Inr (ok, ctx', retrieve_some n b)))"
  by pat_completeness auto
termination
  by (relation "measure (\<lambda>(t, ctx, b). readableBytes b)")
    (auto dest: parse_iter_progress intro!: retrieve_some_shrinks)

declare parse_loop.simps [simp del]

definition parseRequest :: "buffer \<Rightarrow> int \<Rightarrow> http_context \<Rightarrow> cpp_error + bool \<times> http_context \<times> buffer" where
  "parseRequest b receiveTime ctx = parse_loop receiveTime ctx b"

section \<open>The loop over a string\<close>

function parse_str :: "int \<Rightarrow> http_context \<Rightarrow> string \<Rightarrow> cpp_error + bool \<times> http_context \<times> string" where
  "parse_str t ctx s =
     (case parse_iter t ctx s of
        Inl e \<Rightarrow> Inl e
      | Inr (hasMore, ok, ctx', n) \<Rightarrow>
          (if hasMore then parse_str t ctx' (drop n s) else Inr (ok, ctx', drop n s)))"
  by pat_completeness auto
termination
  by (relation "measure (\<lambda>(t, ctx, s). length s)")
    (fastforce dest: parse_iter_progress)+

declare parse_str.simps [simp del]

text \<open>What a caller of \<open>parseRequest\<close> sees: the buffer through its readable bytes.\<close>

definition abs_result ::
    "cpp_error + bool \<times> http_context \<times> buffer \<Rightarrow> cpp_error + bool \<times> http_context \<times> string" where
  "abs_result = map_sum id (\<lambda>(ok, ctx, b). (ok, ctx, Buffer_contents b))"

text \<open>
  Feeding a connection's input in pieces: each piece is appended to the input buffer by
  \<open>readFd\<close> and the parser is called again, until it fails, throws or has a whole request.
\<close>

fun feed :: "int \<Rightarrow> http_context \<Rightarrow> buffer \<Rightarrow> string list \<Rightarrow> cpp_error + bool \<times> http_context \<times> buffer" where
  "feed t ctx b [] = Inr (True, ctx, b)"
| "feed t ctx b (d # ds) =
     (case parseRequest (snd (Buffer_readFd (Inr d) b)) t ctx of
        Inl e \<Rightarrow> Inl e
      | Inr (ok, ctx', b') \<Rightarrow>
          (if ok \<and> \<not> gotAll ctx' then feed t ctx' b' ds
           else Inr (ok, ctx', fold (\<lambda>d b. snd (Buffer_readFd (Inr d) b)) ds b')))"

section \<open>Requests as a client writes them\<close>

fun render_headers :: "(string \<times> string) list \<Rightarrow> string" where
  "render_headers [] = kCRLF"
| "render_headers ((f, v) # hs) = f @ '': '' @ v @ kCRLF @ render_headers hs"

definition request_target :: "string \<Rightarrow> (string \<times> string) list \<Rightarrow> string" where
  "request_target path query = path @ (if query = [] then [] else ''?'' @ render_query query)"

definition render_request ::
    "http_method \<Rightarrow> string \<Rightarrow> (string \<times> string) list \<Rightarrow> (string \<times> string) list \<Rightarrow> string \<Rightarrow> string" where
  "render_request m path query hs body =
     methodString m @ '' '' @ request_target path query @ '' HTTP/1.1'' @ kCRLF @ render_headers hs @ body"

text \<open>What such a client keeps to: no separator inside a part, no white space around a value.\<close>

definition path_safe :: "string \<Rightarrow> bool" where
  "path_safe p \<longleftrightarrow> CHR '' '' \<notin> set p \<and> CHR ''?'' \<notin> set p \<and> CHR 0x0D \<notin> set p"

definition param_safe :: "string \<times> string \<Rightarrow> bool" where
  "param_safe kv \<longleftrightarrow> query_safe kv \<and> (\<forall>c \<in> {CHR '' '', CHR 0x0D}. c \<notin> set (fst kv) \<and> c \<notin> set (snd kv))"

definition header_safe :: "string \<times> string \<Rightarrow> bool" where
  "header_safe h \<longleftrightarrow>
     CHR '':'' \<notin> set (fst h) \<and> CHR 0x0D \<notin> set (fst h) \<and> CHR 0x0D \<notin> set (snd h) \<and>
     (snd h \<noteq> [] \<longrightarrow> \<not> isspace (hd (snd h)) \<and> \<not> isspace (last (snd h)))"

definition stored_headers :: "(string \<times> string) list \<Rightarrow> (string \<times> string) list" where
  "stored_headers hs = fold (\<lambda>(f, v). map_put f v) hs []"

definition body_framed :: "http_method \<Rightarrow> (string \<times> string) list \<Rightarrow> string \<Rightarrow> bool" where
  "body_framed m hs body \<longleftrightarrow>
     (if m = kPost \<or> m = kPut
      then length body < 2 ^ 64 \<and> map_of (stored_headers hs) ''Content-Length'' = Some (show_nat (length body))
      else body = [])"

section \<open>Lemmas: the buffer and the string loop agree\<close>

lemma readable_span_contents [simp]: "readable_span b = Buffer_contents b"
  by (simp add: readable_span_def Buffer_contents_def readableBytes_def Buffer_peek_def)

lemma retrieve_some_inv [wf_intros]: "Buffer_inv b \<Longrightarrow> Buffer_inv (retrieve_some n b)"
  by (simp add: retrieve_some_def wf_intros)

lemma retrieve_some_contents [abs_simps]:
  "Buffer_inv b \<Longrightarrow> Buffer_contents (retrieve_some n b) = drop n (Buffer_contents b)"
  by (simp add: retrieve_some_def abs_simps)

lemma parse_loop_unfold:
  "parse_iter t ctx (Buffer_contents b) = Inr (hasMore, ok, ctx', n) \<Longrightarrow>
     parse_loop t ctx b = (if hasMore then parse_loop t ctx' (retrieve_some n b)
                           else Inr (ok, ctx', retrieve_some n b))"
  "parse_iter t ctx (Buffer_contents b) = Inl e \<Longrightarrow> parse_loop t ctx b = Inl e"
  by (subst parse_loop.simps, simp)+

lemma parse_str_unfold:
  "parse_iter t ctx s = Inr (hasMore, ok, ctx', n) \<Longrightarrow>
     parse_str t ctx s = (if hasMore then parse_str t ctx' (drop n s) else Inr (ok, ctx', drop n s))"
  "parse_iter t ctx s = Inl e \<Longrightarrow> parse_str t ctx s = Inl e"
  by (subst parse_str.simps, simp)+

lemma iter_result_cases:
  fixes r :: iter_result
  obtains e where "r = Inl e" | hasMore ok ctx' n where "r = Inr (hasMore, ok, ctx', n)"
  by (cases r) auto

lemma parse_loop_refines:
  "Buffer_inv b \<Longrightarrow> abs_result (parse_loop t ctx b) = parse_str t ctx (Buffer_contents b)"
proof (induction t ctx b rule: parse_loop.induct)
  case (1 t ctx b)
  show ?case
  proof (cases "parse_iter t ctx (Buffer_contents b)" rule: iter_result_cases)
    case (1 e)
    then show ?thesis by (simp add: parse_loop_unfold parse_str_unfold abs_result_def)
  next
    case (2 hasMore ok ctx' n)
    with "1" show ?thesis
      by (auto simp: parse_loop_unfold parse_str_unfold abs_result_def retrieve_some_contents
          retrieve_some_inv)
  qed
qed

lemma parse_loop_inv:
  "Buffer_inv b \<Longrightarrow> parse_loop t ctx b = Inr (ok, ctx', b') \<Longrightarrow> Buffer_inv b'"
proof (induction t ctx b rule: parse_loop.induct)
  case (1 t ctx b)
  show ?case
  proof (cases "parse_iter t ctx (Buffer_contents b)" rule: iter_result_cases)
    case (1 e)
    with "1.prems" show ?thesis by (simp add: parse_loop_unfold)
  next
    case (2 hasMore ok1 ctx1 n)
    then show ?thesis using "1.prems" "1.IH" [of "(hasMore, ok1, ctx1, n)"]
      by (auto simp: parse_loop_unfold retrieve_some_inv split: if_splits)
  qed
qed

section \<open>Lemmas: input in pieces\<close>

text \<open>A pass that does anything does the same when more bytes follow; otherwise it waits.\<close>

lemma find_line_append:
  "find_sub kCRLF s = Some crlf \<Longrightarrow> find_sub kCRLF (s @ d) = Some crlf \<and> take crlf (s @ d) = take crlf s"
  by (auto simp: find_sub_append dest: find_sub_SomeD)

lemma parse_iter_append:
  "parse_iter t ctx (s @ d) = parse_iter t ctx s \<or>
   parse_iter t ctx s = Inr (False, True, ctx, 0) \<and> \<not> gotAll ctx"
proof (cases "hc_state ctx")
  case kExpectRequestLine
  then show ?thesis
    using find_line_append [of s _ d]
    by (cases "find_sub kCRLF s") (auto simp: parse_iter_def iter_request_line_def gotAll_def)
next
  case kExpectHeaders
  then show ?thesis
    using find_line_append [of s _ d]
    by (cases "find_sub kCRLF s") (auto simp: parse_iter_def iter_headers_def gotAll_def)
next
  case kExpectBody
  then show ?thesis by (auto simp: parse_iter_def iter_body_def gotAll_def Let_def)
next
  case kGotAll
  then show ?thesis by (simp add: parse_iter_def)
qed

lemma parse_iter_gotAll: "gotAll ctx \<Longrightarrow> parse_iter t ctx s = Inr (False, True, ctx, 0)"
  by (simp add: parse_iter_def gotAll_def)

lemma parse_iter_stops:
  assumes "parse_iter t ctx s = Inr (False, ok, ctx', n)"
  shows "ok \<and> \<not> gotAll ctx' \<Longrightarrow> ctx' = ctx \<and> n = 0"
  using assms
  by (auto simp: parse_iter_def iter_request_line_def iter_headers_def iter_body_def gotAll_def
      end_of_headers_def Let_def
      split: parse_state.splits option.splits prod.splits if_splits sum.splits)

lemma parse_str_append:
  "parse_str t ctx (s @ d) =
     (case parse_str t ctx s of
        Inl e \<Rightarrow> Inl e
      | Inr (ok, ctx', r) \<Rightarrow>
          if ok \<and> \<not> gotAll ctx' then parse_str t ctx' (r @ d) else Inr (ok, ctx', r @ d))"
proof (induction t ctx s rule: parse_str.induct)
  case (1 t ctx s)
  show ?case
  proof (cases "parse_iter t ctx (s @ d) = parse_iter t ctx s")
    case False
    with parse_iter_append have "parse_iter t ctx s = Inr (False, True, ctx, 0)" "\<not> gotAll ctx"
      by blast+
    then show ?thesis by (simp add: parse_str_unfold)
  next
    case same: True
    show ?thesis
    proof (cases "parse_iter t ctx s" rule: iter_result_cases)
      case (1 e)
      with same show ?thesis by (simp add: parse_str_unfold)
    next
      case (2 hasMore ok ctx' n)
      then have n: "drop n (s @ d) = drop n s @ d" using parse_iter_progress by fastforce
      show ?thesis
      proof (cases hasMore)
        case True
        with 2 have "parse_iter t ctx s = Inr (True, ok, ctx', n)" by simp
        with same n show ?thesis
          using "1.IH" [of "(True, ok, ctx', n)" True "(ok, ctx', n)" ok "(ctx', n)" ctx' n]
          by (simp add: parse_str_unfold)
      next
        case False
        with 2 have it: "parse_iter t ctx s = Inr (False, ok, ctx', n)" by simp
        then have "parse_str t ctx s = Inr (ok, ctx', drop n s)"
          and "parse_str t ctx (s @ d) = Inr (ok, ctx', drop n s @ d)"
          using parse_str_unfold(1) [OF it] parse_str_unfold(1) [OF same [unfolded it]] n by simp_all
        with parse_iter_stops [OF it] show ?thesis by auto
      qed
    qed
  qed
qed

lemma parse_str_error_stable:
  "parse_str t ctx s = Inl e \<Longrightarrow> parse_str t ctx (s @ d) = Inl e"
  by (simp add: parse_str_append)

lemma readFd_all:
  "Buffer_inv b \<Longrightarrow> Buffer_inv (fold (\<lambda>d b. snd (Buffer_readFd (Inr d) b)) ds b) \<and>
     Buffer_contents (fold (\<lambda>d b. snd (Buffer_readFd (Inr d) b)) ds b) = Buffer_contents b @ concat ds"
  by (induction ds arbitrary: b) (simp_all add: wf_intros abs_simps)

text \<open>
  Once the parser has nothing left to do with what it holds, feeding it pieces gives what one
  call on all of them gives.
\<close>

lemma feed_parse_str:
  assumes "Buffer_inv b" and "parse_str t ctx (Buffer_contents b) = Inr (True, ctx, Buffer_contents b)"
    and "\<not> gotAll ctx"
  shows "abs_result (feed t ctx b ds) = parse_str t ctx (Buffer_contents b @ concat ds)"
  using assms
proof (induction ds arbitrary: ctx b)
  case Nil
  then show ?case by (simp add: abs_result_def)
next
  case (Cons d ds)
  let ?b = "snd (Buffer_readFd (Inr d) b)"
  have b: "Buffer_inv ?b" "Buffer_contents ?b = Buffer_contents b @ d"
    using Cons.prems by (simp_all add: wf_intros abs_simps)
  have ref: "abs_result (parse_loop t ctx ?b) = parse_str t ctx (Buffer_contents b @ d)"
    using parse_loop_refines [OF b(1)] b(2) by simp
  have split: "parse_str t ctx (Buffer_contents b @ concat (d # ds)) =
     (case parse_str t ctx (Buffer_contents b @ d) of
        Inl e \<Rightarrow> Inl e
      | Inr (ok, ctx', r) \<Rightarrow>
          if ok \<and> \<not> gotAll ctx' then parse_str t ctx' (r @ concat ds) else Inr (ok, ctx', r @ concat ds))"
    using parse_str_append [of t ctx "Buffer_contents b @ d" "concat ds"] by simp
  show ?case
  proof (cases "parse_loop t ctx ?b")
    case (Inl e)
    with ref have "parse_str t ctx (Buffer_contents b @ d) = Inl e" by (simp add: abs_result_def)
    with split Inl show ?thesis by (simp add: parseRequest_def abs_result_def)
  next
    case (Inr r)
    obtain ok ctx' b' where r: "r = (ok, ctx', b')" by (cases r)
    have b': "Buffer_inv b'" using parse_loop_inv [OF b(1)] Inr r by simp
    have ps: "parse_str t ctx (Buffer_contents b @ d) = Inr (ok, ctx', Buffer_contents b')"
      using ref Inr r by (simp add: abs_result_def)
    show ?thesis
    proof (cases "ok \<and> \<not> gotAll ctx'")
      case True
      have "parse_str t ctx' (Buffer_contents b') = Inr (True, ctx', Buffer_contents b')"
        using parse_str_append [of t ctx "Buffer_contents b @ d" "[]"] ps True by simp
      with Cons.IH b' True have "abs_result (feed t ctx' b' ds) = parse_str t ctx' (Buffer_contents b' @ concat ds)"
        by blast
      with True split ps Inr r show ?thesis by (simp add: parseRequest_def)
    next
      case False
      with split ps Inr r show ?thesis
        using readFd_all [OF b', of ds] by (auto simp: parseRequest_def abs_result_def)
    qed
  qed
qed

section \<open>Lemmas: reading back a rendered request\<close>

lemma find_crlf_hit:
  "CHR 0x0D \<notin> set line \<Longrightarrow> find_sub kCRLF (line @ kCRLF @ rest) = Some (length line)"
  by (induction line) (auto simp: kCRLF_def)

lemma take_crlf_line [simp]: "take (length line) (line @ kCRLF @ rest) = line"
  by simp

lemma drop_crlf_line [simp]: "drop (length line + 2) (line @ kCRLF @ rest) = rest"
  by (simp add: kCRLF_def)

lemma render_query_chars:
  "list_all param_safe query \<Longrightarrow> c \<in> {CHR '' '', CHR 0x0D} \<Longrightarrow> c \<notin> set (render_query query)"
  by (induction query rule: render_query.induct) (auto simp: param_safe_def)

lemma request_target_chars:
  "path_safe path \<Longrightarrow> list_all param_safe query \<Longrightarrow> c \<in> {CHR '' '', CHR 0x0D} \<Longrightarrow>
     c \<notin> set (request_target path query)"
  using render_query_chars [of query c] by (auto simp: request_target_def path_safe_def)

lemma param_safe_query: "list_all param_safe query \<Longrightarrow> list_all query_safe query"
  by (auto simp: list_all_iff param_safe_def)

lemma processRequestLine_render:
  assumes m: "m \<noteq> kInvalid" and "path_safe path" and "list_all param_safe query"
    and rq: "rq_queryParameters rq = Map.empty"
  shows "processRequestLine (methodString m @ '' '' @ request_target path query @ '' HTTP/1.1'') rq =
     (True, rq\<lparr>rq_method := m, rq_path := path, rq_queryParameters := map_of (rev query),
               rq_version := ''HTTP/1.1''\<rparr>)"
proof -
  let ?t = "request_target path query"
  have nosp: "CHR '' '' \<notin> set (methodString m)" using methodString_no_space [OF m] by blast
  have f1: "find_char (CHR '' '') (methodString m @ '' '' @ ?t @ '' HTTP/1.1'') = Some (length (methodString m))"
    using nosp by simp
  have f2: "find_char (CHR '' '') (?t @ '' HTTP/1.1'') = Some (length ?t)"
    using request_target_chars [OF assms(2,3)] by simp
  have q: "CHR ''?'' \<notin> set path" using assms(2) by (simp add: path_safe_def)
  let ?rq1 = "rq\<lparr>rq_method := m\<rparr>"
  have target: "(case find_char (CHR ''?'') ?t of
         Some q \<Rightarrow> setQueryParameters (drop (Suc q) ?t) (setPath (take q ?t) ?rq1)
       | None \<Rightarrow> setPath ?t ?rq1)
     = rq\<lparr>rq_method := m, rq_path := path, rq_queryParameters := map_of (rev query)\<rparr>"
    using q rq query_loop_render [OF _ param_safe_query [OF assms(3)], of Map.empty]
    by (cases "query = []")
      (simp_all add: request_target_def setPath_def setQueryParameters_def)
  show ?thesis
    unfolding processRequestLine_def f1
    using m f2 target by (simp add: Let_def)
qed

lemma parse_str_request_line:
  assumes "hc_state ctx = kExpectRequestLine" and "CHR 0x0D \<notin> set line"
    and "processRequestLine line (hc_request ctx) = (True, rq)"
  shows "parse_str t ctx (line @ kCRLF @ rest) =
     parse_str t (ctx\<lparr>hc_state := kExpectHeaders, hc_request := setReceiveTime t rq\<rparr>) rest"
proof -
  have "parse_iter t ctx (line @ kCRLF @ rest) = Inr (True, True,
      ctx\<lparr>hc_state := kExpectHeaders, hc_request := setReceiveTime t rq\<rparr>, length line + 2)"
    unfolding parse_iter_def iter_request_line_def find_crlf_hit [OF assms(2)]
    using assms(1,3) by simp
  from parse_str_unfold(1) [OF this] show ?thesis
    using drop_crlf_line [of line rest] by simp
qed

lemma addHeader_safe:
  "header_safe (f, v) \<Longrightarrow>
     addHeader f (CHR '' '' # v) rq = rq\<lparr>rq_headers := map_put f v (rq_headers rq)\<rparr>"
  by (cases v) (auto simp: addHeader_def header_safe_def isspace_def [of "CHR '' ''"])

lemma parse_str_header_line:
  assumes "hc_state ctx = kExpectHeaders" and "header_safe (f, v)"
  shows "parse_str t ctx (f @ '': '' @ v @ kCRLF @ rest) =
     parse_str t (ctx\<lparr>hc_request := addHeader f (CHR '' '' # v) (hc_request ctx)\<rparr>) rest"
proof -
  let ?line = "f @ '': '' @ v"
  have cr: "CHR 0x0D \<notin> set ?line" and c: "CHR '':'' \<notin> set f" using assms(2) by (auto simp: header_safe_def)
  have "parse_iter t ctx (?line @ kCRLF @ rest) = Inr (True, True,
      ctx\<lparr>hc_request := addHeader f (CHR '' '' # v) (hc_request ctx)\<rparr>, length ?line + 2)"
    unfolding parse_iter_def iter_headers_def find_crlf_hit [OF cr] take_crlf_line
    using assms(1) c by simp
  from parse_str_unfold(1) [OF this] show ?thesis
    using drop_crlf_line [of ?line rest] by simp
qed

lemma parse_str_headers:
  assumes "hc_state ctx = kExpectHeaders" and "list_all header_safe hs"
  shows "parse_str t ctx (render_headers hs @ rest) =
     parse_str t (ctx\<lparr>hc_request := (hc_request ctx)\<lparr>rq_headers :=
         fold (\<lambda>(f, v). map_put f v) hs (rq_headers (hc_request ctx))\<rparr>\<rparr>) (kCRLF @ rest)"
  using assms
proof (induction hs arbitrary: ctx)
  case Nil
  then show ?case by simp
next
  case (Cons h hs)
  obtain f v where h: "h = (f, v)" by (cases h)
  with Cons have safe: "header_safe (f, v)" by simp
  show ?case
    using parse_str_header_line [OF Cons.prems(1) safe, of t "render_headers hs @ rest"] Cons h
    by (simp add: addHeader_safe [OF safe])
qed

lemma parse_str_end:
  assumes "hc_state ctx = kExpectHeaders" and rq: "hc_request ctx = rq"
    and "rq_content rq = []" and "rq_contentLength rq = 0"
    and framed: "if rq_method rq = kPost \<or> rq_method rq = kPut
      then length body < 2 ^ 64 \<and> map_of (rq_headers rq) ''Content-Length'' = Some (show_nat (length body))
      else body = []"
  shows "parse_str t ctx (kCRLF @ body @ rest) =
     Inr (True, ctx\<lparr>hc_state := kGotAll,
        hc_request := rq\<lparr>rq_content := body, rq_contentLength := length body\<rparr>\<rparr>, rest)"
proof -
  have hit: "find_sub kCRLF (kCRLF @ body @ rest) = Some 0"
    using find_crlf_hit [of "[]"] by simp
  have it: "parse_iter t ctx (kCRLF @ body @ rest) = end_of_headers ctx 2"
    using assms(1) hit by (simp add: parse_iter_def iter_headers_def numeral_2_eq_2)
  have drop2: "drop 2 (kCRLF @ body @ rest) = body @ rest" by (simp add: kCRLF_def)
  show ?thesis
  proof (cases "rq_method rq = kPost \<or> rq_method rq = kPut")
    case False
    with framed have "body = []" by simp
    with it False rq have "parse_iter t ctx (kCRLF @ body @ rest) = Inr (False, True, ctx\<lparr>hc_state := kGotAll\<rparr>, 2)"
      by (simp add: end_of_headers_def Let_def)
    from parse_str_unfold(1) [OF this] \<open>body = []\<close> assms drop2 show ?thesis by (cases rq) auto
  next
    case True
    with framed have n: "length body < 2 ^ 64" and
      cl: "getHeader ''Content-Length'' rq = show_nat (length body)" by (auto simp: getHeader_def)
    have st: "std_stoul (show_nat (length body)) = Inr (length body)"
      using std_stoul_show_nat [OF n, of "[]"] by simp
    let ?rq = "rq\<lparr>rq_contentLength := length body\<rparr>"
    have eoh: "end_of_headers ctx 2 = (if 0 < length body
        then Inr (True, True, ctx\<lparr>hc_request := ?rq, hc_state := kExpectBody\<rparr>, 2)
        else Inr (False, True, ctx\<lparr>hc_request := ?rq, hc_state := kGotAll\<rparr>, 2))"
      using True st rq cl by (simp add: end_of_headers_def Let_def setContentLength_def)
    show ?thesis
    proof (cases "body = []")
      case True
      with it eoh have "parse_iter t ctx (kCRLF @ body @ rest) =
          Inr (False, True, ctx\<lparr>hc_request := ?rq, hc_state := kGotAll\<rparr>, 2)" by simp
      from parse_str_unfold(1) [OF this] True assms(3) drop2 show ?thesis by (cases rq) auto
    next
      case False
      with it eoh have it1: "parse_iter t ctx (kCRLF @ body @ rest) =
          Inr (True, True, ctx\<lparr>hc_request := ?rq, hc_state := kExpectBody\<rparr>, 2)" by simp
      let ?ctx = "ctx\<lparr>hc_request := ?rq, hc_state := kExpectBody\<rparr>"
      have it2: "parse_iter t ?ctx (body @ rest) = Inr (False, True,
          ?ctx\<lparr>hc_state := kGotAll, hc_request := setBody body ?rq\<rparr>, length body)"
        by (simp add: parse_iter_def iter_body_def Let_def)
      from parse_str_unfold(1) [OF it1] parse_str_unfold(1) [OF it2] drop2
      show ?thesis by (simp add: setBody_def)
    qed
  qed
qed

text \<open>The context when the blank line behind the header fields is next.\<close>

abbreviation head_context ::
    "int \<Rightarrow> http_method \<Rightarrow> string \<Rightarrow> (string \<times> string) list \<Rightarrow> (string \<times> string) list \<Rightarrow> http_context" where
  "head_context t m path query hs \<equiv> \<lparr>hc_state = kExpectHeaders,
      hc_request = HttpRequest_new\<lparr>rq_method := m, rq_path := path,
        rq_queryParameters := map_of (rev query), rq_version := ''HTTP/1.1'', rq_receiveTime := t,
        rq_headers := stored_headers hs\<rparr>\<rparr>"

lemma parse_str_head:
  assumes "m \<noteq> kInvalid" and "path_safe path" and "list_all param_safe query"
    and "list_all header_safe hs"
  shows "parse_str t HttpContext_new (render_request m path query hs body @ rest) =
     parse_str t (head_context t m path query hs) (kCRLF @ body @ rest)"
proof -
  let ?line = "methodString m @ '' '' @ request_target path query @ '' HTTP/1.1''"
  let ?rq = "HttpRequest_new\<lparr>rq_method := m, rq_path := path, rq_queryParameters := map_of (rev query),
      rq_version := ''HTTP/1.1'', rq_receiveTime := t\<rparr>"
  let ?ctx = "\<lparr>hc_state = kExpectHeaders, hc_request = ?rq\<rparr>"
  let ?rest = "render_headers hs @ body @ rest"
  have cr: "CHR 0x0D \<notin> set ?line"
    using methodString_no_space [OF assms(1)] request_target_chars [OF assms(2,3)] by fastforce
  have "processRequestLine ?line (hc_request HttpContext_new) = (True, HttpRequest_new\<lparr>rq_method := m,
      rq_path := path, rq_queryParameters := map_of (rev query), rq_version := ''HTTP/1.1''\<rparr>)"
    using processRequestLine_render [OF assms(1-3), of HttpRequest_new]
    by (simp add: HttpContext_new_def HttpRequest_new_def)
  from parse_str_request_line [OF _ cr this, of t ?rest]
  have "parse_str t HttpContext_new (?line @ kCRLF @ ?rest) = parse_str t ?ctx ?rest"
    by (simp add: HttpContext_new_def setReceiveTime_def)
  also have "\<dots> = parse_str t (head_context t m path query hs) (kCRLF @ body @ rest)"
    using parse_str_headers [of ?ctx hs t "body @ rest"] assms(4)
    by (simp add: stored_headers_def HttpRequest_new_def)
  finally show ?thesis by (simp add: render_request_def)
qed

text \<open>The request object that such bytes describe.\<close>

definition parsed_request ::
    "int \<Rightarrow> http_method \<Rightarrow> string \<Rightarrow> (string \<times> string) list \<Rightarrow> (string \<times> string) list \<Rightarrow> string \<Rightarrow> http_request" where
  "parsed_request t m path query hs body =
     HttpRequest_new\<lparr>rq_method := m, rq_path := path, rq_queryParameters := map_of (rev query),
       rq_version := ''HTTP/1.1'', rq_receiveTime := t, rq_headers := stored_headers hs,
       rq_content := body, rq_contentLength := length body\<rparr>"

lemma parse_str_render:
  assumes "m \<noteq> kInvalid" and "path_safe path" and "list_all param_safe query"
    and "list_all header_safe hs" and "body_framed m hs body"
  shows "parse_str t HttpContext_new (render_request m path query hs body @ rest) =
     Inr (True, \<lparr>hc_state = kGotAll, hc_request = parsed_request t m path query hs body\<rparr>, rest)"
  unfolding parse_str_head [OF assms(1-4)] parsed_request_def
  using assms(5) by (subst parse_str_end [OF _ refl]) (auto simp: HttpRequest_new_def body_framed_def)

lemma parseRequest_render:
  assumes "m \<noteq> kInvalid" and "path_safe path" and "list_all param_safe query"
    and "list_all header_safe hs" and "body_framed m hs body"
    and "Buffer_inv b" and "Buffer_contents b = render_request m path query hs body @ rest"
  obtains b' where
    "parseRequest b t HttpContext_new =
       Inr (True, \<lparr>hc_state = kGotAll, hc_request = parsed_request t m path query hs body\<rparr>, b')"
    and "Buffer_inv b'" and "Buffer_contents b' = rest"
proof -
  have "abs_result (parse_loop t HttpContext_new b) =
      parse_str t HttpContext_new (render_request m path query hs body @ rest)"
    using parse_loop_refines [OF assms(6)] assms(7) by simp
  with parse_str_render [OF assms(1-5), of t rest] parse_loop_inv [OF assms(6), of t HttpContext_new] that
  show ?thesis
    by (cases "parse_loop t HttpContext_new b") (auto simp: abs_result_def parseRequest_def)
qed

lemma parse_str_bad_length:
  assumes "m = kPost \<or> m = kPut" and "path_safe path" and "list_all param_safe query"
    and "list_all header_safe hs" and "map_of (stored_headers hs) ''Content-Length'' = Some v"
    and "v \<noteq> []" and "std_stoul v = Inl e"
  shows "parse_str t HttpContext_new (render_request m path query hs body @ rest) = Inl e"
proof -
  have m: "m \<noteq> kInvalid" using assms(1) by auto
  have "find_sub kCRLF (kCRLF @ body @ rest) = Some 0" using find_crlf_hit [of "[]"] by simp
  then have "parse_iter t (head_context t m path query hs) (kCRLF @ body @ rest) = Inl e"
    using assms(1,5-7) by (auto simp: parse_iter_def iter_headers_def end_of_headers_def getHeader_def Let_def)
  from parse_str_unfold(2) [OF this] show ?thesis
    unfolding parse_str_head [OF m assms(2-4)] .
qed

section \<open>Properties\<close>

text \<open>
  C9. Input in pieces. However the bytes of a connection are cut into reads, the parser ends
  with the same verdict, the same request and the same unread bytes as when they arrive at once.
\<close>

theorem parse_in_pieces:
  "abs_result (feed t HttpContext_new (Buffer_new n) ds)
     = abs_result (feed t HttpContext_new (Buffer_new k) [concat ds])"
proof -
  have all: "abs_result (feed t HttpContext_new (Buffer_new n) ds) = parse_str t HttpContext_new (concat ds)" for n ds
    using feed_parse_str [of "Buffer_new n" t HttpContext_new ds]
    by (simp add: Buffer_new_inv Buffer_new_contents parse_str.simps parse_iter_def
        iter_request_line_def HttpContext_new_def gotAll_def kCRLF_def)
  show ?thesis unfolding all by simp
qed

text \<open>
  C2. Reading back. A request written with a valid method, a path, query parameters and header
  fields free of separators, and a body announced by its length where the method has one, is
  parsed into exactly these parts, the last value of a repeated parameter or field winning; the
  bytes behind it stay in the buffer for the next request.
\<close>

theorem parse_render_roundtrip:
  assumes "m \<noteq> kInvalid" and "path_safe path" and "list_all param_safe query"
    and "list_all header_safe hs" and "body_framed m hs body"
    and "Buffer_inv b" and "Buffer_contents b = render_request m path query hs body @ rest"
  shows "\<exists>ctx' b'. parseRequest b t HttpContext_new = Inr (True, ctx', b') \<and> gotAll ctx' \<and>
     Buffer_inv b' \<and> Buffer_contents b' = rest \<and>
     hc_request ctx' = HttpRequest_new\<lparr>rq_method := m, rq_path := path,
          rq_queryParameters := map_of (rev query), rq_version := ''HTTP/1.1'', rq_receiveTime := t,
          rq_headers := stored_headers hs, rq_content := body, rq_contentLength := length body\<rparr>"
proof -
  obtain b' where "parseRequest b t HttpContext_new =
      Inr (True, \<lparr>hc_state = kGotAll, hc_request = parsed_request t m path query hs body\<rparr>, b')"
    and "Buffer_inv b'" and "Buffer_contents b' = rest"
    using parseRequest_render [OF assms] .
  then show ?thesis by (simp add: gotAll_def parsed_request_def)
qed

theorem parse_render_roundtrip_witness:
  "\<exists>ctx' b'. parseRequest (Buffer_append (render_request kPost ''/orders'' [(''u'', ''1'')]
       [(''Content-Length'', ''2'')] ''{}'' @ ''GET'') (Buffer_new 0)) 7 HttpContext_new
     = Inr (True, ctx', b') \<and> Buffer_contents b' = ''GET'' \<and> rq_content (hc_request ctx') = ''{}''"
proof -
  let ?b = "Buffer_append (render_request kPost ''/orders'' [(''u'', ''1'')]
       [(''Content-Length'', ''2'')] ''{}'' @ ''GET'') (Buffer_new 0)"
  have "show_nat 2 = ''2''" by code_simp
  then have "body_framed kPost [(''Content-Length'', ''2'')] ''{}''"
    by (simp add: body_framed_def stored_headers_def flip: numeral_2_eq_2)
  from parse_render_roundtrip [of kPost "''/orders''" "[(''u'', ''1'')]"
      "[(''Content-Length'', ''2'')]" "''{}''" ?b "''GET''" 7] this
  show ?thesis
    by (auto simp: path_safe_def param_safe_def query_safe_def header_safe_def isspace_def
        wf_intros abs_simps)
qed

text \<open>
  An exception leaves the parser. A \<open>POST\<close> or \<open>PUT\<close> request whose \<open>Content-Length\<close> is no
  number, or too large a one, makes \<open>std::stoul\<close> throw out of \<open>parseRequest\<close>; no result is
  returned and no 400 answer can follow.
\<close>

theorem parse_bad_length_throws:
  assumes "m = kPost \<or> m = kPut" and "path_safe path" and "list_all param_safe query"
    and "list_all header_safe hs" and "map_of (stored_headers hs) ''Content-Length'' = Some v"
    and "v \<noteq> []" and "std_stoul v = Inl e"
    and "Buffer_inv b" and "Buffer_contents b = render_request m path query hs body @ rest"
  shows "parseRequest b t HttpContext_new = Inl e"
proof -
  have "abs_result (parse_loop t HttpContext_new b) = Inl e"
    using parse_loop_refines [OF assms(8)] parse_str_bad_length [OF assms(1-7)] assms(9) by simp
  then show ?thesis
    by (cases "parse_loop t HttpContext_new b") (auto simp: abs_result_def parseRequest_def)
qed

theorem parse_bad_length_throws_witness:
  "parseRequest (Buffer_append (render_request kPost ''/'' [] [(''Content-Length'', ''abc'')] [])
     (Buffer_new 0)) 7 HttpContext_new = Inl InvalidArgument"
proof -
  have "std_stoul ''abc'' = Inl InvalidArgument" by code_simp
  then show ?thesis
    by (intro parse_bad_length_throws [of kPost "''/''" "[]" "[(''Content-Length'', ''abc'')]" "''abc''"
          InvalidArgument _ "[]" "[]"])
      (simp_all add: path_safe_def header_safe_def isspace_def stored_headers_def wf_intros abs_simps)
qed

end
