(* ===== verification/Http_Response.thy ===== *)
theory Http_Response
  imports Byte_Buffer
begin

text \<open>
  The response object (\<open>src/net/include/HttpResponse.h\<close>, \<open>src/net/src/HttpResponse.cpp\<close>): its
  setters and \<open>appendToBuffer\<close>, which writes it to an output buffer piece by piece. The lemmas
  show that the bytes are a status line, the header fields in key order and the body, and that a
  client which reads lines up to the empty one finds exactly these parts again.
\<close>

section \<open>The object\<close>

datatype http_status =
    kUnknownStatus
  | k200Ok
  | k204NoContent
  | k206ParitialContent
  | k301MovedPermanently
  | k302Found
  | k304NotModified
  | k400BadRequest
  | k403Forbidden
  | k404NotFound
  | k500InternalServerError
  | k501NotImplemented
  | k502BadGateway
  | k503ServiceUnavailable

fun status_value :: "http_status \<Rightarrow> nat" where
  "status_value kUnknownStatus = 0"
| "status_value k200Ok = 200"
| "status_value k204NoContent = 204"
| "status_value k206ParitialContent = 206"
| "status_value k301MovedPermanently = 301"
| "status_value k302Found = 302"
| "status_value k304NotModified = 304"
| "status_value k400BadRequest = 400"
| "status_value k403Forbidden = 403"
| "status_value k404NotFound = 404"
| "status_value k500InternalServerError = 500"
| "status_value k501NotImplemented = 501"
| "status_value k502BadGateway = 502"
| "status_value k503ServiceUnavailable = 503"

record http_response =
  rs_httpVersion :: string
  rs_statusCode :: http_status
  rs_statusMessage :: string
  rs_headers :: "(string \<times> string) list"
  rs_body :: string
  rs_closeConnection :: bool

definition HttpResponse_new :: "bool \<Rightarrow> http_response" where
  "HttpResponse_new close =
     \<lparr>rs_httpVersion = [], rs_statusCode = kUnknownStatus, rs_statusMessage = [], rs_headers = [],
      rs_body = [], rs_closeConnection = close\<rparr>"

definition setStatusCode :: "http_status \<Rightarrow> http_response \<Rightarrow> http_response" where
  "setStatusCode code r = r\<lparr>rs_statusCode := code\<rparr>"

definition setStatusMessage :: "string \<Rightarrow> http_response \<Rightarrow> http_response" where
  "setStatusMessage message r = r\<lparr>rs_statusMessage := message\<rparr>"

definition setCloseConnection :: "bool \<Rightarrow> http_response \<Rightarrow> http_response" where
  "setCloseConnection on r = r\<lparr>rs_closeConnection := on\<rparr>"

definition closeConnection :: "http_response \<Rightarrow> bool" where
  "closeConnection r = rs_closeConnection r"

definition Response_addHeader :: "string \<Rightarrow> string \<Rightarrow> http_response \<Rightarrow> http_response" where
  "Response_addHeader key value r = r\<lparr>rs_headers := map_put key value (rs_headers r)\<rparr>"

definition setContentType :: "string \<Rightarrow> http_response \<Rightarrow> http_response" where
  "setContentType contentType = Response_addHeader ''Content-Type'' contentType"

definition Response_setBody :: "string \<Rightarrow> http_response \<Rightarrow> http_response" where
  "Response_setBody body r = r\<lparr>rs_body := body\<rparr>"

definition setStatusLine :: "string \<Rightarrow> http_status \<Rightarrow> string \<Rightarrow> http_response \<Rightarrow> http_response" where
  "setStatusLine version code message r =
     r\<lparr>rs_httpVersion := version, rs_statusCode := code, rs_statusMessage := message\<rparr>"

section \<open>Writing it out\<close>

definition CRLF :: string where
  "CRLF = [CHR 0x0D, CHR 0x0A]"

text \<open>\<open>snprintf\<close> into \<open>char buf[64]\<close> keeps at most 63 characters.\<close>

definition snprintf64 :: "string \<Rightarrow> string" where
  "snprintf64 s = take 63 s"

definition append_field :: "string \<times> string \<Rightarrow> buffer \<Rightarrow> buffer" where
  "append_field header output =
     Buffer_append CRLF (Buffer_append (snd header) (Buffer_append '': '' (Buffer_append (fst header) output)))"

definition appendToBuffer :: "http_response \<Rightarrow> buffer \<Rightarrow> buffer" where
  "appendToBuffer r output =
     (let o1 = Buffer_append (snprintf64 (''HTTP/1.1 '' @ show_nat (status_value (rs_statusCode r)) @ '' '')) output;
          o2 = Buffer_append CRLF (Buffer_append (rs_statusMessage r) o1);
          o3 = (if rs_closeConnection r
                then Buffer_append (''Connection: close'' @ CRLF) o2
                else Buffer_append (''Connection: Keep-Alive'' @ CRLF)
                       (Buffer_append (snprintf64 (''Content-Length: '' @ show_nat (length (rs_body r)) @ CRLF)) o2));
          o4 = fold append_field (rs_headers r) o3
      in Buffer_append (rs_body r) (Buffer_append CRLF o4))"

section \<open>What a client sees\<close>

text \<open>
  The bytes of a response as a specification, and a client that reads lines up to the empty one,
  splits each at its first colon and takes what follows as the body.
\<close>

definition field_line :: "string \<times> string \<Rightarrow> string" where
  "field_line h = fst h @ '': '' @ snd h @ CRLF"

definition status_line :: "http_response \<Rightarrow> string" where
  "status_line r = ''HTTP/1.1 '' @ show_nat (status_value (rs_statusCode r)) @ '' '' @ rs_statusMessage r"

definition framing_fields :: "http_response \<Rightarrow> (string \<times> string) list" where
  "framing_fields r =
     (if rs_closeConnection r then [(''Connection'', ''close'')]
      else [(''Content-Length'', show_nat (length (rs_body r))), (''Connection'', ''Keep-Alive'')])"

definition response_bytes :: "http_response \<Rightarrow> string" where
  "response_bytes r =
     status_line r @ CRLF @ concat (map field_line (framing_fields r @ rs_headers r)) @ CRLF @ rs_body r"

definition split_field :: "string \<Rightarrow> string \<times> string" where
  "split_field line =
     (case find_char (CHR '':'') line of
        None \<Rightarrow> (line, [])
      | Some i \<Rightarrow> (take i line, drop (i + 2) line))"

function client_fields :: "string \<Rightarrow> ((string \<times> string) list \<times> string) option" where
  "client_fields s =
     (case find_sub CRLF s of
        None \<Rightarrow> None
      | Some 0 \<Rightarrow> Some ([], drop 2 s)
      | Some (Suc i) \<Rightarrow>
          map_option (apfst (Cons (split_field (take (Suc i) s)))) (client_fields (drop (Suc i + 2) s)))"
  by pat_completeness auto
termination
  by (relation "measure length") (auto dest: find_sub_SomeD)

declare client_fields.simps [simp del]

definition client_read :: "string \<Rightarrow> (string \<times> (string \<times> string) list \<times> string) option" where
  "client_read s =
     (case find_sub CRLF s of
        None \<Rightarrow> None
      | Some i \<Rightarrow> map_option (Pair (take i s)) (client_fields (drop (i + 2) s)))"

text \<open>A field the line format can carry, and an object all of whose parts are such.\<close>

definition field_safe :: "string \<times> string \<Rightarrow> bool" where
  "field_safe h \<longleftrightarrow> CHR '':'' \<notin> set (fst h) \<and> CHR 0x0D \<notin> set (fst h) \<and> CHR 0x0D \<notin> set (snd h)"

definition response_safe :: "http_response \<Rightarrow> bool" where
  "response_safe r \<longleftrightarrow> CHR 0x0D \<notin> set (rs_statusMessage r) \<and> list_all field_safe (rs_headers r)"

definition Response_inv :: "http_response \<Rightarrow> bool" where
  "Response_inv r \<longleftrightarrow> sorted_wrt (<) (map fst (rs_headers r))"

section \<open>Lemmas: setters\<close>

lemmas response_setters = setStatusCode_def setStatusMessage_def setCloseConnection_def
  Response_addHeader_def setContentType_def Response_setBody_def setStatusLine_def

lemma Response_inv_new [wf_intros]: "Response_inv (HttpResponse_new c)"
  by (simp add: Response_inv_def HttpResponse_new_def)

lemma Response_inv_setters [wf_intros]:
  assumes "Response_inv r"
  shows "Response_inv (setStatusCode c r)" and "Response_inv (setStatusMessage m r)"
    and "Response_inv (setCloseConnection b r)" and "Response_inv (Response_addHeader k v r)"
    and "Response_inv (setContentType v r)" and "Response_inv (Response_setBody s r)"
    and "Response_inv (setStatusLine x c m r)"
  using assms by (simp_all add: Response_inv_def response_setters)

lemma Response_addHeader_lookup:
  "Response_inv r \<Longrightarrow> map_of (rs_headers (Response_addHeader k v r)) = (map_of (rs_headers r))(k \<mapsto> v)"
  by (simp add: Response_inv_def Response_addHeader_def)

section \<open>Lemmas: the bytes\<close>

lemma snprintf64_short: "length s \<le> 63 \<Longrightarrow> snprintf64 s = s"
  by (simp add: snprintf64_def)

lemma status_fits: "snprintf64 (''HTTP/1.1 '' @ show_nat (status_value c) @ '' '') = ''HTTP/1.1 '' @ show_nat (status_value c) @ '' ''"
proof -
  have "status_value c < 10 ^ Suc 2" by (cases c) auto
  from length_show_nat [OF this] show ?thesis by (intro snprintf64_short) simp
qed

lemma length_fits:
  assumes "n < 2 ^ 64"
  shows "snprintf64 (''Content-Length: '' @ show_nat n @ CRLF) = ''Content-Length: '' @ show_nat n @ CRLF"
proof -
  have "n < 10 ^ Suc 19" using assms by simp
  from length_show_nat [OF this] show ?thesis by (intro snprintf64_short) (simp add: CRLF_def)
qed

lemma append_field_spec:
  "Buffer_inv b \<Longrightarrow> Buffer_inv (append_field h b) \<and> Buffer_contents (append_field h b) = Buffer_contents b @ field_line h"
  by (simp add: append_field_def field_line_def wf_intros abs_simps)

lemma append_fields_spec:
  "Buffer_inv b \<Longrightarrow> Buffer_inv (fold append_field hs b) \<and>
     Buffer_contents (fold append_field hs b) = Buffer_contents b @ concat (map field_line hs)"
proof (induction hs arbitrary: b)
  case (Cons h hs)
  from Cons.IH [of "append_field h b"] append_field_spec [OF Cons.prems, of h] show ?case by simp
qed simp

lemma appendToBuffer_inv [wf_intros]: "Buffer_inv b \<Longrightarrow> Buffer_inv (appendToBuffer r b)"
  by (simp add: appendToBuffer_def Let_def append_fields_spec wf_intros)

lemma appendToBuffer_contents:
  assumes "Buffer_inv b" and "length (rs_body r) < 2 ^ 64"
  shows "Buffer_contents (appendToBuffer r b) = Buffer_contents b @ response_bytes r"
proof -
  note spec = append_fields_spec wf_intros abs_simps assms(1)
  show ?thesis
    unfolding appendToBuffer_def status_fits length_fits [OF assms(2)]
    by (cases "rs_closeConnection r")
      (simp_all add: Let_def spec response_bytes_def status_line_def framing_fields_def field_line_def)
qed

section \<open>Lemmas: the client\<close>

lemma find_CRLF_line: "CHR 0x0D \<notin> set line \<Longrightarrow> find_sub CRLF (line @ CRLF @ s) = Some (length line)"
  by (induction line) (auto simp: CRLF_def)

lemma client_fields_end: "client_fields (CRLF @ s) = Some ([], s)"
  using find_CRLF_line [of "[]" s] by (subst client_fields.simps) (simp add: CRLF_def)

lemma client_fields_line:
  assumes "CHR 0x0D \<notin> set line" and "line \<noteq> []"
  shows "client_fields (line @ CRLF @ s) = map_option (apfst (Cons (split_field line))) (client_fields s)"
proof -
  from assms(2) obtain n where n: "length line = Suc n" by (cases line) auto
  have "take (Suc n) (line @ CRLF @ s) = line" and "drop (Suc n + 2) (line @ CRLF @ s) = s"
    using n by (simp_all flip: n add: CRLF_def)
  then show ?thesis
    using find_CRLF_line [OF assms(1), of s] n by (subst client_fields.simps) simp
qed

lemma split_field_line: "field_safe h \<Longrightarrow> split_field (fst h @ '': '' @ snd h) = h"
  by (cases h) (simp add: split_field_def field_safe_def)

lemma client_fields_all:
  "list_all field_safe hs \<Longrightarrow> client_fields (concat (map field_line hs) @ CRLF @ body) = Some (hs, body)"
proof (induction hs)
  case Nil
  then show ?case by (simp add: client_fields_end)
next
  case (Cons h hs)
  let ?line = "fst h @ '': '' @ snd h"
  have "CHR 0x0D \<notin> set ?line" and "?line \<noteq> []" using Cons.prems by (auto simp: field_safe_def)
  note step = client_fields_line [OF this, of "concat (map field_line hs) @ CRLF @ body"]
  have split: "split_field ?line = h" using Cons.prems by (intro split_field_line) simp
  have line: "concat (map field_line (h # hs)) @ CRLF @ body = ?line @ CRLF @ concat (map field_line hs) @ CRLF @ body"
    by (simp add: field_line_def)
  have "client_fields (concat (map field_line hs) @ CRLF @ body) = Some (hs, body)"
    using Cons by simp
  then show ?case unfolding line step split by simp
qed

lemma digits_no_CR: "CHR 0x0D \<notin> set (show_nat n)"
  using show_nat_digits [of "CHR 0x0D" n] by (auto simp: isdigit_def)

lemma framing_safe: "list_all field_safe (framing_fields r)"
  by (simp add: framing_fields_def field_safe_def digits_no_CR)

lemma client_read_response:
  assumes "response_safe r"
  shows "client_read (response_bytes r) = Some (status_line r, framing_fields r @ rs_headers r, rs_body r)"
proof -
  have cr: "CHR 0x0D \<notin> set (status_line r)"
    using assms by (auto simp: status_line_def response_safe_def digits_no_CR)
  have fields: "list_all field_safe (framing_fields r @ rs_headers r)"
    using assms framing_safe by (simp add: response_safe_def)
  let ?rest = "concat (map field_line (framing_fields r @ rs_headers r)) @ CRLF @ rs_body r"
  have "drop (length (status_line r) + 2) (status_line r @ CRLF @ ?rest) = ?rest"
    by (simp add: CRLF_def)
  with find_CRLF_line [OF cr, of ?rest] client_fields_all [OF fields, of "rs_body r"]
  show ?thesis by (simp add: client_read_def response_bytes_def)
qed

section \<open>Properties\<close>

text \<open>
  C21. Framing. Appending a response whose status message and header fields hold no line break puts
  exactly one response behind what the buffer held: a client reads back the status line, the
  framing fields (\<open>Connection: close\<close>, or \<open>Content-Length\<close> with the true length of the body), the
  header fields in key order, and the body to its last byte.
\<close>

theorem response_framing:
  assumes "Buffer_inv b" and "length (rs_body r) < 2 ^ 64" and "response_safe r"
  shows "\<exists>bytes. Buffer_contents (appendToBuffer r b) = Buffer_contents b @ bytes \<and>
     client_read bytes = Some (''HTTP/1.1 '' @ show_nat (status_value (rs_statusCode r)) @ '' '' @ rs_statusMessage r,
       (if rs_closeConnection r then [(''Connection'', ''close'')]
        else [(''Content-Length'', show_nat (length (rs_body r))), (''Connection'', ''Keep-Alive'')]) @ rs_headers r,
       rs_body r)"
  using appendToBuffer_contents [OF assms(1,2)] client_read_response [OF assms(3)]
  by (auto simp: status_line_def framing_fields_def)

theorem response_framing_witness:
  "\<exists>bytes. Buffer_contents (appendToBuffer (Response_setBody ''hi'' (setContentType ''text/plain''
       (setStatusMessage ''OK'' (setStatusCode k200Ok (HttpResponse_new True))))) (Buffer_new 16)) = bytes \<and>
     client_read bytes = Some (''HTTP/1.1 '' @ show_nat 200 @ '' '' @ ''OK'',
       [(''Connection'', ''close''), (''Content-Type'', ''text/plain'')], ''hi'')"
proof -
  let ?r = "Response_setBody ''hi'' (setContentType ''text/plain''
       (setStatusMessage ''OK'' (setStatusCode k200Ok (HttpResponse_new True))))"
  from response_framing [of "Buffer_new 16" ?r] show ?thesis
    by (simp add: wf_intros abs_simps response_safe_def field_safe_def response_setters HttpResponse_new_def)
qed

end
