(* ===== verification/Http_Router.thy ===== *)
theory Http_Router
  imports Http_Request Http_Response
begin

text \<open>
  Dispatching a request (\<open>src/net/include/Router.h\<close>, \<open>src/net/src/Router.cpp\<close>,
  \<open>RouterHandler.h\<close>): exact routes to handler objects and callbacks, then dynamic routes in
  registration order. A handler is a function of the request, the response so far and the state
  \<open>'w\<close> of the application behind it; it may throw.

  Dynamic routes use \<open>std::regex\<close>. Of its ECMAScript grammar the theory has what
  \<open>convertToRegex\<close> produces from a path pattern of ordinary characters: a character, the dot, and
  the group \<open>([^/]+)\<close>. For a pattern with another metacharacter \<open>convertToRegex\<close> is \<open>None\<close> here.
\<close>

section \<open>Regular expressions of routes\<close>

datatype rx_item = RxChar char | RxAny | RxSegment

definition rx_special :: "char \<Rightarrow> bool" where
  "rx_special c \<longleftrightarrow> c \<in> set ''^$*+?()[]{}|'' \<or> c = CHR 0x5C"

function convertToRegex :: "string \<Rightarrow> rx_item list option" where
  "convertToRegex [] = Some []"
| "convertToRegex (c # cs) =
     (if c = CHR ''/'' \<and> cs \<noteq> [] \<and> hd cs = CHR '':'' \<and> takeWhile ((\<noteq>) (CHR ''/'')) (tl cs) \<noteq> []
      then map_option (\<lambda>rx. RxChar c # RxSegment # rx) (convertToRegex (dropWhile ((\<noteq>) (CHR ''/'')) (tl cs)))
      else if rx_special c then None
      else map_option (Cons (if c = CHR ''.'' then RxAny else RxChar c)) (convertToRegex cs))"
  by pat_completeness auto
termination
proof (relation "measure length")
  fix c cs
  assume "c = CHR ''/'' \<and> cs \<noteq> [] \<and> hd cs = CHR '':'' \<and> takeWhile ((\<noteq>) (CHR ''/'')) (tl cs) \<noteq> []"
  then show "(dropWhile ((\<noteq>) (CHR ''/'')) (tl cs), c # cs) \<in> measure length"
    by (cases cs) (auto intro: le_less_trans [OF length_dropWhile_le])
qed simp_all

text \<open>
  \<open>std::regex_match\<close> on the whole string, with the groups; \<open>[^/]+\<close> tries the longest run first and
  gives characters back.
\<close>

fun first_some :: "'a option list \<Rightarrow> 'a option" where
  "first_some [] = None"
| "first_some (Some x # xs) = Some x"
| "first_some (None # xs) = first_some xs"

primrec regex_match :: "rx_item list \<Rightarrow> string \<Rightarrow> string list option" where
  "regex_match [] s = (if s = [] then Some [] else None)"
| "regex_match (i # rx) s =
     (case i of
        RxChar a \<Rightarrow> (case s of [] \<Rightarrow> None | c # cs \<Rightarrow> if c = a then regex_match rx cs else None)
      | RxAny \<Rightarrow> (case s of [] \<Rightarrow> None
                 | c # cs \<Rightarrow> if c \<noteq> CHR 0x0A \<and> c \<noteq> CHR 0x0D then regex_match rx cs else None)
      | RxSegment \<Rightarrow>
          first_some (map (\<lambda>k. map_option (Cons (take k s)) (regex_match rx (drop k s)))
            (rev [1..<Suc (length (takeWhile ((\<noteq>) (CHR ''/'')) s))])))"

section \<open>The router\<close>

type_synonym 'w handler = "http_request \<Rightarrow> http_response \<Rightarrow> 'w \<Rightarrow> cpp_error + http_response \<times> 'w"

type_synonym route_key = "http_method \<times> string"

record 'w router =
  rt_handlers :: "route_key \<Rightarrow> 'w handler option"
  rt_callbacks :: "route_key \<Rightarrow> 'w handler option"
  rt_regexHandlers :: "(http_method \<times> rx_item list \<times> 'w handler) list"
  rt_regexCallbacks :: "(http_method \<times> rx_item list \<times> 'w handler) list"

definition Router_new :: "'w router" where
  "Router_new = \<lparr>rt_handlers = Map.empty, rt_callbacks = Map.empty, rt_regexHandlers = [], rt_regexCallbacks = []\<rparr>"

definition registerHandler :: "http_method \<Rightarrow> string \<Rightarrow> 'w handler \<Rightarrow> 'w router \<Rightarrow> 'w router" where
  "registerHandler m path h rt = rt\<lparr>rt_handlers := (rt_handlers rt)((m, path) \<mapsto> h)\<rparr>"

definition registerCallback :: "http_method \<Rightarrow> string \<Rightarrow> 'w handler \<Rightarrow> 'w router \<Rightarrow> 'w router" where
  "registerCallback m path h rt = rt\<lparr>rt_callbacks := (rt_callbacks rt)((m, path) \<mapsto> h)\<rparr>"

definition addRegexHandler :: "http_method \<Rightarrow> string \<Rightarrow> 'w handler \<Rightarrow> 'w router \<Rightarrow> 'w router option" where
  "addRegexHandler m path h rt =
     map_option (\<lambda>rx. rt\<lparr>rt_regexHandlers := rt_regexHandlers rt @ [(m, rx, h)]\<rparr>) (convertToRegex path)"

definition addRegexCallback :: "http_method \<Rightarrow> string \<Rightarrow> 'w handler \<Rightarrow> 'w router \<Rightarrow> 'w router option" where
  "addRegexCallback m path h rt =
     map_option (\<lambda>rx. rt\<lparr>rt_regexCallbacks := rt_regexCallbacks rt @ [(m, rx, h)]\<rparr>) (convertToRegex path)"

text \<open>\<open>extractPathParameters\<close>: group \<open>i\<close> becomes the path parameter \<open>param<i>\<close>.\<close>

fun extract_from :: "nat \<Rightarrow> string list \<Rightarrow> http_request \<Rightarrow> http_request" where
  "extract_from i [] req = req"
| "extract_from i (v # vs) req = extract_from (Suc i) vs (setPathParameter (''param'' @ show_nat i) v req)"

definition extractPathParameters :: "string list \<Rightarrow> http_request \<Rightarrow> http_request" where
  "extractPathParameters groups req = extract_from 1 groups req"

text \<open>The two loops over dynamic routes: the first entry whose method and expression fit.\<close>

fun find_route :: "(http_method \<times> rx_item list \<times> 'w handler) list \<Rightarrow> http_request \<Rightarrow> ('w handler \<times> string list) option" where
  "find_route [] req = None"
| "find_route ((m, rx, h) # rs) req =
     (if m = rq_method req
      then (case regex_match rx (rq_path req) of
              Some groups \<Rightarrow> Some (h, groups)
            | None \<Rightarrow> find_route rs req)
      else find_route rs req)"

definition handled :: "cpp_error + http_response \<times> 'w \<Rightarrow> cpp_error + bool \<times> http_response \<times> 'w" where
  "handled r = map_sum id (Pair True) r"

definition route :: "'w router \<Rightarrow> http_request \<Rightarrow> http_response \<Rightarrow> 'w \<Rightarrow> cpp_error + bool \<times> http_response \<times> 'w" where
  "route rt req resp w =
     (let key = (rq_method req, rq_path req)
      in case rt_handlers rt key of
           Some h \<Rightarrow> handled (h req resp w)
         | None \<Rightarrow>
         (case rt_callbacks rt key of
            Some cb \<Rightarrow> handled (cb req resp w)
          | None \<Rightarrow>
          (case find_route (rt_regexHandlers rt) req of
             Some (h, groups) \<Rightarrow>
               (let newReq = extractPathParameters groups req in handled (h newReq resp w))
           | None \<Rightarrow>
           (case find_route (rt_regexCallbacks rt) req of
              Some (cb, groups) \<Rightarrow>
                (let newReq = extractPathParameters groups req in handled (cb req resp w))
            | None \<Rightarrow> Inr (False, resp, w)))))"

section \<open>Path templates\<close>

text \<open>A pattern segment by segment, and the path it describes with the parameters filled in.\<close>

datatype path_seg = Literal string | Param string

fun seg_pattern :: "path_seg list \<Rightarrow> string" where
  "seg_pattern [] = []"
| "seg_pattern (Literal s # segs) = CHR ''/'' # s @ seg_pattern segs"
| "seg_pattern (Param n # segs) = CHR ''/'' # CHR '':'' # n @ seg_pattern segs"

fun seg_fill :: "path_seg list \<Rightarrow> string list \<Rightarrow> string option" where
  "seg_fill [] vs = (if vs = [] then Some [] else None)"
| "seg_fill (Literal s # segs) vs = map_option (\<lambda>r. CHR ''/'' # s @ r) (seg_fill segs vs)"
| "seg_fill (Param n # segs) [] = None"
| "seg_fill (Param n # segs) (v # vs) = map_option (\<lambda>r. CHR ''/'' # v @ r) (seg_fill segs vs)"

definition no_slash :: "string \<Rightarrow> bool" where
  "no_slash s \<longleftrightarrow> s \<noteq> [] \<and> CHR ''/'' \<notin> set s"

fun seg_safe :: "path_seg \<Rightarrow> bool" where
  "seg_safe (Literal s) \<longleftrightarrow> no_slash s \<and> hd s \<noteq> CHR '':'' \<and> CHR ''.'' \<notin> set s \<and> list_all (\<lambda>c. \<not> rx_special c) s"
| "seg_safe (Param n) \<longleftrightarrow> no_slash n"

fun seg_rx :: "path_seg \<Rightarrow> rx_item list" where
  "seg_rx (Literal s) = RxChar (CHR ''/'') # map RxChar s"
| "seg_rx (Param n) = [RxChar (CHR ''/''), RxSegment]"

section \<open>Lemmas: conversion\<close>

lemma seg_pattern_start: "seg_pattern segs = [] \<or> (\<exists>r. seg_pattern segs = CHR ''/'' # r)"
  by (cases segs rule: seg_pattern.cases) auto

lemma no_slash_takeWhile:
  assumes "CHR ''/'' \<notin> set s" and "t = [] \<or> (\<exists>r. t = CHR ''/'' # r)"
  shows "takeWhile ((\<noteq>) (CHR ''/'')) (s @ t) = s" and "dropWhile ((\<noteq>) (CHR ''/'')) (s @ t) = t"
  using assms by (induction s) auto

lemma convert_chars:
  "CHR ''/'' \<notin> set s \<Longrightarrow> CHR ''.'' \<notin> set s \<Longrightarrow> list_all (\<lambda>c. \<not> rx_special c) s \<Longrightarrow>
     convertToRegex (s @ t) = map_option ((@) (map RxChar s)) (convertToRegex t)"
  by (induction s) (cases "convertToRegex t"; auto)+

lemma convert_template:
  "list_all seg_safe segs \<Longrightarrow> convertToRegex (seg_pattern segs) = Some (concat (map seg_rx segs))"
proof (induction segs)
  case (Cons seg segs)
  note rest = seg_pattern_start [of segs]
  show ?case
  proof (cases seg)
    case (Literal s)
    with Cons.prems obtain c cs where s: "s = c # cs" by (cases s) (auto simp: no_slash_def)
    have "\<not> rx_special (CHR ''/'')" by (simp add: rx_special_def)
    with Cons Literal s convert_chars [of s "seg_pattern segs"] show ?thesis
      by (simp del: convertToRegex.simps(2) add: convertToRegex.simps(2) [of "CHR ''/''"] no_slash_def)
  next
    case (Param n)
    with Cons no_slash_takeWhile [OF _ rest, of n] show ?thesis by (simp add: no_slash_def)
  qed
qed simp

section \<open>Lemmas: matching\<close>

lemma first_some_None: "list_all (\<lambda>x. x = None) xs \<Longrightarrow> first_some xs = None"
  by (induction xs rule: first_some.induct) auto

lemma match_chars:
  "regex_match (map RxChar a @ rx) s = (if starts_with a s then regex_match rx (drop (length a) s) else None)"
proof (induction a arbitrary: s)
  case (Cons c a)
  then show ?case by (cases s) auto
qed simp

text \<open>In front of a slash or the end, only the longest run can succeed.\<close>

lemma match_segment:
  assumes "rx = [] \<or> (\<exists>r. rx = RxChar (CHR ''/'') # r)"
  defines "seg s \<equiv> takeWhile ((\<noteq>) (CHR ''/'')) s"
  shows "regex_match (RxSegment # rx) s =
     (if seg s = [] then None else map_option (Cons (seg s)) (regex_match rx (drop (length (seg s)) s)))"
proof -
  have short: "regex_match rx (drop k s) = None" if k: "k < length (seg s)" for k
  proof -
    from k have "k < length s" by (simp add: seg_def) (meson length_takeWhile_le less_le_trans)
    moreover from k have "s ! k \<noteq> CHR ''/''" unfolding seg_def
      by (metis (mono_tags) nth_mem set_takeWhileD takeWhile_nth)
    ultimately show ?thesis using assms(1) by (auto simp flip: Cons_nth_drop_Suc)
  qed
  then have "list_all (\<lambda>x. x = None) (map (\<lambda>k. map_option (Cons (take k s)) (regex_match rx (drop k s)))
      (rev [1..<length (seg s)]))"
    by (auto simp: list_all_iff)
  from first_some_None [OF this] have none: "first_some (map (\<lambda>k. map_option (Cons (take k s))
      (regex_match rx (drop k s))) (rev [1..<length (seg s)])) = None" .
  have "take (length (seg s)) s = seg s" unfolding seg_def by (rule takeWhile_eq_take [symmetric])
  with none show ?thesis
    by (cases "seg s = []"; cases "regex_match rx (drop (length (seg s)) s)")
      (simp_all add: seg_def [symmetric] Suc_le_eq)
qed

lemma segs_rx_start: "concat (map seg_rx segs) = [] \<or> (\<exists>r. concat (map seg_rx segs) = RxChar (CHR ''/'') # r)"
proof (cases segs)
  case (Cons seg segs')
  then show ?thesis by (cases seg) auto
qed simp

lemma seg_fill_start: "seg_fill segs vs = Some p \<Longrightarrow> p = [] \<or> (\<exists>r. p = CHR ''/'' # r)"
  by (cases "(segs, vs)" rule: seg_fill.cases) (auto split: if_splits)

text \<open>A parameter takes exactly the run of characters up to the next slash.\<close>

lemma fill_param_iff:
  fixes r :: string
  defines "v \<equiv> takeWhile ((\<noteq>) (CHR ''/'')) r"
  shows "seg_fill (Param n # segs) vs = Some (CHR ''/'' # r) \<and> list_all no_slash vs \<longleftrightarrow>
     (\<exists>vs'. vs = v # vs' \<and> v \<noteq> [] \<and> seg_fill segs vs' = Some (drop (length v) r) \<and> list_all no_slash vs')"
    (is "?lhs \<longleftrightarrow> ?rhs")
proof
  assume ?lhs
  then obtain u us rest where vs: "vs = u # us" and u: "no_slash u" and us: "list_all no_slash us"
      and rest: "seg_fill segs us = Some rest" and r: "r = u @ rest"
    by (cases vs) auto
  have "v = u"
    unfolding v_def r using u by (intro no_slash_takeWhile(1) [OF _ seg_fill_start [OF rest]]) (simp add: no_slash_def)
  with vs u us rest r show ?rhs by (auto simp: no_slash_def)
next
  assume ?rhs
  moreover have "r = v @ drop (length v) r" and "CHR ''/'' \<notin> set v"
    unfolding v_def by (metis append_eq_conv_conj takeWhile_dropWhile_id) (auto dest: set_takeWhileD)
  ultimately show ?lhs by (auto simp: no_slash_def)
qed

lemma match_template:
  "regex_match (concat (map seg_rx segs)) path = Some vs \<longleftrightarrow> seg_fill segs vs = Some path \<and> list_all no_slash vs"
proof (induction segs arbitrary: path vs)
  case Nil
  then show ?case by auto
next
  case (Cons seg segs)
  show ?case
  proof (cases seg)
    case (Literal s)
    with Cons.IH show ?thesis
      using match_chars [of "CHR ''/'' # s"] by (auto simp: starts_with_iff)
  next
    case (Param n)
    let ?slash = "CHR ''/''"
    note seg = match_segment [OF segs_rx_start [of segs]]
    show ?thesis
    proof (cases "\<exists>r. path = ?slash # r")
      case True
      then obtain r where r: "path = ?slash # r" by auto
      have "regex_match (concat (map seg_rx (seg # segs))) path = Some vs \<longleftrightarrow>
          (\<exists>vs'. vs = takeWhile ((\<noteq>) ?slash) r # vs' \<and> takeWhile ((\<noteq>) ?slash) r \<noteq> [] \<and>
            seg_fill segs vs' = Some (drop (length (takeWhile ((\<noteq>) ?slash) r)) r) \<and> list_all no_slash vs')"
        using Param r seg [of r] Cons.IH by auto
      then show ?thesis using fill_param_iff [of n segs vs r] Param r by simp
    next
      case False
      then show ?thesis using Param by (cases vs) (auto split: list.splits)
    qed
  qed
qed

section \<open>Lemmas: path parameters\<close>

lemma get_set_path_parameter:
  "getPathParameter k (setPathParameter k' v req) = (if k = k' then v else getPathParameter k req)"
  by (simp add: getPathParameter_def setPathParameter_def)

lemma extract_from_other:
  "j < i \<Longrightarrow> getPathParameter (''param'' @ show_nat j) (extract_from i vs req) = getPathParameter (''param'' @ show_nat j) req"
proof (induction i vs req rule: extract_from.induct)
  case (2 i v vs req)
  then have "show_nat j \<noteq> show_nat i" by (metis digits_val_show_nat nat_neq_iff)
  with 2 show ?case by (simp add: get_set_path_parameter)
qed simp

lemma extract_from_nth:
  "k < length vs \<Longrightarrow> getPathParameter (''param'' @ show_nat (i + k)) (extract_from i vs req) = vs ! k"
proof (induction i vs req arbitrary: k rule: extract_from.induct)
  case (2 i v vs req)
  then show ?case
    by (cases k) (simp_all add: extract_from_other get_set_path_parameter del: append.simps)
qed simp

section \<open>Properties\<close>



text \<open>
  C26. What a dynamic handler is given. When no exact route and no earlier dynamic handler fits,
  a request for the filled-in pattern reaches the handler registered for it, once, with the
  \<open>k\<close>-th group under the name \<open>param<k>\<close> and the rest of the request unchanged; a dynamic
  callback with the same pattern gets the request without any parameter.
\<close>

theorem dynamic_dispatch:
  assumes "list_all seg_safe segs" and "seg_fill segs vs = Some (rq_path req)" and "list_all no_slash vs"
    and "rt_handlers rt (rq_method req, rq_path req) = None"
    and "rt_callbacks rt (rq_method req, rq_path req) = None"
    and "find_route (rt_regexHandlers rt) req = None"
    and "find_route (rt_regexCallbacks rt) req = None"
    and "addRegexHandler (rq_method req) (seg_pattern segs) h rt = Some rth"
    and "addRegexCallback (rq_method req) (seg_pattern segs) h rt = Some rtc"
  shows "(\<exists>newReq. route rth req resp w = handled (h newReq resp w) \<and>
           (\<forall>k<length vs. getPathParameter (''param'' @ show_nat (Suc k)) newReq = vs ! k) \<and>
           newReq\<lparr>rq_pathParameters := rq_pathParameters req\<rparr> = req) \<and>
         route rtc req resp w = handled (h req resp w)"
proof -
  note conv = convert_template [OF assms(1)]
  have rx: "regex_match (concat (map seg_rx segs)) (rq_path req) = Some vs"
    using assms(2,3) match_template by blast
  have app: "find_route (rs @ [(rq_method req, concat (map seg_rx segs), h)]) req = Some (h, vs)"
    if "find_route rs req = None" for rs
    using that rx by (induction rs) (auto split: if_splits option.splits)
  have same: "(extract_from i vs q)\<lparr>rq_pathParameters := p\<rparr> = q\<lparr>rq_pathParameters := p\<rparr>" for i q p
    by (induction i vs q rule: extract_from.induct) (simp_all add: setPathParameter_def)
  have "route rth req resp w = handled (h (extractPathParameters vs req) resp w)"
    using assms(4,5,8) conv app [OF assms(6)] by (auto simp: route_def addRegexHandler_def Let_def)
  moreover have "\<forall>k<length vs. getPathParameter (''param'' @ show_nat (Suc k)) (extractPathParameters vs req) = vs ! k"
    unfolding extractPathParameters_def using extract_from_nth [of _ vs 1 req] by (metis plus_1_eq_Suc)
  moreover have "(extractPathParameters vs req)\<lparr>rq_pathParameters := rq_pathParameters req\<rparr> = req"
    by (simp add: extractPathParameters_def same)
  moreover have "route rtc req resp w = handled (h req resp w)"
    using assms(4-6,9) conv app [OF assms(7)] by (auto simp: route_def addRegexCallback_def Let_def)
  ultimately show ?thesis by blast
qed

theorem dynamic_dispatch_witness:
  "\<exists>rt. addRegexHandler kGet ''/orders/:id'' (\<lambda>q r w. Inr (r, getPathParameter ''param1'' q # w)) Router_new = Some rt \<and>
     route rt (HttpRequest_new\<lparr>rq_method := kGet, rq_path := ''/orders/42''\<rparr>) (HttpResponse_new False) []
       = Inr (True, HttpResponse_new False, [''42''])"
proof -
  let ?h = "\<lambda>q r w. Inr (r, getPathParameter ''param1'' q # w)"
  let ?req = "HttpRequest_new\<lparr>rq_method := kGet, rq_path := ''/orders/42''\<rparr>"
  let ?segs = "[Literal ''orders'', Param ''id'']"
  have segs: "list_all seg_safe ?segs" by (simp add: no_slash_def rx_special_def)
  note conv = convert_template [OF segs]
  obtain rth where rth: "addRegexHandler (rq_method ?req) (seg_pattern ?segs) ?h Router_new = Some rth"
    using conv unfolding addRegexHandler_def by blast
  obtain rtc where rtc: "addRegexCallback (rq_method ?req) (seg_pattern ?segs) ?h Router_new = Some rtc"
    using conv unfolding addRegexCallback_def by blast
  have one: "''param'' @ show_nat (Suc 0) = ''param1''" by code_simp
  from dynamic_dispatch [OF segs _ _ _ _ _ _ rth rtc, of "[''42'']" "HttpResponse_new False" "[]"] obtain newReq
    where "route rth ?req (HttpResponse_new False) [] = handled (?h newReq (HttpResponse_new False) [])"
      and "getPathParameter ''param1'' newReq = ''42''"
    by (simp add: no_slash_def Router_new_def one del: append.simps) (auto simp: one)
  with rth show ?thesis by (auto simp: handled_def)
qed

end
