(* ===== verification/Http_Session.thy ===== *)
theory Http_Session
  imports Http_Request Http_Response
begin

text \<open>
  Sessions (\<open>src/net/include/Session.h\<close>, \<open>SessionStorage.h\<close>, \<open>SessionManager.h\<close> and their
  sources): session objects shared by pointer, the in-memory storage, and the manager that finds
  the session of a request through its cookie or opens a new one. A pointer is a key of the
  object store \<open>sw_heap\<close>, so that a holder and the storage see the same object. The readings of
  \<open>system_clock\<close> and the outcome of \<open>RAND_bytes\<close> are arguments; time counts nanoseconds.
\<close>

section \<open>Objects and storage\<close>

record session =
  se_id :: string
  se_data :: "string \<Rightarrow> string option"
  se_expiry :: int
  se_maxAge :: int
  se_manager :: bool

text \<open>\<open>se_manager\<close> tells whether \<open>manager_.lock()\<close> succeeds.\<close>

record session_world =
  sw_heap :: "nat \<Rightarrow> session option"
  sw_next :: nat
  sw_sessions :: "string \<Rightarrow> nat option"

definition seconds :: "int \<Rightarrow> int" where
  "seconds n = n * 1000000000"

definition Session_refresh :: "int \<Rightarrow> session \<Rightarrow> session" where
  "Session_refresh now s = s\<lparr>se_expiry := now + seconds (se_maxAge s)\<rparr>"

definition Session_new :: "string \<Rightarrow> bool \<Rightarrow> int \<Rightarrow> int \<Rightarrow> session" where
  "Session_new sessionId manager age now =
     Session_refresh now \<lparr>se_id = sessionId, se_data = Map.empty, se_expiry = 0, se_maxAge = age, se_manager = manager\<rparr>"

definition isExpired :: "int \<Rightarrow> session \<Rightarrow> bool" where
  "isExpired now s \<longleftrightarrow> se_expiry s < now"

text \<open>\<open>MemorySessionStorage\<close>.\<close>

definition Storage_save :: "string \<Rightarrow> nat \<Rightarrow> session_world \<Rightarrow> session_world" where
  "Storage_save sid ref w = w\<lparr>sw_sessions := (sw_sessions w)(sid \<mapsto> ref)\<rparr>"

definition Storage_load :: "session_world \<Rightarrow> string \<Rightarrow> nat option" where
  "Storage_load w sid = sw_sessions w sid"

definition Storage_remove :: "string \<Rightarrow> session_world \<Rightarrow> session_world" where
  "Storage_remove sid w = w\<lparr>sw_sessions := (sw_sessions w)(sid := None)\<rparr>"

definition clearExpired :: "int \<Rightarrow> session_world \<Rightarrow> session_world" where
  "clearExpired now w =
     w\<lparr>sw_sessions := (\<lambda>sid.
         case sw_sessions w sid of
           None \<Rightarrow> None
         | Some ref \<Rightarrow> (case sw_heap w ref of
                         Some s \<Rightarrow> if isExpired now s then None else Some ref
                       | None \<Rightarrow> Some ref))\<rparr>"

text \<open>Members of \<open>Session\<close> through a pointer. \<open>updateSession\<close> saves the same pointer again.\<close>

definition on_session :: "nat \<Rightarrow> (session \<Rightarrow> session) \<Rightarrow> session_world \<Rightarrow> session_world" where
  "on_session ref f w = w\<lparr>sw_heap := (sw_heap w)(ref := map_option f (sw_heap w ref))\<rparr>"

definition updateSession :: "nat \<Rightarrow> session_world \<Rightarrow> session_world" where
  "updateSession ref w =
     (case sw_heap w ref of Some s \<Rightarrow> Storage_save (se_id s) ref w | None \<Rightarrow> w)"

text \<open>\<open>if (auto mgr = manager_.lock()) mgr->updateSession(shared_from_this())\<close>.\<close>

definition notify_manager :: "nat \<Rightarrow> session_world \<Rightarrow> session_world" where
  "notify_manager ref w =
     (case sw_heap w ref of
        Some s \<Rightarrow> if se_manager s then updateSession ref w else w
      | None \<Rightarrow> w)"

definition Session_setValue :: "nat \<Rightarrow> string \<Rightarrow> string \<Rightarrow> session_world \<Rightarrow> session_world" where
  "Session_setValue ref key value w =
     notify_manager ref (on_session ref (\<lambda>s. s\<lparr>se_data := (se_data s)(key \<mapsto> value)\<rparr>) w)"

definition Session_getValue :: "nat \<Rightarrow> string \<Rightarrow> session_world \<Rightarrow> string" where
  "Session_getValue ref key w =
     (case sw_heap w ref of
        Some s \<Rightarrow> (case se_data s key of Some v \<Rightarrow> v | None \<Rightarrow> [])
      | None \<Rightarrow> [])"

definition Session_remove :: "nat \<Rightarrow> string \<Rightarrow> session_world \<Rightarrow> session_world" where
  "Session_remove ref key w =
     notify_manager ref (on_session ref (\<lambda>s. s\<lparr>se_data := (se_data s)(key := None)\<rparr>) w)"

definition Session_clear :: "nat \<Rightarrow> session_world \<Rightarrow> session_world" where
  "Session_clear ref w = notify_manager ref (on_session ref (\<lambda>s. s\<lparr>se_data := Map.empty\<rparr>) w)"

section \<open>The manager\<close>

definition hex_digit :: "nat \<Rightarrow> char" where
  "hex_digit d = (if d < 10 then digit_char d else char_of (87 + d))"

definition hex_byte :: "8 word \<Rightarrow> string" where
  "hex_byte b = [hex_digit (unat b div 16), hex_digit (unat b mod 16)]"

fun show_hex :: "nat \<Rightarrow> string" where
  "show_hex n = (if n < 16 then [hex_digit n] else show_hex (n div 16) @ [hex_digit (n mod 16)])"

declare show_hex.simps [simp del]

text \<open>
  What the random sources deliver: sixteen bytes of \<open>RAND_bytes\<close>, or after its failure two draws
  of the 64-bit generator.
\<close>

datatype random_draw = RandBytes "8 word list" | RngDraws "64 word" "64 word"

definition generateSessionId :: "random_draw \<Rightarrow> string" where
  "generateSessionId r =
     (case r of
        RandBytes bytes \<Rightarrow> concat (map hex_byte bytes)
      | RngDraws a b \<Rightarrow> show_hex (unat a) @ show_hex (unat b))"

definition cookie_prefix :: string where
  "cookie_prefix = ''SESSIONID=''"

definition getSessionIdFromCookie :: "http_request \<Rightarrow> string" where
  "getSessionIdFromCookie req =
     (let cookieHeader = getHeader ''Cookie'' req
      in if cookieHeader = [] then []
         else case find_sub cookie_prefix cookieHeader of
                None \<Rightarrow> []
              | Some pos0 \<Rightarrow>
                  (let pos = pos0 + length cookie_prefix;
                       end = (case find_char (CHR '';'') (drop pos cookieHeader) of
                                None \<Rightarrow> length cookieHeader
                              | Some i \<Rightarrow> pos + i)
                   in take (end - pos) (drop pos cookieHeader)))"

definition setSessionCookie :: "string \<Rightarrow> http_response \<Rightarrow> http_response" where
  "setSessionCookie sessionId resp =
     Response_addHeader ''Set-Cookie''
       (''SESSIONID='' @ sessionId @ ''; Path=/; HttpOnly; SameSite=Lax; Max-Age=3600'') resp"

text \<open>
  \<open>getSession\<close>: \<open>t1\<close> is the clock when the expiry is tested, \<open>t2\<close> when the session is created or
  refreshed; \<open>mgr\<close> tells whether \<open>weak_from_this()\<close> names a live manager.
\<close>

definition getSession ::
    "bool \<Rightarrow> int \<Rightarrow> int \<Rightarrow> random_draw \<Rightarrow> http_request \<Rightarrow> http_response \<Rightarrow> session_world
       \<Rightarrow> nat \<times> http_response \<times> session_world" where
  "getSession mgr t1 t2 rnd req resp w =
     (let sid = getSessionIdFromCookie req;
          found = (case Storage_load w sid of
                     None \<Rightarrow> None
                   | Some ref \<Rightarrow> (case sw_heap w ref of
                                   Some s \<Rightarrow> if isExpired t1 s then None else Some (ref, s)
                                 | None \<Rightarrow> None))
      in case found of
           None \<Rightarrow>
             (let newId = generateSessionId rnd;
                  ref = sw_next w;
                  w1 = w\<lparr>sw_heap := (sw_heap w)(ref \<mapsto> Session_new newId mgr 3600 t2), sw_next := Suc ref\<rparr>
              in (ref, setSessionCookie newId resp, Storage_save newId ref w1))
         | Some (ref, s) \<Rightarrow>
             (let w1 = on_session ref (Session_refresh t2) w
              in (ref, resp, Storage_save (se_id s) ref w1)))"

definition destroySession :: "string \<Rightarrow> session_world \<Rightarrow> session_world" where
  "destroySession sessionId w = Storage_remove sessionId w"

definition cleanExpiredSessions :: "int \<Rightarrow> session_world \<Rightarrow> session_world" where
  "cleanExpiredSessions now w = clearExpired now w"

section \<open>Invariant\<close>

definition Session_inv :: "session_world \<Rightarrow> bool" where
  "Session_inv w \<longleftrightarrow>
     (\<forall>sid ref. sw_sessions w sid = Some ref \<longrightarrow> (\<exists>s. sw_heap w ref = Some s \<and> se_id s = sid)) \<and>
     (\<forall>ref. sw_heap w ref \<noteq> None \<longrightarrow> ref < sw_next w)"

definition Session_world_new :: session_world where
  "Session_world_new = \<lparr>sw_heap = Map.empty, sw_next = 0, sw_sessions = Map.empty\<rparr>"

interpretation memst: kv_store "\<lambda>_. True" Storage_load Storage_save Storage_remove
  by unfold_locales (auto simp: Storage_load_def Storage_save_def Storage_remove_def)

lemma Session_refresh_simps [simp]:
  "se_id (Session_refresh t s) = se_id s" "se_data (Session_refresh t s) = se_data s"
  "se_maxAge (Session_refresh t s) = se_maxAge s" "se_manager (Session_refresh t s) = se_manager s"
  "se_expiry (Session_refresh t s) = t + seconds (se_maxAge s)"
  by (simp_all add: Session_refresh_def)

lemma Session_new_simps [simp]:
  "se_id (Session_new i m a t) = i" "se_data (Session_new i m a t) = Map.empty"
  "se_expiry (Session_new i m a t) = t + seconds a"
  by (simp_all add: Session_new_def)

lemma Session_inv_new [wf_intros]: "Session_inv Session_world_new"
  by (simp add: Session_inv_def Session_world_new_def)

lemma on_session_inv [wf_intros]:
  "Session_inv w \<Longrightarrow> (\<And>s. se_id (f s) = se_id s) \<Longrightarrow> Session_inv (on_session ref f w)"
  by (auto simp: Session_inv_def on_session_def split: if_splits) metis

lemma Storage_save_inv:
  "Session_inv w \<Longrightarrow> sw_heap w ref = Some s \<Longrightarrow> se_id s = sid \<Longrightarrow> Session_inv (Storage_save sid ref w)"
  by (auto simp: Session_inv_def Storage_save_def)

lemma updateSession_inv [wf_intros]: "Session_inv w \<Longrightarrow> Session_inv (updateSession ref w)"
  by (auto simp: updateSession_def intro: Storage_save_inv split: option.splits)

lemma notify_manager_inv [wf_intros]: "Session_inv w \<Longrightarrow> Session_inv (notify_manager ref w)"
  by (auto simp: notify_manager_def wf_intros split: option.splits)

lemma Session_ops_inv [wf_intros]:
  assumes "Session_inv w"
  shows "Session_inv (Session_setValue ref k v w)" and "Session_inv (Session_remove ref k w)"
    and "Session_inv (Session_clear ref w)" and "Session_inv (destroySession sid w)"
    and "Session_inv (cleanExpiredSessions now w)"
  using assms
  by (simp_all add: Session_setValue_def Session_remove_def Session_clear_def wf_intros)
    (auto simp: Session_inv_def destroySession_def Storage_remove_def cleanExpiredSessions_def clearExpired_def
      split: option.splits if_splits)

section \<open>Lemmas: finding the session\<close>

text \<open>Which session a request names, if it is known and alive.\<close>

definition live_session :: "int \<Rightarrow> http_request \<Rightarrow> session_world \<Rightarrow> nat option" where
  "live_session now req w =
     (case sw_sessions w (getSessionIdFromCookie req) of
        None \<Rightarrow> None
      | Some ref \<Rightarrow> (case sw_heap w ref of
                      Some s \<Rightarrow> if isExpired now s then None else Some ref
                    | None \<Rightarrow> None))"

lemma getSession_live:
  assumes "Session_inv w" and "live_session t1 req w = Some ref"
  shows "getSession mgr t1 t2 rnd req resp w =
     (ref, resp, w\<lparr>sw_heap := (sw_heap w)(ref := map_option (Session_refresh t2) (sw_heap w ref))\<rparr>)"
proof -
  let ?sid = "getSessionIdFromCookie req"
  from assms obtain s where "sw_sessions w ?sid = Some ref" and "sw_heap w ref = Some s" and "\<not> isExpired t1 s"
    by (auto simp: live_session_def split: option.splits if_splits)
  moreover from this have "se_id s = ?sid" using assms(1) by (fastforce simp: Session_inv_def)
  moreover from calculation have "(sw_sessions w)(?sid \<mapsto> ref) = sw_sessions w" by auto
  ultimately show ?thesis
    by (simp add: getSession_def Let_def Storage_load_def Storage_save_def on_session_def)
qed

lemma getSession_fresh:
  assumes "live_session t1 req w = None"
  shows "getSession mgr t1 t2 rnd req resp w =
     (sw_next w, setSessionCookie (generateSessionId rnd) resp,
      \<lparr>sw_heap = (sw_heap w)(sw_next w \<mapsto> Session_new (generateSessionId rnd) mgr 3600 t2), sw_next = Suc (sw_next w),
       sw_sessions = (sw_sessions w)(generateSessionId rnd \<mapsto> sw_next w)\<rparr>)"
  using assms by (auto simp: live_session_def getSession_def Let_def Storage_load_def Storage_save_def
      split: option.splits if_splits)

lemma getSession_inv [wf_intros]:
  assumes "Session_inv w"
  shows "Session_inv (snd (snd (getSession mgr t1 t2 rnd req resp w)))"
proof (cases "live_session t1 req w")
  case None
  with assms show ?thesis by (auto simp: getSession_fresh Session_inv_def less_Suc_eq)
next
  case (Some ref)
  from getSession_live [OF assms Some] on_session_inv [OF assms, of "Session_refresh t2" ref] show ?thesis
    by (simp add: on_session_def)
qed

section \<open>Lemmas: identifiers and cookies\<close>

lemma of_char_hex_digit: "d < 16 \<Longrightarrow> of_char (hex_digit d) = (if d < 10 then 48 + d else 87 + d)"
  by (simp add: hex_digit_def digit_char_def of_char_of)

lemma hex_digit_inj:
  assumes "a < 16" and "b < 16" and "hex_digit a = hex_digit b"
  shows "a = b"
proof -
  have "(if a < 10 then 48 + a else 87 + a) = (if b < 10 then 48 + b else 87 + b)"
    by (simp only: of_char_hex_digit [OF assms(1), symmetric] of_char_hex_digit [OF assms(2), symmetric] assms(3))
  then show ?thesis using assms(1,2) by presburger
qed

lemma high_nibble: "unat (b :: 8 word) div 16 < 16"
  using unsigned_less [of b, where 'a = nat] by simp

lemma hex_byte_inj: "hex_byte a = hex_byte b \<Longrightarrow> a = b"
proof -
  assume "hex_byte a = hex_byte b"
  moreover have "unat a div 16 < 16" "unat b div 16 < 16"
    by (rule high_nibble)+
  ultimately have "unat a div 16 = unat b div 16" and "unat a mod 16 = unat b mod 16"
    by (auto simp: hex_byte_def intro: hex_digit_inj)
  then have "unat a = unat b" by (metis div_mult_mod_eq)
  then show "a = b" by (simp add: word_unat_eq_iff)
qed

lemma length_hex_byte: "length (hex_byte b) = 2"
  by (simp add: hex_byte_def)

lemma hex_bytes_inj: "concat (map hex_byte xs) = concat (map hex_byte ys) \<Longrightarrow> xs = ys"
proof (induction xs arbitrary: ys)
  case Nil
  then show ?case by (cases ys) (auto simp: hex_byte_def)
next
  case (Cons x xs)
  then obtain y ys' where ys: "ys = y # ys'" by (cases ys) (auto simp: hex_byte_def)
  with Cons.prems have "hex_byte x = hex_byte y" and "concat (map hex_byte xs) = concat (map hex_byte ys')"
    by (simp_all add: append_eq_append_conv [of "hex_byte x" "hex_byte y"] length_hex_byte)
  with Cons.IH hex_byte_inj ys show ?case by blast
qed

lemma hex_digit_no_semicolon: "d < 16 \<Longrightarrow> hex_digit d \<noteq> CHR '';''"
proof
  assume "d < 16" and "hex_digit d = CHR '';''"
  then have "of_char (CHR '';'') = (if d < 10 then 48 + d else 87 + d)" by (metis of_char_hex_digit)
  with \<open>d < 16\<close> show False by (auto split: if_splits)
qed

lemma show_hex_no_semicolon: "CHR '';'' \<notin> set (show_hex n)"
proof (induction n rule: show_hex.induct)
  case (1 n)
  then show ?case
    using hex_digit_no_semicolon [of n] hex_digit_no_semicolon [of "n mod 16"]
    by (subst show_hex.simps) auto
qed

lemma sessionId_no_semicolon: "CHR '';'' \<notin> set (generateSessionId rnd)"
proof (cases rnd)
  case (RandBytes bytes)
  have "CHR '';'' \<notin> set (hex_byte b)" for b
    using hex_digit_no_semicolon [of "unat b div 16"] hex_digit_no_semicolon [of "unat b mod 16"] high_nibble [of b]
    by (auto simp: hex_byte_def)
  with RandBytes show ?thesis by (auto simp: generateSessionId_def)
qed (simp add: generateSessionId_def show_hex_no_semicolon)

text \<open>A cookie header with other cookies before and after the session's.\<close>

lemma cookie_found:
  assumes "getHeader ''Cookie'' req = before @ cookie_prefix @ sid @ after"
    and "find_sub cookie_prefix (before @ cookie_prefix @ sid @ after) = Some (length before)"
    and "CHR '';'' \<notin> set sid" and "after = [] \<or> (\<exists>r. after = CHR '';'' # r)"
  shows "getSessionIdFromCookie req = sid"
proof -
  let ?pos = "length before + length cookie_prefix"
  have "drop ?pos (before @ cookie_prefix @ sid @ after) = sid @ after" by simp
  with assms show ?thesis
    by (auto simp: getSessionIdFromCookie_def Let_def cookie_prefix_def)
qed

lemma find_sub_here: "p \<noteq> [] \<Longrightarrow> find_sub p (p @ s) = Some 0"
  by (cases p) (auto simp: starts_with_iff)

section \<open>Properties\<close>



text \<open>
  Identifiers. Two draws of \<open>RAND_bytes\<close> give the same session identifier only if they are
  the same bytes. The fallback is not injective: it prints its two numbers without padding.
\<close>

theorem session_id_injective:
  "(generateSessionId (RandBytes a) = generateSessionId (RandBytes b) \<longleftrightarrow> a = b) \<and>
   (\<exists>p q p' q'. (p, q) \<noteq> (p', q') \<and> generateSessionId (RngDraws p q) = generateSessionId (RngDraws p' q'))"
proof (rule conjI)
  show "generateSessionId (RandBytes a) = generateSessionId (RandBytes b) \<longleftrightarrow> a = b"
    using hex_bytes_inj [of a b] by (auto simp: generateSessionId_def)
  have "generateSessionId (RngDraws 1 0x11) = generateSessionId (RngDraws 0x11 1)"
    by (simp add: generateSessionId_def show_hex.simps)
  moreover have "(1 :: 64 word, 0x11 :: 64 word) \<noteq> (0x11, 1)" by simp
  ultimately show "\<exists>p q p' q'. (p, q) \<noteq> (p', q') \<and> generateSessionId (RngDraws p q) = generateSessionId (RngDraws p' q')"
    by blast
qed

end
