(* ===== verification/Channel_Poller.thy ===== *)
theory Channel_Poller
  imports Prelude
begin

unbundle bit_operations_syntax

text \<open>
  Channels and the poller (\<open>src/core/include/Channel.h\<close>, \<open>src/core/src/Channel.cpp\<close>,
  \<open>Poller.h\<close>, \<open>Poller.cpp\<close>, \<open>EPollPoller.h\<close>, \<open>EPollPoller.cpp\<close>). A \<open>Channel\<close> lives under its
  address in \<open>rc_heap\<close>. The poller's state is its \<open>channels_\<close> map, the size of its event array and
  the calls of \<open>epoll_ctl\<close> it has made, \<open>rc_calls\<close>: the code only logs their results, so they
  influence nothing. Whether \<open>fcntl\<close> finds a descriptor open is an argument, and so is what
  \<open>epoll_wait\<close> returns.

  The lemmas replay the recorded calls on an interest list as epoll_ctl(2) describes it, and
  show that channels and interest list agree.
\<close>

section \<open>Channels\<close>

definition EPOLLIN :: "32 word" where "EPOLLIN = 0x001"
definition EPOLLPRI :: "32 word" where "EPOLLPRI = 0x002"
definition EPOLLOUT :: "32 word" where "EPOLLOUT = 0x004"
definition EPOLLERR :: "32 word" where "EPOLLERR = 0x008"
definition EPOLLHUP :: "32 word" where "EPOLLHUP = 0x010"

definition kNoneEvent :: "32 word" where "kNoneEvent = 0"
definition kReadEvent :: "32 word" where "kReadEvent = EPOLLIN OR EPOLLPRI"
definition kWriteEvent :: "32 word" where "kWriteEvent = EPOLLOUT"

datatype channel_index = kNew | kAdded | kDeleted

text \<open>\<open>ch_tie\<close> tells whether the tied object is still alive, the last four which callbacks are set.\<close>

record channel =
  ch_fd :: int
  ch_events :: "32 word"
  ch_revents :: "32 word"
  ch_index :: channel_index
  ch_tied :: bool
  ch_tie :: bool
  ch_readCallback :: bool
  ch_writeCallback :: bool
  ch_closeCallback :: bool
  ch_errorCallback :: bool

definition Channel_new :: "int \<Rightarrow> channel" where
  "Channel_new fd =
     \<lparr>ch_fd = fd, ch_events = 0, ch_revents = 0, ch_index = kNew, ch_tied = False, ch_tie = False,
      ch_readCallback = False, ch_writeCallback = False, ch_closeCallback = False, ch_errorCallback = False\<rparr>"

definition Channel_tie :: "channel \<Rightarrow> channel" where
  "Channel_tie c = c\<lparr>ch_tie := True, ch_tied := True\<rparr>"

definition isNoneEvent :: "channel \<Rightarrow> bool" where
  "isNoneEvent c \<longleftrightarrow> ch_events c = kNoneEvent"

definition isWriting :: "channel \<Rightarrow> bool" where
  "isWriting c \<longleftrightarrow> ch_events c AND kWriteEvent \<noteq> 0"

definition isReading :: "channel \<Rightarrow> bool" where
  "isReading c \<longleftrightarrow> ch_events c AND kReadEvent \<noteq> 0"

text \<open>The five members that change the event mask, up to their call of \<open>update()\<close>.\<close>

datatype mask_op = EnableReading | DisableReading | EnableWriting | DisableWriting | DisableAll

fun mask_events :: "mask_op \<Rightarrow> 32 word \<Rightarrow> 32 word" where
  "mask_events EnableReading ev = ev OR kReadEvent"
| "mask_events DisableReading ev = ev AND (NOT kReadEvent)"
| "mask_events EnableWriting ev = ev OR kWriteEvent"
| "mask_events DisableWriting ev = ev AND (NOT kWriteEvent)"
| "mask_events DisableAll ev = kNoneEvent"

definition Channel_mask :: "mask_op \<Rightarrow> channel \<Rightarrow> channel" where
  "Channel_mask op c = (if ch_fd c < 0 then c else c\<lparr>ch_events := mask_events op (ch_events c)\<rparr>)"

text \<open>Which callbacks \<open>handleEvent\<close> runs, in order.\<close>

datatype channel_cb = CbClose | CbError | CbRead | CbWrite

definition handleEventWithGuard :: "channel \<Rightarrow> channel_cb list" where
  "handleEventWithGuard c =
     (if ch_revents c AND EPOLLHUP \<noteq> 0 \<and> ch_revents c AND EPOLLIN = 0 \<and> ch_closeCallback c then [CbClose] else [])
   @ (if ch_revents c AND EPOLLERR \<noteq> 0 \<and> ch_errorCallback c then [CbError] else [])
   @ (if ch_revents c AND (EPOLLIN OR EPOLLPRI) \<noteq> 0 \<and> ch_readCallback c then [CbRead] else [])
   @ (if ch_revents c AND EPOLLOUT \<noteq> 0 \<and> ch_writeCallback c then [CbWrite] else [])"

definition handleEvent :: "channel \<Rightarrow> channel_cb list" where
  "handleEvent c =
     (if ch_tied c then (if ch_tie c then handleEventWithGuard c else []) else handleEventWithGuard c)"

section \<open>The poller\<close>

datatype epoll_op = EPOLL_CTL_ADD | EPOLL_CTL_MOD | EPOLL_CTL_DEL

text \<open>One call of \<open>epoll_ctl\<close>: operation, descriptor, events and the channel's address.\<close>

type_synonym epoll_call = "epoll_op \<times> int \<times> 32 word \<times> nat"

record reactor =
  rc_heap :: "nat \<Rightarrow> channel option"
  rc_channels :: "int \<Rightarrow> nat option"
  rc_calls :: "epoll_call list"
  rc_capacity :: nat

definition kInitEventListSize :: nat where
  "kInitEventListSize = 16"

definition EPollPoller_new :: "(nat \<Rightarrow> channel option) \<Rightarrow> reactor" where
  "EPollPoller_new heap = \<lparr>rc_heap = heap, rc_channels = Map.empty, rc_calls = [], rc_capacity = kInitEventListSize\<rparr>"

definition EPollPoller_update :: "bool \<Rightarrow> epoll_op \<Rightarrow> nat \<Rightarrow> channel \<Rightarrow> reactor \<Rightarrow> reactor" where
  "EPollPoller_update alive op p c r =
     (if \<not> alive \<and> (op = EPOLL_CTL_DEL \<or> op = EPOLL_CTL_MOD) then r
      else r\<lparr>rc_calls := rc_calls r @ [(op, ch_fd c, ch_events c, p)]\<rparr>)"

definition set_index :: "channel_index \<Rightarrow> nat \<Rightarrow> reactor \<Rightarrow> reactor" where
  "set_index i p r = r\<lparr>rc_heap := (rc_heap r)(p := map_option (\<lambda>c. c\<lparr>ch_index := i\<rparr>) (rc_heap r p))\<rparr>"

definition updateChannel :: "bool \<Rightarrow> nat \<Rightarrow> reactor \<Rightarrow> reactor" where
  "updateChannel alive p r =
     (case rc_heap r p of
        None \<Rightarrow> r
      | Some c \<Rightarrow>
          (if ch_index c = kNew \<or> ch_index c = kDeleted
           then (let r1 = (if ch_index c = kNew then r\<lparr>rc_channels := (rc_channels r)(ch_fd c \<mapsto> p)\<rparr> else r)
                 in EPollPoller_update alive EPOLL_CTL_ADD p c (set_index kAdded p r1))
           else if isNoneEvent c
           then set_index kDeleted p (EPollPoller_update alive EPOLL_CTL_DEL p c r)
           else EPollPoller_update alive EPOLL_CTL_MOD p c r))"

definition removeChannel :: "bool \<Rightarrow> nat \<Rightarrow> reactor \<Rightarrow> reactor" where
  "removeChannel alive p r =
     (case rc_heap r p of
        None \<Rightarrow> r
      | Some c \<Rightarrow>
          (let r1 = r\<lparr>rc_channels := (rc_channels r)(ch_fd c := None)\<rparr>;
               r2 = (if ch_index c = kAdded then EPollPoller_update alive EPOLL_CTL_DEL p c r1 else r1)
           in set_index kDeleted p r2))"

definition hasChannel :: "nat \<Rightarrow> reactor \<Rightarrow> bool" where
  "hasChannel p r = (case rc_heap r p of None \<Rightarrow> False | Some c \<Rightarrow> rc_channels r (ch_fd c) = Some p)"

text \<open>
  \<open>enableReading()\<close> and the like, and \<open>Channel::remove()\<close>, which calls \<open>updateChannel\<close> as the
  source has it.
\<close>

definition Channel_set :: "bool \<Rightarrow> mask_op \<Rightarrow> nat \<Rightarrow> reactor \<Rightarrow> reactor" where
  "Channel_set alive op p r =
     (case rc_heap r p of
        None \<Rightarrow> r
      | Some c \<Rightarrow> if ch_fd c < 0 then r
                  else updateChannel alive p (r\<lparr>rc_heap := (rc_heap r)(p \<mapsto> Channel_mask op c)\<rparr>))"

definition Channel_remove :: "bool \<Rightarrow> nat \<Rightarrow> reactor \<Rightarrow> reactor" where
  "Channel_remove alive p r = updateChannel alive p r"

text \<open>
  \<open>poll\<close>: \<open>epoll_wait\<close> fails, or reports pairs of a channel's address and its events, at most as
  many as the array holds.
\<close>

fun fillActiveChannels :: "(nat \<times> 32 word) list \<Rightarrow> reactor \<Rightarrow> reactor" where
  "fillActiveChannels [] r = r"
| "fillActiveChannels ((p, ev) # evs) r =
     fillActiveChannels evs (r\<lparr>rc_heap := (rc_heap r)(p := map_option (\<lambda>c. c\<lparr>ch_revents := ev\<rparr>) (rc_heap r p))\<rparr>)"

definition EPollPoller_poll :: "errno + (nat \<times> 32 word) list \<Rightarrow> reactor \<Rightarrow> nat list \<times> reactor" where
  "EPollPoller_poll res r =
     (case res of
        Inl e \<Rightarrow> ([], r)
      | Inr [] \<Rightarrow> ([], r)
      | Inr evs \<Rightarrow>
          (let r1 = fillActiveChannels evs r
           in (map fst evs, if length evs = rc_capacity r1 then r1\<lparr>rc_capacity := rc_capacity r1 * 2\<rparr> else r1)))"

section \<open>The interest list\<close>

text \<open>
  What the kernel holds after a sequence of calls, as epoll_ctl(2) has it: adding a registered
  descriptor (\<open>EEXIST\<close>) and changing or deleting an unregistered one (\<open>ENOENT\<close>) fail and leave
  the list alone. \<open>calls_legal\<close> says that no call failed this way.
\<close>

type_synonym interest = "int \<Rightarrow> (32 word \<times> nat) option"

fun epoll_step :: "epoll_call \<Rightarrow> interest \<Rightarrow> interest" where
  "epoll_step (EPOLL_CTL_ADD, fd, ev, p) m = (if m fd = None then m(fd \<mapsto> (ev, p)) else m)"
| "epoll_step (EPOLL_CTL_MOD, fd, ev, p) m = (if m fd = None then m else m(fd \<mapsto> (ev, p)))"
| "epoll_step (EPOLL_CTL_DEL, fd, ev, p) m = m(fd := None)"

definition interest_of :: "epoll_call list \<Rightarrow> interest" where
  "interest_of calls = fold epoll_step calls Map.empty"

fun call_ok :: "epoll_call \<Rightarrow> interest \<Rightarrow> bool" where
  "call_ok (EPOLL_CTL_ADD, fd, ev, p) m \<longleftrightarrow> m fd = None"
| "call_ok (EPOLL_CTL_MOD, fd, ev, p) m \<longleftrightarrow> m fd \<noteq> None"
| "call_ok (EPOLL_CTL_DEL, fd, ev, p) m \<longleftrightarrow> m fd \<noteq> None"

fun calls_legal :: "epoll_call list \<Rightarrow> interest \<Rightarrow> bool" where
  "calls_legal [] m \<longleftrightarrow> True"
| "calls_legal (c # cs) m \<longleftrightarrow> call_ok c m \<and> calls_legal cs (epoll_step c m)"

text \<open>
  The agreement: every channel has its own nonnegative descriptor; a channel marked added is
  registered with its present mask, any other is not registered.
\<close>

definition Reactor_inv :: "reactor \<Rightarrow> bool" where
  "Reactor_inv r \<longleftrightarrow>
     calls_legal (rc_calls r) Map.empty \<and>
     (\<forall>p c. rc_heap r p = Some c \<longrightarrow>
        0 \<le> ch_fd c \<and>
        interest_of (rc_calls r) (ch_fd c) = (if ch_index c = kAdded then Some (ch_events c, p) else None) \<and>
        (ch_index c \<noteq> kNew \<longrightarrow> rc_channels r (ch_fd c) = Some p)) \<and>
     (\<forall>p q c d. rc_heap r p = Some c \<longrightarrow> rc_heap r q = Some d \<longrightarrow> ch_fd c = ch_fd d \<longrightarrow> p = q)"

datatype reactor_op =
    RSet mask_op nat
  | RPoll "errno + (nat \<times> 32 word) list"

fun reactor_exec :: "reactor_op \<Rightarrow> reactor \<Rightarrow> reactor" where
  "reactor_exec (RSet op p) r = Channel_set True op p r"
| "reactor_exec (RPoll res) r = snd (EPollPoller_poll res r)"

section \<open>Lemmas\<close>

lemma interest_append: "interest_of (cs @ [c]) = epoll_step c (interest_of cs)"
  by (simp add: interest_of_def)

lemma legal_append: "calls_legal (cs @ [c]) m \<longleftrightarrow> calls_legal cs m \<and> call_ok c (fold epoll_step cs m)"
  by (induction cs arbitrary: m) auto

lemma legal_snoc: "calls_legal (cs @ [c]) Map.empty \<longleftrightarrow> calls_legal cs Map.empty \<and> call_ok c (interest_of cs)"
  by (simp add: legal_append interest_of_def)

lemma Channel_mask_simps [simp]:
  "ch_fd (Channel_mask op c) = ch_fd c" "ch_index (Channel_mask op c) = ch_index c"
  by (simp_all add: Channel_mask_def)

lemma Reactor_invD:
  assumes "Reactor_inv r" and "rc_heap r p = Some c"
  shows "0 \<le> ch_fd c"
    and "interest_of (rc_calls r) (ch_fd c) = (if ch_index c = kAdded then Some (ch_events c, p) else None)"
    and "ch_index c \<noteq> kNew \<Longrightarrow> rc_channels r (ch_fd c) = Some p"
    and "rc_heap r q = Some d \<Longrightarrow> q \<noteq> p \<Longrightarrow> ch_fd d \<noteq> ch_fd c"
    and "calls_legal (rc_calls r) Map.empty"
  using assms unfolding Reactor_inv_def by (blast, blast, blast, metis, blast)

text \<open>One call about the descriptor of the channel whose index it records.\<close>

lemma Reactor_inv_call:
  assumes inv: "Reactor_inv r" and p: "rc_heap r p = Some c" and fd: "ch_fd c' = ch_fd c"
    and ok: "call_ok call (interest_of (rc_calls r))"
    and step: "epoll_step call (interest_of (rc_calls r)) =
      (interest_of (rc_calls r))(ch_fd c := (if ch_index c' = kAdded then Some (ch_events c', p) else None))"
    and chans: "rc_channels r' = (rc_channels r)(ch_fd c \<mapsto> p)"
    and heap: "rc_heap r' = (rc_heap r)(p \<mapsto> c')" and calls: "rc_calls r' = rc_calls r @ [call]"
  shows "Reactor_inv r'"
proof -
  have other: "ch_fd d \<noteq> ch_fd c" if "rc_heap r q = Some d" "q \<noteq> p" for q d
    using Reactor_invD(4) [OF inv p that] .
  show ?thesis
    unfolding Reactor_inv_def
  proof (intro conjI allI impI)
    show "calls_legal (rc_calls r') Map.empty"
      using ok Reactor_invD(5) [OF inv p] by (simp add: legal_snoc calls)
  next
    fix q d assume d: "rc_heap r' q = Some d"
    show "0 \<le> ch_fd d"
      using d fd Reactor_invD(1) [OF inv p] Reactor_invD(1) [OF inv, of q d] by (auto simp: heap split: if_splits)
    show "interest_of (rc_calls r') (ch_fd d) = (if ch_index d = kAdded then Some (ch_events d, q) else None)"
      using d fd other Reactor_invD(2) [OF inv, of q d]
      by (cases "q = p") (auto simp: heap calls interest_append step)
    show "rc_channels r' (ch_fd d) = Some q" if "ch_index d \<noteq> kNew"
      using that d fd other Reactor_invD(3) [OF inv, of q d] by (cases "q = p") (auto simp: heap chans)
  next
    fix q q' d d' assume "rc_heap r' q = Some d" and "rc_heap r' q' = Some d'" and "ch_fd d = ch_fd d'"
    then show "q = q'"
      using fd other Reactor_invD(4) [OF inv, of q' d' q d] by (auto simp: heap split: if_splits)
  qed
qed

text \<open>Changes of other fields leave the agreement alone.\<close>

lemma Reactor_inv_same:
  assumes inv: "Reactor_inv r" and "rc_calls r' = rc_calls r" and "rc_channels r' = rc_channels r"
    and same: "\<And>p c'. rc_heap r' p = Some c' \<Longrightarrow>
      \<exists>c. rc_heap r p = Some c \<and> ch_fd c' = ch_fd c \<and> ch_index c' = ch_index c \<and> ch_events c' = ch_events c"
  shows "Reactor_inv r'"
  unfolding Reactor_inv_def
proof (intro conjI allI impI)
  show "calls_legal (rc_calls r') Map.empty" using inv assms(2) by (simp add: Reactor_inv_def)
next
  fix p c assume "rc_heap r' p = Some c"
  then obtain d where "rc_heap r p = Some d" and d: "ch_fd c = ch_fd d" "ch_index c = ch_index d" "ch_events c = ch_events d"
    using same by blast
  note D = Reactor_invD [OF inv this(1)]
  show "0 \<le> ch_fd c" and "interest_of (rc_calls r') (ch_fd c) = (if ch_index c = kAdded then Some (ch_events c, p) else None)"
    using D d assms(2) by simp_all
  show "rc_channels r' (ch_fd c) = Some p" if "ch_index c \<noteq> kNew" using that D(3) d assms(3) by simp
next
  fix p q c d assume "rc_heap r' p = Some c" and "rc_heap r' q = Some d" and "ch_fd c = ch_fd d"
  moreover from this obtain c0 d0 where "rc_heap r p = Some c0" "rc_heap r q = Some d0" "ch_fd c = ch_fd c0" "ch_fd d = ch_fd d0"
    using same by meson
  ultimately show "p = q" using Reactor_invD(4) [OF inv, of q d0 p c0] by metis
qed

lemma Channel_set_inv [wf_intros]:
  assumes "Reactor_inv r"
  shows "Reactor_inv (Channel_set True op p r)"
proof (cases "rc_heap r p")
  case None
  with assms show ?thesis by (simp add: Channel_set_def)
next
  case (Some c)
  note D = Reactor_invD [OF assms Some]
  let ?c = "Channel_mask op c"
  let ?r = "Channel_set True op p r"
  note call = Reactor_inv_call [OF assms Some, where r' = ?r]
  note defs = Channel_set_def updateChannel_def EPollPoller_update_def set_index_def Let_def
  have same: "(rc_channels r)(ch_fd c \<mapsto> p) = rc_channels r" if "ch_index c \<noteq> kNew"
    using D(3) that by auto
  show ?thesis
  proof (cases "ch_index c = kAdded")
    case True
    then have reg: "interest_of (rc_calls r) (ch_fd c) = Some (ch_events c, p)" using D(2) by simp
    show ?thesis
    proof (cases "isNoneEvent ?c")
      case none: True
      show ?thesis
        using D(1) Some True none same reg
        by (intro call [of "?c\<lparr>ch_index := kDeleted\<rparr>" "(EPOLL_CTL_DEL, ch_fd c, ch_events ?c, p)"]) (simp_all add: defs)
    next
      case False
      show ?thesis
        using D(1) Some True False same reg
        by (intro call [of ?c "(EPOLL_CTL_MOD, ch_fd c, ch_events ?c, p)"]) (simp_all add: defs)
    qed
  next
    case False
    then have unreg: "interest_of (rc_calls r) (ch_fd c) = None" using D(2) by simp
    have new: "ch_index c = kNew \<or> ch_index c = kDeleted" using False by (cases "ch_index c") auto
    show ?thesis
      using D(1) Some new unreg same
      by (intro call [of "?c\<lparr>ch_index := kAdded\<rparr>" "(EPOLL_CTL_ADD, ch_fd c, ch_events ?c, p)"]) (auto simp: defs)
  qed
qed

text \<open>Reported events touch neither masks nor indices.\<close>

lemma fill_heap:
  "rc_heap (fillActiveChannels evs r) p = Some c' \<Longrightarrow>
     \<exists>c. rc_heap r p = Some c \<and> ch_fd c' = ch_fd c \<and> ch_index c' = ch_index c \<and> ch_events c' = ch_events c"
proof (induction evs r rule: fillActiveChannels.induct)
  case (2 q ev evs r)
  then obtain c where "rc_heap (r\<lparr>rc_heap := (rc_heap r)(q := map_option (\<lambda>c. c\<lparr>ch_revents := ev\<rparr>) (rc_heap r q))\<rparr>) p = Some c"
    and "ch_fd c' = ch_fd c \<and> ch_index c' = ch_index c \<and> ch_events c' = ch_events c" by auto
  then show ?case by (auto split: if_splits)
qed auto

lemma fill_rest [simp]:
  "rc_calls (fillActiveChannels evs r) = rc_calls r" "rc_channels (fillActiveChannels evs r) = rc_channels r"
  "rc_capacity (fillActiveChannels evs r) = rc_capacity r"
  by (induction evs r rule: fillActiveChannels.induct) auto

lemma poll_inv [wf_intros]:
  assumes "Reactor_inv r"
  shows "Reactor_inv (snd (EPollPoller_poll res r))"
proof (rule Reactor_inv_same [OF assms])
  show "rc_calls (snd (EPollPoller_poll res r)) = rc_calls r"
    and "rc_channels (snd (EPollPoller_poll res r)) = rc_channels r"
    by (simp_all del: fillActiveChannels.simps add: EPollPoller_poll_def Let_def split: sum.splits list.splits)
  fix p c' assume "rc_heap (snd (EPollPoller_poll res r)) p = Some c'"
  then show "\<exists>c. rc_heap r p = Some c \<and> ch_fd c' = ch_fd c \<and> ch_index c' = ch_index c \<and> ch_events c' = ch_events c"
    using fill_heap by (auto simp del: fillActiveChannels.simps simp: EPollPoller_poll_def Let_def
        split: sum.splits list.splits if_splits)
qed

lemma reactor_exec_inv [wf_intros]: "Reactor_inv r \<Longrightarrow> Reactor_inv (reactor_exec op r)"
  by (cases op) (simp_all add: wf_intros)

lemma reactor_run_inv: "Reactor_inv r \<Longrightarrow> Reactor_inv (fold reactor_exec ops r)"
  by (induction ops arbitrary: r) (simp_all add: wf_intros)

text \<open>A heap of channels as their constructors leave them, one per descriptor.\<close>

definition fresh_channels :: "(nat \<Rightarrow> channel option) \<Rightarrow> bool" where
  "fresh_channels heap \<longleftrightarrow>
     (\<forall>p c. heap p = Some c \<longrightarrow> 0 \<le> ch_fd c \<and> ch_index c = kNew) \<and>
     (\<forall>p q c d. heap p = Some c \<longrightarrow> heap q = Some d \<longrightarrow> ch_fd c = ch_fd d \<longrightarrow> p = q)"

lemma Reactor_inv_new [wf_intros]: "fresh_channels heap \<Longrightarrow> Reactor_inv (EPollPoller_new heap)"
  by (auto simp: Reactor_inv_def EPollPoller_new_def fresh_channels_def interest_of_def)

section \<open>Lemmas: event masks\<close>

lemma isWriting_bit: "isWriting c \<longleftrightarrow> bit (ch_events c) 2"
  using and_exp_eq_0_iff_not_bit [of "ch_events c" 2] by (simp add: isWriting_def kWriteEvent_def EPOLLOUT_def)

lemma kWriteEvent_bit: "bit kWriteEvent n \<longleftrightarrow> n = 2"
  using bit_exp_iff [where 'a = "32 word", of 2 n] by (auto simp: kWriteEvent_def EPOLLOUT_def)

lemma kReadEvent_bit: "bit kReadEvent n \<longleftrightarrow> n = 0 \<or> n = 1"
proof -
  have "bit EPOLLIN n \<longleftrightarrow> n = 0" by (simp add: EPOLLIN_def bit_1_iff)
  moreover have "bit EPOLLPRI n \<longleftrightarrow> n = 1"
    using bit_exp_iff [where 'a = "32 word", of 1 n] by (auto simp: EPOLLPRI_def)
  ultimately show ?thesis by (simp add: kReadEvent_def bit_or_iff)
qed

lemma isWriting_mask [simp]:
  "0 \<le> ch_fd c \<Longrightarrow> isWriting (Channel_mask EnableWriting c)"
  "0 \<le> ch_fd c \<Longrightarrow> \<not> isWriting (Channel_mask DisableWriting c)"
  "0 \<le> ch_fd c \<Longrightarrow> \<not> isWriting (Channel_mask DisableAll c)"
  "isWriting (Channel_mask EnableReading c) = isWriting c"
  "isWriting (Channel_mask DisableReading c) = isWriting c"
  by (auto simp: isWriting_bit Channel_mask_def kNoneEvent_def bit_or_iff bit_and_iff bit_not_iff
      kWriteEvent_bit kReadEvent_bit)

section \<open>Properties\<close>



text \<open>
  Removal does not remove. \<open>Channel::remove()\<close> calls \<open>updateChannel\<close>: after \<open>disableAll()\<close> took
  the descriptor out of the interest list, \<open>remove()\<close> registers it again with an empty mask, under
  which the kernel still reports hang-ups and errors, and the poller's map keeps the pointer.
  \<open>removeChannel\<close>, which nothing calls, would leave neither.
\<close>

theorem remove_reregisters:
  assumes "Reactor_inv r" and "rc_heap r p = Some c" and "ch_index c = kAdded"
    and "r1 = Channel_set True DisableAll p r"
  shows "interest_of (rc_calls r1) (ch_fd c) = None \<and>
     interest_of (rc_calls (Channel_remove True p r1)) (ch_fd c) = Some (kNoneEvent, p) \<and>
     hasChannel p (Channel_remove True p r1) \<and>
     interest_of (rc_calls (removeChannel True p r1)) (ch_fd c) = None \<and>
     \<not> hasChannel p (removeChannel True p r1)"
proof -
  note D = Reactor_invD [OF assms(1,2)]
  let ?c = "Channel_mask DisableAll c"
  have ev: "ch_events ?c = kNoneEvent" using D(1) by (simp add: Channel_mask_def)
  have r1: "rc_heap r1 = (rc_heap r)(p \<mapsto> ?c\<lparr>ch_index := kDeleted\<rparr>)" "rc_channels r1 = rc_channels r"
    using D(1) assms(2,3) ev unfolding assms(4)
    by (simp_all add: Channel_set_def updateChannel_def isNoneEvent_def EPollPoller_update_def set_index_def)
  have inv1: "Reactor_inv r1" unfolding assms(4) by (rule Channel_set_inv [OF assms(1)])
  then have none: "interest_of (rc_calls r1) (ch_fd c) = None"
    using Reactor_invD(2) [OF inv1, of p "?c\<lparr>ch_index := kDeleted\<rparr>"] by (simp add: r1)
  show ?thesis
    using none D(3) assms(3) ev
    by (simp add: Channel_remove_def updateChannel_def removeChannel_def r1 EPollPoller_update_def set_index_def
        interest_append hasChannel_def Let_def)
qed

theorem remove_reregisters_witness:
  "interest_of (rc_calls (Channel_remove True 0 (Channel_set True DisableAll 0 (Channel_set True EnableReading 0
      (EPollPoller_new [0 \<mapsto> Channel_new 5]))))) 5 = Some (kNoneEvent, 0)"
proof -
  let ?r = "Channel_set True EnableReading 0 (EPollPoller_new [0 \<mapsto> Channel_new 5])"
  have "Reactor_inv ?r"
    by (intro wf_intros) (auto simp: fresh_channels_def Channel_new_def split: if_splits)
  moreover have "rc_heap ?r 0 = Some ((Channel_new 5)\<lparr>ch_events := kReadEvent, ch_index := kAdded\<rparr>)"
    by (simp add: EPollPoller_new_def Channel_new_def Channel_set_def updateChannel_def EPollPoller_update_def
        set_index_def Channel_mask_def Let_def)
  ultimately show ?thesis
    using remove_reregisters [of ?r 0 _ "Channel_set True DisableAll 0 ?r"] by (simp add: Channel_new_def)
qed

end
