(* ===== verification/Event_Loop.thy ===== *)
theory Event_Loop
  imports Prelude
begin

text \<open>
  The event loop (\<open>src/core/include/EventLoop.h\<close>, \<open>src/core/src/EventLoop.cpp\<close>): the queue of
  functors other threads post to a loop, the eventfd that wakes it, and the loop itself. The state
  has the position of the loop's thread, so that the steps of other threads interleave with it
  between any two accesses to shared data: a foreign \<open>queueInLoop\<close> is the insertion under the
  mutex and later the write to the eventfd. A functor is a value of the type \<open>'f\<close>. Two fields are
  history: \<open>lp_log\<close>, the functors in the order of their insertion, and \<open>lp_done\<close>, those that ran.

  The invariant gives the two promises of the loop: no functor is lost, duplicated or overtaken,
  and a loop that is about to block in \<open>epoll_wait\<close> with work to do will be woken.
\<close>

section \<open>State and operations\<close>

text \<open>
  Where the loop's thread is: before \<open>loop()\<close>, at the test of \<open>quit_\<close>, in \<open>poll\<close>, in the loop of
  \<open>handleRead\<close>, in the handlers of other channels, running functors, inside a \<open>queueInLoop\<close> that a
  functor called (after the insertion, before the wakeup), and after \<open>loop()\<close>.
\<close>

datatype loop_pc = PcStart | PcTest | PcPoll | PcDrain | PcHandle | PcRun | PcRunWake | PcExit

record 'f loop_state =
  lp_pc :: loop_pc
  lp_looping :: bool
  lp_quit :: bool
  lp_calling :: bool
  lp_pending :: "'f list"
  lp_functors :: "'f list"
  lp_eventfd :: nat
  lp_owed :: nat
  lp_log :: "'f list"
  lp_done :: "'f list"

text \<open>\<open>lp_owed\<close> counts the other threads that have yet to write to the eventfd.\<close>

definition EventLoop_new :: "'f loop_state" where
  "EventLoop_new =
     \<lparr>lp_pc = PcStart, lp_looping = False, lp_quit = False, lp_calling = False, lp_pending = [],
      lp_functors = [], lp_eventfd = 0, lp_owed = 0, lp_log = [], lp_done = []\<rparr>"

definition EventLoop_wakeup :: "'f loop_state \<Rightarrow> 'f loop_state" where
  "EventLoop_wakeup s = s\<lparr>lp_eventfd := Suc (lp_eventfd s)\<rparr>"

definition push_functor :: "'f \<Rightarrow> 'f loop_state \<Rightarrow> 'f loop_state" where
  "push_functor f s = s\<lparr>lp_pending := lp_pending s @ [f], lp_log := lp_log s @ [f]\<rparr>"

definition queueInLoop :: "bool \<Rightarrow> 'f \<Rightarrow> 'f loop_state \<Rightarrow> 'f loop_state" where
  "queueInLoop inLoopThread f s =
     (let s1 = push_functor f s
      in if \<not> inLoopThread \<or> lp_calling s1 then EventLoop_wakeup s1 else s1)"

text \<open>\<open>runInLoop\<close> calls the functor at once in the loop's own thread: \<open>Inl\<close> is that call.\<close>

definition runInLoop :: "bool \<Rightarrow> 'f \<Rightarrow> 'f loop_state \<Rightarrow> 'f + 'f loop_state" where
  "runInLoop inLoopThread f s = (if inLoopThread then Inl f else Inr (queueInLoop inLoopThread f s))"

definition EventLoop_quit :: "bool \<Rightarrow> 'f loop_state \<Rightarrow> 'f loop_state" where
  "EventLoop_quit inLoopThread s =
     (let s1 = s\<lparr>lp_quit := True\<rparr> in if \<not> inLoopThread then EventLoop_wakeup s1 else s1)"

text \<open>One successful \<open>read\<close> of the eventfd takes the whole count.\<close>

definition read_eventfd :: "'f loop_state \<Rightarrow> 'f loop_state" where
  "read_eventfd s = s\<lparr>lp_eventfd := 0\<rparr>"

definition loop_begin :: "'f loop_state \<Rightarrow> 'f loop_state" where
  "loop_begin s = EventLoop_wakeup (s\<lparr>lp_looping := True, lp_quit := False\<rparr>)"

definition doPending_begin :: "'f loop_state \<Rightarrow> 'f loop_state" where
  "doPending_begin s = s\<lparr>lp_calling := True, lp_functors := lp_pending s, lp_pending := []\<rparr>"

definition doPending_call :: "'f loop_state \<Rightarrow> 'f loop_state" where
  "doPending_call s =
     (case lp_functors s of
        [] \<Rightarrow> s
      | f # fs \<Rightarrow> s\<lparr>lp_functors := fs, lp_done := lp_done s @ [f]\<rparr>)"

definition doPending_end :: "'f loop_state \<Rightarrow> 'f loop_state" where
  "doPending_end s = s\<lparr>lp_calling := False\<rparr>"

section \<open>Interleaved steps\<close>

text \<open>
  The loop's thread. \<open>poll\<close> reports the eventfd when its count is positive, and may return for
  other descriptors or its timeout at any time. Handlers and functors of the loop's thread may
  queue functors and quit.
\<close>

inductive loop_step :: "'f loop_state \<Rightarrow> 'f loop_state \<Rightarrow> bool" where
  start_queue: "lp_pc s = PcStart \<Longrightarrow> loop_step s (queueInLoop True f s)"
| start_quit: "lp_pc s = PcStart \<Longrightarrow> loop_step s (EventLoop_quit True s)"
| start: "lp_pc s = PcStart \<Longrightarrow> loop_step s ((loop_begin s)\<lparr>lp_pc := PcTest\<rparr>)"
| test_go: "lp_pc s = PcTest \<Longrightarrow> \<not> lp_quit s \<Longrightarrow> loop_step s (s\<lparr>lp_pc := PcPoll\<rparr>)"
| test_exit: "lp_pc s = PcTest \<Longrightarrow> lp_quit s \<Longrightarrow> loop_step s (s\<lparr>lp_pc := PcExit, lp_looping := False\<rparr>)"
| poll_wakeup: "lp_pc s = PcPoll \<Longrightarrow> 0 < lp_eventfd s \<Longrightarrow> loop_step s (s\<lparr>lp_pc := PcDrain\<rparr>)"
| poll_other: "lp_pc s = PcPoll \<Longrightarrow> loop_step s (s\<lparr>lp_pc := PcHandle\<rparr>)"
| drain_read: "lp_pc s = PcDrain \<Longrightarrow> 0 < lp_eventfd s \<Longrightarrow> loop_step s (read_eventfd s)"
| drain_end: "lp_pc s = PcDrain \<Longrightarrow> lp_eventfd s = 0 \<Longrightarrow> loop_step s (s\<lparr>lp_pc := PcHandle\<rparr>)"
| handle_queue: "lp_pc s = PcHandle \<Longrightarrow> loop_step s (queueInLoop True f s)"
| handle_quit: "lp_pc s = PcHandle \<Longrightarrow> loop_step s (EventLoop_quit True s)"
| handle_end: "lp_pc s = PcHandle \<Longrightarrow> loop_step s ((doPending_begin s)\<lparr>lp_pc := PcRun\<rparr>)"
| run_call: "lp_pc s = PcRun \<Longrightarrow> lp_functors s \<noteq> [] \<Longrightarrow> loop_step s (doPending_call s)"
| run_push: "lp_pc s = PcRun \<Longrightarrow> loop_step s ((push_functor f s)\<lparr>lp_pc := PcRunWake\<rparr>)"
| run_wake: "lp_pc s = PcRunWake \<Longrightarrow> loop_step s ((EventLoop_wakeup s)\<lparr>lp_pc := PcRun\<rparr>)"
| run_quit: "lp_pc s = PcRun \<Longrightarrow> loop_step s (EventLoop_quit True s)"
| run_end: "lp_pc s = PcRun \<Longrightarrow> lp_functors s = [] \<Longrightarrow> loop_step s ((doPending_end s)\<lparr>lp_pc := PcTest\<rparr>)"
| other_push: "loop_step s ((push_functor f s)\<lparr>lp_owed := Suc (lp_owed s)\<rparr>)"
| other_quit: "loop_step s (s\<lparr>lp_quit := True, lp_owed := Suc (lp_owed s)\<rparr>)"
| other_wake: "0 < lp_owed s \<Longrightarrow> loop_step s ((EventLoop_wakeup s)\<lparr>lp_owed := lp_owed s - 1\<rparr>)"

inductive_cases loop_stepE: "loop_step s t"

lemmas loop_defs = EventLoop_wakeup_def push_functor_def queueInLoop_def EventLoop_quit_def read_eventfd_def
  loop_begin_def doPending_begin_def doPending_call_def doPending_end_def Let_def

definition Loop_inv :: "'f loop_state \<Rightarrow> bool" where
  "Loop_inv s \<longleftrightarrow>
     lp_log s = lp_done s @ lp_functors s @ lp_pending s \<and>
     (lp_calling s \<longleftrightarrow> lp_pc s \<in> {PcRun, PcRunWake}) \<and>
     (lp_functors s \<noteq> [] \<longrightarrow> lp_calling s) \<and>
     (lp_pc s \<in> {PcTest, PcPoll, PcRun} \<and> lp_pending s \<noteq> [] \<longrightarrow> 0 < lp_eventfd s + lp_owed s) \<and>
     (lp_pc s = PcPoll \<and> lp_quit s \<longrightarrow> 0 < lp_eventfd s + lp_owed s)"

lemma Loop_inv_new: "s = EventLoop_new \<Longrightarrow> Loop_inv s"
  by (simp add: Loop_inv_def EventLoop_new_def)

lemma Loop_inv_step: "Loop_inv s \<Longrightarrow> loop_step s t \<Longrightarrow> Loop_inv t"
  by (erule loop_stepE) (auto simp: Loop_inv_def loop_defs split: list.splits)

interpretation evl: inductive_invariant "\<lambda>s. s = EventLoop_new" loop_step Loop_inv
  by unfold_locales (simp_all add: Loop_inv_new Loop_inv_step)

section \<open>Lemmas: one round\<close>

lemma run_all:
  "lp_pc s = PcRun \<Longrightarrow> lp_functors s = fs \<Longrightarrow>
     loop_step\<^sup>*\<^sup>* s (s\<lparr>lp_functors := [], lp_done := lp_done s @ fs\<rparr>)"
proof (induction fs arbitrary: s)
  case Nil
  then have "s\<lparr>lp_functors := [], lp_done := lp_done s @ []\<rparr> = s" by (cases s) simp
  then show ?case by simp
next
  case (Cons f fs)
  let ?t = "s\<lparr>lp_functors := fs, lp_done := lp_done s @ [f]\<rparr>"
  have "loop_step s ?t" using run_call [of s] Cons.prems by (simp add: doPending_call_def)
  moreover have "loop_step\<^sup>*\<^sup>* ?t (s\<lparr>lp_functors := [], lp_done := lp_done s @ f # fs\<rparr>)"
    using Cons.IH [of ?t] Cons.prems by simp
  ultimately show ?case by (rule converse_rtranclp_into_rtranclp)
qed

lemma poll_round:
  assumes "lp_pc s = PcPoll" and "0 < lp_eventfd s"
  shows "loop_step\<^sup>*\<^sup>* s (s\<lparr>lp_pc := PcTest, lp_eventfd := 0, lp_calling := False, lp_pending := [], lp_functors := [],
     lp_done := lp_done s @ lp_pending s\<rparr>)"
proof -
  let ?s1 = "s\<lparr>lp_pc := PcDrain\<rparr>" and ?s2 = "s\<lparr>lp_pc := PcDrain, lp_eventfd := 0\<rparr>"
    and ?s3 = "s\<lparr>lp_pc := PcHandle, lp_eventfd := 0\<rparr>"
  let ?s4 = "s\<lparr>lp_pc := PcRun, lp_eventfd := 0, lp_calling := True, lp_functors := lp_pending s, lp_pending := []\<rparr>"
  let ?s5 = "?s4\<lparr>lp_functors := [], lp_done := lp_done s @ lp_pending s\<rparr>"
  have "loop_step s ?s1" using assms by (rule poll_wakeup)
  moreover have "loop_step ?s1 ?s2" using drain_read [of ?s1] assms by (cases s) (simp add: read_eventfd_def)
  moreover have "loop_step ?s2 ?s3" using drain_end [of ?s2] by (cases s) simp
  moreover have "loop_step ?s3 ?s4" using handle_end [of ?s3] by (cases s) (simp add: doPending_begin_def)
  moreover have "loop_step\<^sup>*\<^sup>* ?s4 ?s5" using run_all [of ?s4 "lp_pending s"] by simp
  moreover have "loop_step ?s5 (s\<lparr>lp_pc := PcTest, lp_eventfd := 0, lp_calling := False, lp_pending := [],
      lp_functors := [], lp_done := lp_done s @ lp_pending s\<rparr>)"
    using run_end [of ?s5] by (cases s) (simp add: doPending_end_def)
  ultimately show ?thesis
    by (meson converse_rtranclp_into_rtranclp rtranclp.rtrancl_into_rtrancl)
qed

section \<open>Properties\<close>

text \<open>
  C12. Posted functors run in order, once. In every interleaving, the functors that have run, those
  taken out of the queue for this round and those waiting are together, in this order, exactly the
  functors that were queued, in the order of their insertion.
\<close>

theorem functors_fifo:
  assumes "reachable (\<lambda>s. s = EventLoop_new) loop_step s"
  shows "lp_log s = lp_done s @ lp_functors s @ lp_pending s"
  using evl.reachable_inv [OF assms] by (simp add: Loop_inv_def)

theorem functors_fifo_witness:
  "\<exists>s :: nat loop_state. reachable (\<lambda>s. s = EventLoop_new) loop_step s \<and> lp_pending s = [7, 8] \<and>
     lp_log s = lp_done s @ lp_functors s @ lp_pending s"
proof -
  let ?R = "reachable (\<lambda>s. s = EventLoop_new) loop_step :: nat loop_state \<Rightarrow> bool"
  have "?R EventLoop_new" by (intro reach_init) simp
  from reach_step [OF reach_step [OF this other_push [of _ 7]] other_push [of _ 8]]
  obtain s where "?R s" and "lp_pending s = [7, 8]"
    by (auto simp: push_functor_def EventLoop_new_def)
  with functors_fifo [of s] show ?thesis by blast
qed



text \<open>
  A quit before the loop is lost. \<open>loop()\<close> resets \<open>quit_\<close>, so a \<open>quit()\<close> that came between the
  construction of the loop and its start has no effect.
\<close>

theorem early_quit_lost:
  "\<exists>s t :: nat loop_state. reachable (\<lambda>s. s = EventLoop_new) loop_step s \<and> lp_quit s \<and> lp_pc s \<noteq> PcExit \<and>
     loop_step s t \<and> \<not> lp_quit t"
proof -
  let ?R = "reachable (\<lambda>s. s = EventLoop_new) loop_step :: nat loop_state \<Rightarrow> bool"
  let ?s = "EventLoop_new\<lparr>lp_quit := True, lp_owed := 1\<rparr>"
  have "?R EventLoop_new" by (intro reach_init) simp
  from reach_step [OF this other_quit] have "?R ?s" by (simp add: EventLoop_new_def)
  moreover have "loop_step ?s ((loop_begin ?s)\<lparr>lp_pc := PcTest\<rparr>)" by (rule start) (simp add: EventLoop_new_def)
  ultimately show ?thesis
    by (intro exI [of _ ?s] exI [of _ "(loop_begin ?s)\<lparr>lp_pc := PcTest\<rparr>"]) (simp add: loop_defs EventLoop_new_def)
qed

end
