(* ===== verification/Tcp_Connection.thy ===== *)
theory Tcp_Connection
  imports Byte_Buffer Channel_Poller
begin

text \<open>
  One TCP connection (\<open>src/core/include/TcpConnection.h\<close>, \<open>src/core/src/TcpConnection.cpp\<close>) as
  its loop's thread sees it: the state machine, the two buffers, direct and buffered sending, file
  transmission, shutdown and close. What a system call returned is an argument. What the
  connection asks others to do is recorded in \<open>tc_effects\<close>: updates of its channel at the poller,
  functors queued in the loop, callbacks, \<open>shutdown(SHUT_WR)\<close>. Two fields are history:
  \<open>tc_sent\<close>, the bytes handed to \<open>sendInLoop\<close> while not disconnected, and \<open>tc_wire\<close>, the bytes
  the kernel took. \<open>pendingFile_\<close> is a global variable of the source, shared by all connections; it
  is passed beside the connection.
\<close>

section \<open>State\<close>

datatype conn_state = kDisconnected | kConnecting | kConnected | kDisconnecting

record pending_file =
  pf_fd :: int
  pf_offset :: nat
  pf_remaining :: nat
  pf_active :: bool

datatype conn_effect =
    EUpdate "32 word"
  | EWriteComplete
  | EHighWater nat
  | EShutdownWrite
  | EConnectionCallback
  | EMessageCallback
  | ECloseCallback

record tcp_connection =
  tc_state :: conn_state
  tc_channel :: channel
  tc_input :: buffer
  tc_output :: buffer
  tc_highWaterMark :: nat
  tc_highWaterMarkCallback :: bool
  tc_writeCompleteCallback :: bool
  tc_closeCallback :: bool
  tc_effects :: "conn_effect list"
  tc_sent :: string
  tc_wire :: string

text \<open>The result of \<open>send\<close>, \<open>write\<close> or \<open>sendfile\<close>: an errno or a count.\<close>

type_synonym io_result = "errno + nat"

definition pendingFile_init :: pending_file where
  "pendingFile_init = \<lparr>pf_fd = -1, pf_offset = 0, pf_remaining = 0, pf_active = False\<rparr>"

definition TcpConnection_new :: "int \<Rightarrow> tcp_connection" where
  "TcpConnection_new sockfd =
     \<lparr>tc_state = kConnecting,
      tc_channel = (Channel_new sockfd)\<lparr>ch_readCallback := True, ch_writeCallback := True,
                      ch_closeCallback := True, ch_errorCallback := True\<rparr>,
      tc_input = Buffer_new kInitialSize, tc_output = Buffer_new kInitialSize,
      tc_highWaterMark = 64 * 1024 * 1024, tc_highWaterMarkCallback = False,
      tc_writeCompleteCallback = False, tc_closeCallback = False,
      tc_effects = [], tc_sent = [], tc_wire = []\<rparr>"

definition setWriteCompleteCallback :: "bool \<Rightarrow> tcp_connection \<Rightarrow> tcp_connection" where
  "setWriteCompleteCallback cb c = c\<lparr>tc_writeCompleteCallback := cb\<rparr>"

definition setCloseCallback :: "bool \<Rightarrow> tcp_connection \<Rightarrow> tcp_connection" where
  "setCloseCallback cb c = c\<lparr>tc_closeCallback := cb\<rparr>"

definition setHighWaterMarkCallback :: "bool \<Rightarrow> nat \<Rightarrow> tcp_connection \<Rightarrow> tcp_connection" where
  "setHighWaterMarkCallback cb mark c = c\<lparr>tc_highWaterMarkCallback := cb, tc_highWaterMark := mark\<rparr>"

section \<open>Operations\<close>

definition emit :: "conn_effect \<Rightarrow> tcp_connection \<Rightarrow> tcp_connection" where
  "emit e c = c\<lparr>tc_effects := tc_effects c @ [e]\<rparr>"

text \<open>\<open>channel_->enableWriting()\<close> and the like.\<close>

definition conn_mask :: "mask_op \<Rightarrow> tcp_connection \<Rightarrow> tcp_connection" where
  "conn_mask op c =
     (if ch_fd (tc_channel c) < 0 then c
      else emit (EUpdate (ch_events (Channel_mask op (tc_channel c))))
             (c\<lparr>tc_channel := Channel_mask op (tc_channel c)\<rparr>))"

definition handleClose :: "tcp_connection \<Rightarrow> tcp_connection" where
  "handleClose c =
     (let c1 = conn_mask DisableAll (c\<lparr>tc_state := kDisconnected\<rparr>)
      in if tc_closeCallback c1 then emit ECloseCallback c1 else c1)"

definition shutdownInLoop :: "tcp_connection \<Rightarrow> tcp_connection" where
  "shutdownInLoop c = (if \<not> isWriting (tc_channel c) then emit EShutdownWrite c else c)"

text \<open>
  \<open>sendInLoop\<close> in its three parts: the direct attempt, which gives the bytes written, the bytes
  remaining and whether the peer is gone; the buffering of the rest; the close.
\<close>

definition send_direct :: "string \<Rightarrow> io_result \<Rightarrow> tcp_connection \<Rightarrow> nat \<times> nat \<times> bool \<times> tcp_connection" where
  "send_direct data r c =
     (if \<not> isWriting (tc_channel c) \<and> readableBytes (tc_output c) = 0
      then (case r of
              Inr nwrote \<Rightarrow>
                (let remaining = length data - nwrote;
                     c1 = c\<lparr>tc_wire := tc_wire c @ take nwrote data\<rparr>
                 in (nwrote, remaining, False,
                     if remaining = 0 \<and> tc_writeCompleteCallback c then emit EWriteComplete c1 else c1))
            | Inl e \<Rightarrow> (0, length data, e \<noteq> EAGAIN \<and> (e = EPIPE \<or> e = ECONNRESET), c))
      else (0, length data, False, c))"

definition send_rest :: "string \<Rightarrow> nat \<Rightarrow> nat \<Rightarrow> tcp_connection \<Rightarrow> tcp_connection" where
  "send_rest data nwrote remaining c =
     (let oldLen = readableBytes (tc_output c);
          c1 = (if tc_highWaterMark c \<le> oldLen + remaining \<and> oldLen < tc_highWaterMark c \<and> tc_highWaterMarkCallback c
                then emit (EHighWater (oldLen + remaining)) c else c);
          c2 = c1\<lparr>tc_output := Buffer_append (take remaining (drop nwrote data)) (tc_output c1)\<rparr>
      in if \<not> isWriting (tc_channel c2) then conn_mask EnableWriting c2 else c2)"

definition sendInLoop :: "string \<Rightarrow> io_result \<Rightarrow> tcp_connection \<Rightarrow> tcp_connection" where
  "sendInLoop data r c =
     (if tc_state c = kDisconnected then c
      else case send_direct data r (c\<lparr>tc_sent := tc_sent c @ data\<rparr>) of
             (nwrote, remaining, faultError, c1) \<Rightarrow>
               (let c2 = (if \<not> faultError \<and> 0 < remaining then send_rest data nwrote remaining c1 else c1)
                in if faultError then handleClose c2 else c2))"

text \<open>
  \<open>send\<close>: in the loop's thread, and the functor that another thread's \<open>send\<close> queues, test the
  state and call \<open>sendInLoop\<close>.
\<close>

definition Tcp_send :: "string \<Rightarrow> io_result \<Rightarrow> tcp_connection \<Rightarrow> tcp_connection" where
  "Tcp_send data r c = (if tc_state c \<noteq> kConnected then c else sendInLoop data r c)"

definition Tcp_sendBuffer :: "buffer \<Rightarrow> io_result \<Rightarrow> tcp_connection \<Rightarrow> buffer \<times> tcp_connection" where
  "Tcp_sendBuffer buf r c =
     (if readableBytes buf = 0 then (buf, c)
      else if tc_state c \<noteq> kConnected then (buf, c)
      else (retrieveAll buf, sendInLoop (take (readableBytes buf) (Buffer_peek buf)) r c))"

definition Tcp_shutdown :: "tcp_connection \<Rightarrow> tcp_connection" where
  "Tcp_shutdown c = (if tc_state c = kConnected then shutdownInLoop (c\<lparr>tc_state := kDisconnecting\<rparr>) else c)"

definition connectEstablished :: "tcp_connection \<Rightarrow> tcp_connection" where
  "connectEstablished c =
     emit EConnectionCallback
       (conn_mask EnableReading (c\<lparr>tc_state := kConnected, tc_channel := Channel_tie (tc_channel c)\<rparr>))"

text \<open>\<open>channel_->remove()\<close> is another update of the channel.\<close>

definition connectDestroyed :: "tcp_connection \<Rightarrow> tcp_connection" where
  "connectDestroyed c =
     (let c1 = (if tc_state c = kConnected then conn_mask DisableAll (c\<lparr>tc_state := kDisconnected\<rparr>) else c)
      in emit (EUpdate (ch_events (tc_channel c1))) c1)"

definition Tcp_handleRead :: "errno + string \<Rightarrow> tcp_connection \<Rightarrow> tcp_connection" where
  "Tcp_handleRead r c =
     (case Buffer_readFd r (tc_input c) of
        (Inr n, b) \<Rightarrow> if 0 < n then emit EMessageCallback (c\<lparr>tc_input := b\<rparr>) else handleClose (c\<lparr>tc_input := b\<rparr>)
      | (Inl e, b) \<Rightarrow> c\<lparr>tc_input := b\<rparr>)"

text \<open>The buffer part of \<open>handleWrite\<close>; \<open>r\<close> is the result of \<open>writeFd\<close>.\<close>

definition write_buffer :: "io_result \<Rightarrow> tcp_connection \<Rightarrow> tcp_connection" where
  "write_buffer r c =
     (if \<not> isWriting (tc_channel c) then c
      else case r of
             Inr n \<Rightarrow>
               if 0 < n
               then (let c1 = c\<lparr>tc_wire := tc_wire c @ take n (writeFd_offer (tc_output c)),
                               tc_output := Buffer_retrieve n (tc_output c)\<rparr>
                     in if readableBytes (tc_output c1) = 0
                        then (let c2 = conn_mask DisableWriting c1;
                                  c3 = (if tc_writeCompleteCallback c2 then emit EWriteComplete c2 else c2)
                              in if tc_state c3 = kDisconnecting then shutdownInLoop c3 else c3)
                        else c1)
               else c
           | Inl e \<Rightarrow> c)"

text \<open>
  \<open>handleWrite\<close>: \<open>rf\<close> is the result of \<open>sendfile\<close> on the pending file, whose bytes \<open>file\<close> gives
  per descriptor; it is used only when a file is pending.
\<close>

definition Tcp_handleWrite ::
    "(int \<Rightarrow> string) \<Rightarrow> io_result \<Rightarrow> io_result \<Rightarrow> pending_file \<times> tcp_connection \<Rightarrow> pending_file \<times> tcp_connection" where
  "Tcp_handleWrite file rf rw s =
     (case s of (pf, c) \<Rightarrow>
        if pf_active pf
        then (case rf of
                Inr n \<Rightarrow>
                  (let c1 = c\<lparr>tc_wire := tc_wire c @ take n (drop (pf_offset pf) (file (pf_fd pf)))\<rparr>;
                       pf1 = pf\<lparr>pf_offset := pf_offset pf + n, pf_remaining := pf_remaining pf - n\<rparr>
                   in if pf_remaining pf1 = 0
                      then (let c2 = (if tc_writeCompleteCallback c1 \<and> readableBytes (tc_output c1) = 0
                                      then emit EWriteComplete c1 else c1)
                            in (pf1\<lparr>pf_active := False\<rparr>, write_buffer rw c2))
                      else (pf1, conn_mask EnableWriting c1))
              | Inl e \<Rightarrow>
                  if e = EAGAIN then (pf, conn_mask EnableWriting c)
                  else if e = EPIPE \<or> e = ECONNRESET then (pf, handleClose c)
                  else (pf\<lparr>pf_active := False\<rparr>, write_buffer rw c))
        else (pf, write_buffer rw c))"

definition sendFileInLoop ::
    "(int \<Rightarrow> string) \<Rightarrow> int \<Rightarrow> nat \<Rightarrow> nat \<Rightarrow> io_result \<Rightarrow> pending_file \<times> tcp_connection \<Rightarrow> pending_file \<times> tcp_connection" where
  "sendFileInLoop file fd offset count r s =
     (case s of (pf, c) \<Rightarrow>
        if tc_state c \<noteq> kConnected then (pf, c)
        else if 0 < readableBytes (tc_output c) \<or> isWriting (tc_channel c)
        then (\<lparr>pf_fd = fd, pf_offset = offset, pf_remaining = count, pf_active = True\<rparr>, conn_mask EnableWriting c)
        else (case r of
                Inr n \<Rightarrow>
                  (let c1 = c\<lparr>tc_wire := tc_wire c @ take n (drop offset (file fd))\<rparr>
                   in if count - n = 0
                      then (pf, if tc_writeCompleteCallback c1 then emit EWriteComplete c1 else c1)
                      else (\<lparr>pf_fd = fd, pf_offset = offset + n, pf_remaining = count - n, pf_active = True\<rparr>,
                            conn_mask EnableWriting c1))
              | Inl e \<Rightarrow>
                  if e = EAGAIN
                  then (\<lparr>pf_fd = fd, pf_offset = offset, pf_remaining = count, pf_active = True\<rparr>, conn_mask EnableWriting c)
                  else if e = EPIPE \<or> e = ECONNRESET then (pf, handleClose c)
                  else (pf, c)))"

definition sendFile ::
    "(int \<Rightarrow> string) \<Rightarrow> int \<Rightarrow> nat \<Rightarrow> nat \<Rightarrow> io_result \<Rightarrow> pending_file \<times> tcp_connection \<Rightarrow> pending_file \<times> tcp_connection" where
  "sendFile file fd offset count r s =
     (if tc_state (snd s) \<noteq> kConnected then s else sendFileInLoop file fd offset count r s)"

section \<open>Runs\<close>

text \<open>
  What can happen to an established connection that sends no file, with the answers of the
  kernel: sends, readiness of the socket, the message callback consuming input, shutdown, a
  hang-up, and the destruction by the server.
\<close>

datatype conn_event =
    EvSend string io_result
  | EvWritable io_result
  | EvReadable "errno + string"
  | EvConsume nat
  | EvShutdown
  | EvHangup
  | EvDestroy

fun conn_exec :: "conn_event \<Rightarrow> tcp_connection \<Rightarrow> tcp_connection" where
  "conn_exec (EvSend d r) c = Tcp_send d r c"
| "conn_exec (EvWritable r) c = snd (Tcp_handleWrite (\<lambda>_. []) (Inr 0) r (pendingFile_init, c))"
| "conn_exec (EvReadable r) c = Tcp_handleRead r c"
| "conn_exec (EvConsume n) c = c\<lparr>tc_input := Buffer_retrieve n (tc_input c)\<rparr>"
| "conn_exec EvShutdown c = Tcp_shutdown c"
| "conn_exec EvHangup c = handleClose c"
| "conn_exec EvDestroy c = connectDestroyed c"

text \<open>\<open>send\<close> and \<open>write\<close> take at most what they are offered.\<close>

fun event_ok :: "conn_event \<Rightarrow> tcp_connection \<Rightarrow> bool" where
  "event_ok (EvSend d (Inr n)) c \<longleftrightarrow> n \<le> length d"
| "event_ok (EvWritable (Inr n)) c \<longleftrightarrow> n \<le> readableBytes (tc_output c)"
| "event_ok _ c \<longleftrightarrow> True"

fun events_ok :: "conn_event list \<Rightarrow> tcp_connection \<Rightarrow> bool" where
  "events_ok [] c \<longleftrightarrow> True"
| "events_ok (e # es) c \<longleftrightarrow> event_ok e c \<and> events_ok es (conn_exec e c)"

text \<open>A connection as the server sets it up: callbacks, then \<open>connectEstablished\<close>.\<close>

definition established :: "int \<Rightarrow> bool \<Rightarrow> bool \<Rightarrow> nat \<Rightarrow> tcp_connection" where
  "established fd wc hw mark =
     connectEstablished (setHighWaterMarkCallback hw mark (setCloseCallback True
       (setWriteCompleteCallback wc (TcpConnection_new fd))))"

abbreviation shut :: "tcp_connection \<Rightarrow> bool" where
  "shut c \<equiv> EShutdownWrite \<in> set (tc_effects c)"

definition Conn_inv :: "tcp_connection \<Rightarrow> bool" where
  "Conn_inv c \<longleftrightarrow>
     0 \<le> ch_fd (tc_channel c) \<and> Buffer_inv (tc_input c) \<and> Buffer_inv (tc_output c) \<and>
     (\<exists>rest. tc_sent c = tc_wire c @ rest) \<and>
     (tc_state c \<noteq> kDisconnected \<longrightarrow>
        tc_sent c = tc_wire c @ Buffer_contents (tc_output c) \<and>
        (isWriting (tc_channel c) \<longleftrightarrow> Buffer_contents (tc_output c) \<noteq> [])) \<and>
     (tc_state c = kDisconnected \<longrightarrow> \<not> isWriting (tc_channel c)) \<and>
     (shut c \<longrightarrow> tc_sent c = tc_wire c \<and> tc_state c \<in> {kDisconnecting, kDisconnected}) \<and>
     (tc_state c = kDisconnecting \<longrightarrow> shut c \<or> Buffer_contents (tc_output c) \<noteq> [])"

section \<open>Lemmas: fields\<close>

lemma emit_simps [simp]:
  "tc_state (emit e c) = tc_state c" "tc_channel (emit e c) = tc_channel c" "tc_input (emit e c) = tc_input c"
  "tc_output (emit e c) = tc_output c" "tc_sent (emit e c) = tc_sent c" "tc_wire (emit e c) = tc_wire c"
  "tc_writeCompleteCallback (emit e c) = tc_writeCompleteCallback c" "tc_closeCallback (emit e c) = tc_closeCallback c"
  "tc_effects (emit e c) = tc_effects c @ [e]"
  by (simp_all add: emit_def)

lemma conn_mask_simps [simp]:
  "tc_state (conn_mask op c) = tc_state c" "tc_input (conn_mask op c) = tc_input c"
  "tc_output (conn_mask op c) = tc_output c" "tc_sent (conn_mask op c) = tc_sent c"
  "tc_wire (conn_mask op c) = tc_wire c" "tc_writeCompleteCallback (conn_mask op c) = tc_writeCompleteCallback c"
  "tc_closeCallback (conn_mask op c) = tc_closeCallback c"
  "tc_channel (conn_mask op c) = Channel_mask op (tc_channel c)"
  "shut (conn_mask op c) = shut c"
  by (auto simp: conn_mask_def Channel_mask_def)

lemma handleClose_simps [simp]:
  "tc_state (handleClose c) = kDisconnected" "tc_input (handleClose c) = tc_input c"
  "tc_output (handleClose c) = tc_output c" "tc_sent (handleClose c) = tc_sent c"
  "tc_wire (handleClose c) = tc_wire c" "tc_channel (handleClose c) = Channel_mask DisableAll (tc_channel c)"
  "shut (handleClose c) = shut c"
  by (auto simp: handleClose_def Let_def)

lemma readable_zero [simp]: "Buffer_inv b \<Longrightarrow> readableBytes b = 0 \<longleftrightarrow> Buffer_contents b = []"
  using length_Buffer_contents [of b] by (metis length_0_conv)

lemma readable_pos [simp]: "Buffer_inv b \<Longrightarrow> 0 < readableBytes b \<longleftrightarrow> Buffer_contents b \<noteq> []"
  using readable_zero [of b] by (metis neq0_conv)

section \<open>Lemmas: the invariant\<close>

lemma Conn_inv_established: "0 \<le> fd \<Longrightarrow> Conn_inv (established fd wc hw mark)"
  by (simp add: Conn_inv_def established_def setWriteCompleteCallback_def setCloseCallback_def setHighWaterMarkCallback_def connectEstablished_def TcpConnection_new_def Channel_tie_def Channel_new_def
      wf_intros abs_simps isWriting_def conn_mask_def Channel_mask_def kReadEvent_def kWriteEvent_def
      EPOLLIN_def EPOLLPRI_def EPOLLOUT_def)

lemma handleClose_inv [wf_intros]: "Conn_inv c \<Longrightarrow> Conn_inv (handleClose c)"
  by (auto simp: Conn_inv_def)

lemma Tcp_handleRead_inv [wf_intros]:
  assumes "Conn_inv c"
  shows "Conn_inv (Tcp_handleRead r c)"
proof -
  have "Conn_inv (c\<lparr>tc_input := snd (Buffer_readFd r (tc_input c))\<rparr>)" (is "Conn_inv ?c")
    using assms by (simp add: Conn_inv_def wf_intros)
  moreover from this have "Conn_inv (emit EMessageCallback ?c)" by (simp add: Conn_inv_def)
  ultimately show ?thesis
    by (auto simp: Tcp_handleRead_def wf_intros split: prod.splits sum.splits)
qed

lemma Tcp_shutdown_inv [wf_intros]: "Conn_inv c \<Longrightarrow> Conn_inv (Tcp_shutdown c)"
  by (auto simp: Conn_inv_def Tcp_shutdown_def shutdownInLoop_def)

lemma connectDestroyed_inv [wf_intros]: "Conn_inv c \<Longrightarrow> Conn_inv (connectDestroyed c)"
  by (auto simp: Conn_inv_def connectDestroyed_def Let_def)

lemma write_buffer_inv [wf_intros]:
  assumes "Conn_inv c" and "case r of Inr n \<Rightarrow> n \<le> readableBytes (tc_output c) | Inl e \<Rightarrow> True"
  shows "Conn_inv (write_buffer r c)"
proof (cases "isWriting (tc_channel c) \<and> (\<exists>n. r = Inr n \<and> 0 < n)")
  case False
  with assms show ?thesis by (auto simp: write_buffer_def split: sum.splits)
next
  case True
  then obtain n where n: "r = Inr n" "0 < n" by blast
  let ?out = "Buffer_contents (tc_output c)"
  from assms(1) True have st: "tc_state c \<noteq> kDisconnected" "tc_sent c = tc_wire c @ ?out" "?out \<noteq> []" "Buffer_inv (tc_output c)"
    "\<not> shut c"
    by (auto simp: Conn_inv_def)
  let ?c1 = "c\<lparr>tc_wire := tc_wire c @ take n ?out, tc_output := Buffer_retrieve n (tc_output c)\<rparr>"
  have out1: "Buffer_contents (tc_output ?c1) = drop n ?out" "Buffer_inv (tc_output ?c1)"
    using st(4) by (simp_all add: abs_simps wf_intros)
  show ?thesis
  proof (cases "drop n ?out = []")
    case drained: True
    then have "take n ?out = ?out" by simp
    with assms(1) True n drained out1 st show ?thesis
      by (auto simp: write_buffer_def Let_def Conn_inv_def shutdownInLoop_def)
  next
    case False
    with assms(1) True n out1 st show ?thesis
      by (auto simp: write_buffer_def Let_def Conn_inv_def intro: exI [of _ "drop n ?out"])
  qed
qed

lemma send_rest_simps [simp]:
  "tc_state (send_rest d n m c) = tc_state c" "tc_input (send_rest d n m c) = tc_input c"
  "tc_sent (send_rest d n m c) = tc_sent c" "tc_wire (send_rest d n m c) = tc_wire c"
  "tc_output (send_rest d n m c) = Buffer_append (take m (drop n d)) (tc_output c)"
  "tc_channel (send_rest d n m c) =
     (if isWriting (tc_channel c) then tc_channel c else Channel_mask EnableWriting (tc_channel c))"
  "shut (send_rest d n m c) = shut c"
  by (auto simp: send_rest_def Let_def)

lemma sendInLoop_inv:
  assumes inv: "Conn_inv c" and conn: "tc_state c = kConnected"
    and r: "case r of Inr n \<Rightarrow> n \<le> length d | Inl e \<Rightarrow> True"
  shows "Conn_inv (sendInLoop d r c)"
proof -
  let ?out = "Buffer_contents (tc_output c)" and ?c = "c\<lparr>tc_sent := tc_sent c @ d\<rparr>"
  from inv conn have st: "tc_sent c = tc_wire c @ ?out" "isWriting (tc_channel c) \<longleftrightarrow> ?out \<noteq> []" "\<not> shut c"
    "Buffer_inv (tc_output c)" "Buffer_inv (tc_input c)" "0 \<le> ch_fd (tc_channel c)"
    by (auto simp: Conn_inv_def)
  show ?thesis
  proof (cases "?out = []")
    case True
    with st have direct: "\<not> isWriting (tc_channel c)" by simp
    show ?thesis
    proof (cases r)
      case (Inl e)
      with True direct st conn show ?thesis
        by (cases "e = EPIPE \<or> e = ECONNRESET")
          (auto simp: sendInLoop_def send_direct_def Conn_inv_def Let_def wf_intros abs_simps)
    next
      case (Inr n)
      with r have n: "n \<le> length d" by simp
      have "d = take n d @ drop n d" by simp
      moreover have "n \<noteq> length d \<Longrightarrow> drop n d \<noteq> []" using n by simp
      ultimately show ?thesis
        using True direct st conn Inr n
        by (cases "n = length d") (auto simp: sendInLoop_def send_direct_def Conn_inv_def Let_def wf_intros abs_simps
            intro: exI [of _ "drop n d"])
    qed
  next
    case False
    with st conn show ?thesis
      by (cases "d = []") (auto simp: sendInLoop_def send_direct_def Conn_inv_def Let_def wf_intros abs_simps)
  qed
qed

lemma conn_exec_inv [wf_intros]:
  assumes "Conn_inv c" and "event_ok e c"
  shows "Conn_inv (conn_exec e c)"
proof (cases e)
  case (EvSend d r)
  with assms show ?thesis by (cases r) (auto simp: Tcp_send_def intro: sendInLoop_inv)
next
  case (EvWritable r)
  with assms write_buffer_inv [OF assms(1), of r] show ?thesis
    by (cases r) (auto simp: Tcp_handleWrite_def pendingFile_init_def)
next
  case (EvConsume n)
  with assms show ?thesis by (simp add: Conn_inv_def wf_intros)
qed (use assms in \<open>simp_all add: wf_intros\<close>)

lemma conn_run_inv: "Conn_inv c \<Longrightarrow> events_ok es c \<Longrightarrow> Conn_inv (fold conn_exec es c)"
  by (induction es arbitrary: c) (simp_all add: wf_intros)

lemma established_run_inv:
  "0 \<le> fd \<Longrightarrow> events_ok es (established fd wc hw mark) \<Longrightarrow> Conn_inv (fold conn_exec es (established fd wc hw mark))"
  by (intro conn_run_inv Conn_inv_established)

text \<open>A short run: the kernel takes two of five bytes, then the user shuts down.\<close>

definition sample_events :: "conn_event list" where
  "sample_events = [EvSend ''hello'' (Inr 2), EvShutdown]"

definition sample_run :: tcp_connection where
  "sample_run = fold conn_exec sample_events (established 5 True False 0)"

lemma established_fields:
  assumes "0 \<le> fd"
  shows "tc_state (established fd wc hw mark) = kConnected" and "tc_wire (established fd wc hw mark) = []"
    and "tc_sent (established fd wc hw mark) = []" and "tc_output (established fd wc hw mark) = Buffer_new kInitialSize"
    and "\<not> isWriting (tc_channel (established fd wc hw mark))" and "ch_fd (tc_channel (established fd wc hw mark)) = fd"
  using Conn_inv_established [OF assms, of wc hw mark]
  by (auto simp: established_def connectEstablished_def setWriteCompleteCallback_def setCloseCallback_def
      setHighWaterMarkCallback_def TcpConnection_new_def Conn_inv_def abs_simps Channel_tie_def Channel_new_def)

lemma sample_ok: "events_ok sample_events (established 5 True False 0)"
  by (simp add: sample_events_def)

lemma sample_fields:
  "tc_state sample_run = kDisconnecting" "tc_wire sample_run = ''he''" "tc_sent sample_run = ''hello''"
  using established_fields [of 5 True False 0]
  by (simp_all add: sample_run_def sample_events_def Tcp_send_def sendInLoop_def send_direct_def Tcp_shutdown_def
      shutdownInLoop_def wf_intros abs_simps)

section \<open>Properties\<close>







text \<open>
  The pending file is shared. \<open>pendingFile_\<close> is one global variable: when a file of another
  connection is pending, write readiness of this connection sends that file's bytes to this peer.
\<close>

theorem pending_file_leaks:
  assumes "sendFile file fd off cnt (Inl EAGAIN) (pf, a) = (pf', a')"
    and "tc_state a = kConnected" and "\<not> isWriting (tc_channel a)" and "readableBytes (tc_output a) = 0"
    and "n < cnt" and "Tcp_handleWrite file (Inr n) rw (pf', b) = (pf'', b')"
  shows "tc_wire b' = tc_wire b @ take n (drop off (file fd)) \<and> tc_wire a' = tc_wire a"
proof -
  from assms(1-4) have "pf' = \<lparr>pf_fd = fd, pf_offset = off, pf_remaining = cnt, pf_active = True\<rparr>"
    and "a' = conn_mask EnableWriting a"
    by (auto simp: sendFile_def sendFileInLoop_def)
  with assms(5,6) show ?thesis by (auto simp: Tcp_handleWrite_def Let_def)
qed

theorem pending_file_leaks_witness:
  "tc_wire (snd (Tcp_handleWrite (\<lambda>_. ''SECRET'') (Inr 3) (Inr 0)
     (fst (sendFile (\<lambda>_. ''SECRET'') 9 0 6 (Inl EAGAIN) (pendingFile_init, established 5 True False 0)),
      established 6 True False 0))) = ''SEC''"
proof -
  let ?a = "established 5 True False 0" and ?b = "established 6 True False 0" and ?file = "\<lambda>_ :: int. ''SECRET''"
  obtain pf' a' where e1: "sendFile ?file 9 0 6 (Inl EAGAIN) (pendingFile_init, ?a) = (pf', a')" by fastforce
  obtain pf'' b' where e2: "Tcp_handleWrite ?file (Inr 3) (Inr 0) (pf', ?b) = (pf'', b')" by fastforce
  note a = established_fields [of 5 True False 0] and b = established_fields [of 6 True False 0]
  from a have "readableBytes (tc_output ?a) = 0" by (simp add: wf_intros abs_simps)
  with pending_file_leaks [OF e1 _ _ _ _ e2] a b have "tc_wire b' = ''SEC''" by (simp add: numeral_3_eq_3)
  with e1 e2 show ?thesis by simp
qed

text \<open>
  A finished file keeps the loop busy. When the last bytes of a pending file are sent and the
  output buffer is empty, \<open>handleWrite\<close> goes on to write zero bytes and takes the result for an
  error: write interest stays on and every further readiness event changes nothing.
\<close>

theorem finished_file_busy:
  assumes "pf_active pf" and "pf_remaining pf = n" and "isWriting (tc_channel c)"
    and "Buffer_inv (tc_output c)" and "Buffer_contents (tc_output c) = []"
    and "Tcp_handleWrite file (Inr n) (Inr 0) (pf, c) = (pf', c')"
  shows "isWriting (tc_channel c') \<and> \<not> pf_active pf' \<and>
     Tcp_handleWrite file rf (Inr 0) (pf', c') = (pf', c')"
  using assms by (auto simp: Tcp_handleWrite_def write_buffer_def Let_def)

theorem finished_file_busy_witness:
  "\<exists>pf' c'. Tcp_handleWrite (\<lambda>_. ''abc'') (Inr 3) (Inr 0)
       (sendFile (\<lambda>_. ''abc'') 9 0 3 (Inl EAGAIN) (pendingFile_init, established 5 True False 0)) = (pf', c') \<and>
     isWriting (tc_channel c') \<and> Tcp_handleWrite (\<lambda>_. ''abc'') (Inr 0) (Inr 0) (pf', c') = (pf', c')"
proof -
  let ?a = "established 5 True False 0" and ?file = "\<lambda>_ :: int. ''abc''"
  let ?pf = "\<lparr>pf_fd = 9, pf_offset = 0, pf_remaining = 3, pf_active = True\<rparr>" and ?c = "conn_mask EnableWriting ?a"
  note a = established_fields [of 5 True False 0]
  have s: "sendFile ?file 9 0 3 (Inl EAGAIN) (pendingFile_init, ?a) = (?pf, ?c)"
    using a by (simp add: sendFile_def sendFileInLoop_def wf_intros abs_simps)
  obtain pf' c' where e: "Tcp_handleWrite ?file (Inr 3) (Inr 0) (?pf, ?c) = (pf', c')" by fastforce
  from finished_file_busy [OF _ _ _ _ _ e, of "Inr 0"] a s e show ?thesis
    by (simp add: wf_intros abs_simps)
qed

end
