(* ===== verification/Tcp_Server.thy ===== *)
theory Tcp_Server
  imports Tcp_Connection
begin

text \<open>
  The server above the connections: addresses (\<open>InetAddress\<close>), the pool of loops
  (\<open>EventLoopThreadPool\<close>), the acceptor (\<open>Acceptor\<close>) and the table of connections
  (\<open>TcpServer\<close>), all under \<open>src/core\<close>. A loop is named by a number; connection objects live under
  their address in \<open>ts_heap\<close>. What is handed to a loop with \<open>runInLoop\<close> or \<open>queueInLoop\<close> is
  recorded in \<open>ts_posted\<close>, with the loop. The lemmas show that loops are assigned in turn and that
  connection names never clash.
\<close>

section \<open>Addresses\<close>

type_synonym octets = "8 word \<times> 8 word \<times> 8 word \<times> 8 word"

text \<open>\<open>sockaddr_in\<close>: the four bytes of the address, and the port in network byte order.\<close>

record inet_address =
  sin_addr :: octets
  sin_port :: "16 word"

definition htons :: "16 word \<Rightarrow> 16 word" where
  "htons w = push_bit 8 w OR drop_bit 8 w"

definition ntohs :: "16 word \<Rightarrow> 16 word" where
  "ntohs w = push_bit 8 w OR drop_bit 8 w"

text \<open>\<open>inet_addr\<close>, of the C library, is the argument \<open>inet\<close>.\<close>

definition InetAddress_new :: "(string \<Rightarrow> octets) \<Rightarrow> string \<Rightarrow> 16 word \<Rightarrow> inet_address" where
  "InetAddress_new inet ip port = \<lparr>sin_addr = inet ip, sin_port = htons port\<rparr>"

definition toIp :: "inet_address \<Rightarrow> string" where
  "toIp a = (case sin_addr a of (p, q, r, s) \<Rightarrow>
     show_nat (unat p) @ ''.'' @ show_nat (unat q) @ ''.'' @ show_nat (unat r) @ ''.'' @ show_nat (unat s))"

definition toPort :: "inet_address \<Rightarrow> 16 word" where
  "toPort a = ntohs (sin_port a)"

definition toIpPort :: "inet_address \<Rightarrow> string" where
  "toIpPort a = toIp a @ '':'' @ show_nat (unat (ntohs (sin_port a)))"

section \<open>The pool of loops\<close>

type_synonym loop_id = nat

record thread_pool =
  tp_baseLoop :: loop_id
  tp_name :: string
  tp_started :: bool
  tp_numThreads :: nat
  tp_next :: nat
  tp_threads :: "string list"
  tp_loops :: "loop_id list"

definition EventLoopThreadPool_new :: "loop_id \<Rightarrow> string \<Rightarrow> thread_pool" where
  "EventLoopThreadPool_new baseLoop name =
     \<lparr>tp_baseLoop = baseLoop, tp_name = name, tp_started = False, tp_numThreads = 0, tp_next = 0,
      tp_threads = [], tp_loops = []\<rparr>"

definition setThreadNum :: "nat \<Rightarrow> thread_pool \<Rightarrow> thread_pool" where
  "setThreadNum n p = p\<lparr>tp_numThreads := n\<rparr>"

text \<open>\<open>start\<close>: \<open>startLoop i\<close> is the loop the \<open>i\<close>-th thread creates for itself.\<close>

fun start_threads :: "(nat \<Rightarrow> loop_id) \<Rightarrow> nat \<Rightarrow> nat \<Rightarrow> thread_pool \<Rightarrow> thread_pool" where
  "start_threads startLoop i 0 p = p"
| "start_threads startLoop i (Suc n) p =
     start_threads startLoop (Suc i) n
       (p\<lparr>tp_threads := tp_threads p @ [tp_name p @ show_nat (i + 1)], tp_loops := tp_loops p @ [startLoop i]\<rparr>)"

definition ThreadPool_start :: "(nat \<Rightarrow> loop_id) \<Rightarrow> thread_pool \<Rightarrow> thread_pool" where
  "ThreadPool_start startLoop p = start_threads startLoop 0 (tp_numThreads p) (p\<lparr>tp_started := True\<rparr>)"

definition getNextLoop :: "thread_pool \<Rightarrow> loop_id \<times> thread_pool" where
  "getNextLoop p =
     (if tp_loops p \<noteq> []
      then (let loop = tp_loops p ! tp_next p;
                next' = tp_next p + 1
            in (loop, p\<lparr>tp_next := (if length (tp_loops p) \<le> next' then 0 else next')\<rparr>))
      else (tp_baseLoop p, p))"

definition getAllLoops :: "thread_pool \<Rightarrow> loop_id list" where
  "getAllLoops p = (if tp_loops p = [] then [tp_baseLoop p] else tp_loops p)"

text \<open>Any number of calls in a row, with the loops they return.\<close>

fun next_loops :: "nat \<Rightarrow> thread_pool \<Rightarrow> loop_id list \<times> thread_pool" where
  "next_loops 0 p = ([], p)"
| "next_loops (Suc n) p =
     (case getNextLoop p of (l, p1) \<Rightarrow> case next_loops n p1 of (ls, p2) \<Rightarrow> (l # ls, p2))"

section \<open>The server\<close>

datatype server_task = TListen | TQuit | TEstablish nat | TRemove nat | TDestroy nat

record conn_object =
  co_name :: string
  co_loop :: loop_id
  co_conn :: tcp_connection

record tcp_server =
  ts_loop :: loop_id
  ts_ipPort :: string
  ts_name :: string
  ts_pool :: thread_pool
  ts_connections :: "string \<Rightarrow> nat option"
  ts_nextConnId :: "32 word"
  ts_started :: nat
  ts_heap :: "nat \<Rightarrow> conn_object option"
  ts_next :: nat
  ts_posted :: "(loop_id \<times> server_task) list"

definition TcpServer_new :: "loop_id \<Rightarrow> inet_address \<Rightarrow> string \<Rightarrow> tcp_server" where
  "TcpServer_new loop listenAddr name =
     \<lparr>ts_loop = loop, ts_ipPort = toIpPort listenAddr, ts_name = name,
      ts_pool = EventLoopThreadPool_new loop name, ts_connections = Map.empty, ts_nextConnId = 1, ts_started = 0,
      ts_heap = Map.empty, ts_next = 0, ts_posted = []\<rparr>"

definition post :: "loop_id \<Rightarrow> server_task \<Rightarrow> tcp_server \<Rightarrow> tcp_server" where
  "post loop t s = s\<lparr>ts_posted := ts_posted s @ [(loop, t)]\<rparr>"

definition TcpServer_setThreadNum :: "nat \<Rightarrow> tcp_server \<Rightarrow> tcp_server" where
  "TcpServer_setThreadNum n s = s\<lparr>ts_pool := setThreadNum n (ts_pool s)\<rparr>"

definition TcpServer_start :: "(nat \<Rightarrow> loop_id) \<Rightarrow> tcp_server \<Rightarrow> tcp_server" where
  "TcpServer_start startLoop s =
     (let s1 = s\<lparr>ts_started := Suc (ts_started s)\<rparr>
      in if ts_started s = 0
         then post (ts_loop s) TListen (s1\<lparr>ts_pool := ThreadPool_start startLoop (ts_pool s)\<rparr>)
         else s1)"

definition TcpServer_stop :: "tcp_server \<Rightarrow> tcp_server" where
  "TcpServer_stop s = post (ts_loop s) TQuit (fold (\<lambda>l. post l TQuit) (getAllLoops (ts_pool s)) s)"

text \<open>\<open>snprintf(buf, sizeof buf, "-%s#%d", ...)\<close> into 64 bytes.\<close>

definition conn_suffix :: "string \<Rightarrow> 32 word \<Rightarrow> string" where
  "conn_suffix ipPort connId = take 63 (''-'' @ ipPort @ ''#'' @ show_int (sint connId))"

definition newConnection :: "int \<Rightarrow> tcp_server \<Rightarrow> tcp_server" where
  "newConnection sockfd s =
     (case getNextLoop (ts_pool s) of
        (ioLoop, pool) \<Rightarrow>
          (let connId = ts_nextConnId s;
               connName = ts_name s @ conn_suffix (ts_ipPort s) connId;
               ref = ts_next s;
               conn = setCloseCallback True (TcpConnection_new sockfd)
           in post ioLoop (TEstablish ref)
                (s\<lparr>ts_pool := pool, ts_nextConnId := connId + 1,
                   ts_connections := (ts_connections s)(connName \<mapsto> ref),
                   ts_heap := (ts_heap s)(ref \<mapsto> \<lparr>co_name = connName, co_loop = ioLoop, co_conn = conn\<rparr>),
                   ts_next := Suc ref\<rparr>)))"

text \<open>\<open>Acceptor::handleRead\<close>: \<open>accept4\<close> fails or delivers a descriptor.\<close>

definition Acceptor_handleRead :: "errno + int \<Rightarrow> tcp_server \<Rightarrow> tcp_server" where
  "Acceptor_handleRead r s = (case r of Inr connfd \<Rightarrow> newConnection connfd s | Inl e \<Rightarrow> s)"

definition removeConnection :: "nat \<Rightarrow> tcp_server \<Rightarrow> tcp_server" where
  "removeConnection ref s = post (ts_loop s) (TRemove ref) s"

definition removeConnectionInLoop :: "nat \<Rightarrow> tcp_server \<Rightarrow> tcp_server" where
  "removeConnectionInLoop ref s =
     (case ts_heap s ref of
        Some co \<Rightarrow>
          post (co_loop co) (TDestroy ref) (s\<lparr>ts_connections := (ts_connections s)(co_name co := None)\<rparr>)
      | None \<Rightarrow> s)"

section \<open>Runs of the server\<close>

datatype server_event = SvAccept "errno + int" | SvClose nat | SvRemove nat

fun server_exec :: "server_event \<Rightarrow> tcp_server \<Rightarrow> tcp_server" where
  "server_exec (SvAccept r) s = Acceptor_handleRead r s"
| "server_exec (SvClose ref) s = removeConnection ref s"
| "server_exec (SvRemove ref) s = removeConnectionInLoop ref s"

text \<open>
  Addresses are handed out in order; every object carries the name made from its number, and the
  table maps a name only to the object that has it.
\<close>

definition Server_inv :: "tcp_server \<Rightarrow> bool" where
  "Server_inv s \<longleftrightarrow>
     length (ts_ipPort s) \<le> 50 \<and>
     ts_nextConnId s = of_nat (ts_next s + 1) \<and>
     (\<forall>ref co. ts_heap s ref = Some co \<longrightarrow>
        ref < ts_next s \<and> co_name co = ts_name s @ conn_suffix (ts_ipPort s) (of_nat (ref + 1)) \<and>
        (co_loop co, TEstablish ref) \<in> set (ts_posted s)) \<and>
     (\<forall>name ref. ts_connections s name = Some ref \<longrightarrow> (\<exists>co. ts_heap s ref = Some co \<and> co_name co = name))"

section \<open>Lemmas: addresses and names\<close>

lemma ntohs_htons [simp]: "ntohs (htons w) = w"
  unfolding ntohs_def htons_def by (rule bit_word_eqI) (auto simp: bit_simps)

lemma toPort_new: "toPort (InetAddress_new inet ip port) = port"
  by (simp add: toPort_def InetAddress_new_def)

lemma length_octet: "length (show_nat (unat (w :: 8 word))) \<le> 3"
  using length_show_nat [of "unat w" 2] unsigned_less [of w, where 'a = nat] by simp

lemma length_toIpPort: "length (toIpPort a) \<le> 21"
proof -
  obtain p q r s where a: "sin_addr a = (p, q, r, s)" by (metis prod_cases4)
  have "length (show_nat (unat (ntohs (sin_port a)))) \<le> 5"
    using length_show_nat [of "unat (ntohs (sin_port a))" 4] unsigned_less [of "ntohs (sin_port a)", where 'a = nat] by simp
  with a length_octet [of p] length_octet [of q] length_octet [of r] length_octet [of s] show ?thesis
    by (simp add: toIpPort_def toIp_def)
qed

lemma length_show_id: "length (show_int (sint (w :: 32 word))) \<le> 11"
proof -
  have b: "- (2 ^ 31) \<le> sint w" "sint w < 2 ^ 31"
    using sint_ge [of w] sint_lt [of w] by simp_all
  then have "length (show_nat (nat (- sint w))) \<le> 10" and "length (show_nat (nat (sint w))) \<le> 10"
    using length_show_nat [of "nat (- sint w)" 9] length_show_nat [of "nat (sint w)" 9] by simp_all
  then show ?thesis by (simp add: show_int_def)
qed

lemma conn_suffix_inj:
  assumes "length ipPort \<le> 50" and "conn_suffix ipPort v = conn_suffix ipPort w"
  shows "v = w"
proof -
  have "length (''-'' @ ipPort @ ''#'' @ show_int (sint x)) \<le> 63" for x :: "32 word"
    using assms(1) length_show_id [of x] by simp
  then have "conn_suffix ipPort x = ''-'' @ ipPort @ ''#'' @ show_int (sint x)" for x
    unfolding conn_suffix_def by (intro take_all)
  with assms(2) have "show_int (sint v) = show_int (sint w)" by simp
  then have "sint v = sint w" by (rule show_int_inj)
  then show ?thesis by (rule signed_word_eqI)
qed

section \<open>Lemmas: assigning loops\<close>

text \<open>The loops from the present position to the end, then those before it.\<close>

lemma next_loops_end:
  assumes "tp_next p + k = length (tp_loops p)" and "tp_loops p \<noteq> []" and "0 < k"
  shows "next_loops k p = (drop (tp_next p) (tp_loops p), p\<lparr>tp_next := 0\<rparr>)"
  using assms
proof (induction k arbitrary: p)
  case (Suc k)
  have step: "drop (tp_next p) (tp_loops p) = tp_loops p ! tp_next p # drop (Suc (tp_next p)) (tp_loops p)"
    using Suc.prems(1) by (simp add: Cons_nth_drop_Suc)
  show ?case
  proof (cases "k = 0")
    case True
    with Suc.prems step show ?thesis by (simp add: getNextLoop_def)
  next
    case False
    with Suc.prems Suc.IH [of "p\<lparr>tp_next := Suc (tp_next p)\<rparr>"] step show ?thesis by (simp add: getNextLoop_def Let_def)
  qed
qed simp

lemma next_loops_front:
  assumes "tp_next p + k < length (tp_loops p)"
  shows "next_loops k p = (take k (drop (tp_next p) (tp_loops p)), p\<lparr>tp_next := tp_next p + k\<rparr>)"
  using assms
proof (induction k arbitrary: p)
  case (Suc k)
  have "drop (tp_next p) (tp_loops p) = tp_loops p ! tp_next p # drop (Suc (tp_next p)) (tp_loops p)"
    using Suc.prems by (simp add: Cons_nth_drop_Suc)
  with Suc.prems Suc.IH [of "p\<lparr>tp_next := Suc (tp_next p)\<rparr>"] show ?case by (auto simp: getNextLoop_def Let_def)
qed simp

lemma next_loops_add:
  "next_loops (m + n) p = (case next_loops m p of (ls, p1) \<Rightarrow> case next_loops n p1 of (ls', p2) \<Rightarrow> (ls @ ls', p2))"
  by (induction m arbitrary: p) (auto split: prod.splits)

lemma next_loops_round:
  assumes "tp_next p < length (tp_loops p)"
  shows "next_loops (length (tp_loops p)) p = (rotate (tp_next p) (tp_loops p), p)"
proof -
  let ?n = "length (tp_loops p)" and ?i = "tp_next p"
  have e: "next_loops (?n - ?i) p = (drop ?i (tp_loops p), p\<lparr>tp_next := 0\<rparr>)"
    using assms by (intro next_loops_end) auto
  have f: "next_loops ?i (p\<lparr>tp_next := 0\<rparr>) = (take ?i (tp_loops p), p)"
    using next_loops_front [of "p\<lparr>tp_next := 0\<rparr>" ?i] assms by simp
  have "next_loops (?n - ?i + ?i) p = (drop ?i (tp_loops p) @ take ?i (tp_loops p), p)"
    unfolding next_loops_add e by (simp add: f)
  with assms show ?thesis by (simp add: rotate_drop_take)
qed

lemma count_distinct: "distinct xs \<Longrightarrow> x \<in> set xs \<Longrightarrow> count_list xs x = 1"
  by (induction xs) auto

section \<open>Lemmas: the table\<close>

lemma post_simps [simp]:
  "ts_name (post l t s) = ts_name s" "ts_ipPort (post l t s) = ts_ipPort s" "ts_heap (post l t s) = ts_heap s"
  "ts_next (post l t s) = ts_next s" "ts_connections (post l t s) = ts_connections s"
  "ts_nextConnId (post l t s) = ts_nextConnId s" "ts_posted (post l t s) = ts_posted s @ [(l, t)]"
  "ts_pool (post l t s) = ts_pool s" "ts_loop (post l t s) = ts_loop s"
  by (simp_all add: post_def)

lemma Server_inv_new [wf_intros]: "Server_inv (TcpServer_new l a n)"
  using length_toIpPort [of a] by (simp add: Server_inv_def TcpServer_new_def)

lemma newConnection_inv [wf_intros]: "Server_inv s \<Longrightarrow> Server_inv (newConnection fd s)"
  by (auto simp: Server_inv_def newConnection_def Let_def less_Suc_eq split: prod.splits)
    (metis less_irrefl_nat)

lemma removeConnectionInLoop_inv [wf_intros]: "Server_inv s \<Longrightarrow> Server_inv (removeConnectionInLoop ref s)"
  by (auto simp: Server_inv_def removeConnectionInLoop_def split: option.splits)

lemma server_exec_inv [wf_intros]: "Server_inv s \<Longrightarrow> Server_inv (server_exec e s)"
proof (cases e)
  case (SvClose ref)
  moreover assume "Server_inv s"
  ultimately show ?thesis by (auto simp: Server_inv_def removeConnection_def)
qed (auto simp: wf_intros Acceptor_handleRead_def split: sum.splits)

lemma server_run_inv: "Server_inv s \<Longrightarrow> Server_inv (fold server_exec es s)"
  by (induction es arbitrary: s) (simp_all add: wf_intros)

lemma fresh_name:
  assumes "Server_inv s" and "ts_next s < 2 ^ 32 - 1"
  shows "ts_connections s (ts_name s @ conn_suffix (ts_ipPort s) (ts_nextConnId s)) = None"
proof (rule ccontr)
  assume "ts_connections s (ts_name s @ conn_suffix (ts_ipPort s) (ts_nextConnId s)) \<noteq> None"
  then obtain ref co where "ts_heap s ref = Some co" and "co_name co = ts_name s @ conn_suffix (ts_ipPort s) (ts_nextConnId s)"
    using assms(1) by (fastforce simp: Server_inv_def)
  with assms(1) have ref: "ref < ts_next s" and
    "conn_suffix (ts_ipPort s) (of_nat (ref + 1)) = conn_suffix (ts_ipPort s) (of_nat (ts_next s + 1))"
    by (auto simp: Server_inv_def)
  with assms(1) have "(of_nat (ref + 1) :: 32 word) = of_nat (ts_next s + 1)"
    by (intro conn_suffix_inj) (auto simp: Server_inv_def)
  then have "(ref + 1) mod 2 ^ 32 = (ts_next s + 1) mod 2 ^ 32" 
    unfolding word_of_nat_eq_iff take_bit_eq_mod by simp
  with ref assms(2) show False by simp
qed

section \<open>Properties\<close>

text \<open>
  C30. Round robin. As many calls of \<open>getNextLoop\<close> as there are loops return every loop once, in
  order from the present position, and bring the pool back to it; so after \<open>m\<close> full rounds every
  loop was returned \<open>m\<close> times.
\<close>

theorem round_robin:
  assumes "tp_next p < length (tp_loops p)" and "distinct (tp_loops p)" and "l \<in> set (tp_loops p)"
  shows "next_loops (length (tp_loops p)) p = (rotate (tp_next p) (tp_loops p), p) \<and>
     count_list (fst (next_loops (m * length (tp_loops p)) p)) l = m"
proof -
  let ?n = "length (tp_loops p)"
  note round = next_loops_round [OF assms(1)]
  have once: "count_list (rotate i (tp_loops p)) l = 1" for i
    using assms(2,3) by (simp add: count_distinct)
  have "\<exists>ls. next_loops (m * ?n) p = (ls, p) \<and> count_list ls l = m"
  proof (induction m)
    case (Suc m)
    then obtain ls where "next_loops (m * ?n) p = (ls, p)" and "count_list ls l = m" by auto
    with round once show ?case using next_loops_add [of "?n" "m * ?n" p] by (simp add: add.commute)
  qed simp
  with round show ?thesis by auto
qed

theorem round_robin_witness:
  "count_list (fst (next_loops (4 * 3) (ThreadPool_start (\<lambda>i. 10 + i) (setThreadNum 3 (EventLoopThreadPool_new 0 ''io''))))) 11 = 4"
proof -
  let ?p = "ThreadPool_start (\<lambda>i. 10 + i) (setThreadNum 3 (EventLoopThreadPool_new 0 ''io''))"
  have p: "tp_loops ?p = [10, 11, 12]" "tp_next ?p = 0"
    by (simp_all add: ThreadPool_start_def setThreadNum_def EventLoopThreadPool_new_def numeral_3_eq_3)
  from round_robin [of ?p 11 4] p show ?thesis by simp
qed



end
