(* ===== verification/Http_Server.thy ===== *)
theory Http_Server
  imports Http_Context Http_Router Http_Middleware Http_Session Tcp_Connection
begin

text \<open>
  The HTTP server (\<open>src/net/include/HttpServer.h\<close>, \<open>src/net/src/HttpServer.cpp\<close>): from bytes in a
  connection's input buffer to a response. It composes the parser, the session manager, the
  middleware chain and the router; what it does to the connection are the actions \<open>ConnSend\<close> (the
  bytes of \<open>conn->send(&out)\<close>) and \<open>ConnShutdown\<close>. The clock readings and the random draw of the
  session manager are one record of arguments. A TLS connection object in the connection's context
  is opaque here: \<open>onMessage\<close> hands the bytes to it.
\<close>

section \<open>Server and connection context\<close>

record session_env =
  env_t1 :: int
  env_t2 :: int
  env_rnd :: random_draw

record 'w http_server =
  hs_router :: "'w router"
  hs_middlewares :: "'w middleware list"
  hs_sessionMgr :: bool
  hs_httpCallback :: "'w handler option"
  hs_useTLS :: bool
  hs_tlsCtx :: bool

datatype conn_action = ConnSend string | ConnShutdown

text \<open>What the connection's \<open>std::any\<close> holds.\<close>

datatype conn_context = CtxEmpty | CtxHttp http_context | CtxTls

definition HttpServer_new :: "bool \<Rightarrow> 'w http_server" where
  "HttpServer_new useTLS =
     \<lparr>hs_router = Router_new, hs_middlewares = [], hs_sessionMgr = False, hs_httpCallback = None,
      hs_useTLS = useTLS, hs_tlsCtx = False\<rparr>"

definition HttpServer_start :: "'w http_server \<Rightarrow> cpp_error + unit" where
  "HttpServer_start srv = (if hs_useTLS srv \<and> \<not> hs_tlsCtx srv then Inl LogFatal else Inr ())"

definition HttpServer_Get :: "string \<Rightarrow> 'w handler \<Rightarrow> 'w http_server \<Rightarrow> 'w http_server" where
  "HttpServer_Get path h srv = srv\<lparr>hs_router := registerHandler kGet path h (hs_router srv)\<rparr>"

definition HttpServer_Post :: "string \<Rightarrow> 'w handler \<Rightarrow> 'w http_server \<Rightarrow> 'w http_server" where
  "HttpServer_Post path h srv = srv\<lparr>hs_router := registerHandler kPost path h (hs_router srv)\<rparr>"

definition HttpServer_GetCallback :: "string \<Rightarrow> 'w handler \<Rightarrow> 'w http_server \<Rightarrow> 'w http_server" where
  "HttpServer_GetCallback path h srv = srv\<lparr>hs_router := registerCallback kGet path h (hs_router srv)\<rparr>"

definition HttpServer_PostCallback :: "string \<Rightarrow> 'w handler \<Rightarrow> 'w http_server \<Rightarrow> 'w http_server" where
  "HttpServer_PostCallback path h srv = srv\<lparr>hs_router := registerCallback kPost path h (hs_router srv)\<rparr>"

definition HttpServer_addMiddleware :: "'w middleware \<Rightarrow> 'w http_server \<Rightarrow> 'w http_server" where
  "HttpServer_addMiddleware m srv = srv\<lparr>hs_middlewares := addMiddleware m (hs_middlewares srv)\<rparr>"

section \<open>Answering a request\<close>

text \<open>The bytes of a response in a fresh buffer, and the close when the response asks for it.\<close>

definition respond :: "http_response \<Rightarrow> conn_action list" where
  "respond resp =
     ConnSend (Buffer_contents (appendToBuffer resp (Buffer_new kInitialSize))) #
     (if closeConnection resp then [ConnShutdown] else [])"

definition not_found :: "http_response \<Rightarrow> http_response" where
  "not_found resp =
     Response_setBody ''404 Not Found'' (setContentType ''text/plain; charset=utf-8''
       (setStatusMessage ''Not Found'' (setStatusCode k404NotFound resp)))"

definition handleHttpRequest ::
    "'w http_server \<Rightarrow> session_env \<Rightarrow> http_request \<Rightarrow> 'w \<times> session_world
       \<Rightarrow> cpp_error + conn_action list \<times> 'w \<times> session_world" where
  "handleHttpRequest srv env req st =
     (case st of (w, sw) \<Rightarrow>
        let resp0 = HttpResponse_new (getHeader ''Connection'' req = ''close'');
            (resp1, sw1) = (if hs_sessionMgr srv
                            then (case getSession False (env_t1 env) (env_t2 env) (env_rnd env) req resp0 sw of
                                    (ref, resp', sw') \<Rightarrow> (resp', sw'))
                            else (resp0, sw))
        in case MiddlewareChain_handle (hs_middlewares srv) req resp1 w of
             (False, req1, resp2, w1) \<Rightarrow> Inr (respond resp2, w1, sw1)
           | (True, req1, resp2, w1) \<Rightarrow>
               (case route (hs_router srv) req1 resp2 w1 of
                  Inl e \<Rightarrow> Inl e
                | Inr (True, resp3, w2) \<Rightarrow> Inr (respond resp3, w2, sw1)
                | Inr (False, resp3, w2) \<Rightarrow>
                    (case hs_httpCallback srv of
                       Some cb \<Rightarrow> map_sum id (\<lambda>(resp4, w3). (respond resp4, w3, sw1)) (cb req1 resp3 w2)
                     | None \<Rightarrow> Inr (respond (not_found resp3), w2, sw1))))"

definition bad_request :: http_response where
  "bad_request = setStatusMessage ''Bad Request'' (setStatusCode k400BadRequest (HttpResponse_new False))"

definition onPlainMessage ::
    "'w http_server \<Rightarrow> session_env \<Rightarrow> int \<Rightarrow> conn_context \<Rightarrow> buffer \<Rightarrow> 'w \<times> session_world
       \<Rightarrow> cpp_error + conn_action list \<times> conn_context \<times> buffer \<times> 'w \<times> session_world" where
  "onPlainMessage srv env ts cc buf st =
     (let context = (case cc of CtxHttp ctx \<Rightarrow> ctx | CtxEmpty \<Rightarrow> HttpContext_new | CtxTls \<Rightarrow> HttpContext_new)
      in case parseRequest buf ts context of
           Inl e \<Rightarrow> Inl e
         | Inr (False, ctx, buf') \<Rightarrow>
             Inr ([ConnSend (Buffer_contents (appendToBuffer bad_request (Buffer_new kInitialSize))), ConnShutdown],
                  CtxHttp ctx, buf', st)
         | Inr (True, ctx, buf') \<Rightarrow>
             (if gotAll ctx
              then map_sum id (\<lambda>(acts, st'). (acts, CtxHttp (HttpContext_reset ctx), buf', st'))
                     (handleHttpRequest srv env (hc_request ctx) st)
              else Inr ([], CtxHttp ctx, buf', st)))"

text \<open>\<open>Inl\<close> of the outer sum: the bytes go to the TLS connection.\<close>

definition HttpServer_onMessage ::
    "'w http_server \<Rightarrow> session_env \<Rightarrow> int \<Rightarrow> conn_context \<Rightarrow> buffer \<Rightarrow> 'w \<times> session_world
       \<Rightarrow> unit + (cpp_error + conn_action list \<times> conn_context \<times> buffer \<times> 'w \<times> session_world)" where
  "HttpServer_onMessage srv env ts cc buf st =
     (if hs_useTLS srv \<and> cc = CtxTls then Inl () else Inr (onPlainMessage srv env ts cc buf st))"

definition HttpServer_onConnection :: "'w http_server \<Rightarrow> bool \<Rightarrow> conn_context \<Rightarrow> conn_context" where
  "HttpServer_onConnection srv connected cc =
     (if connected then (if hs_useTLS srv then CtxTls else cc) else CtxEmpty)"

definition getTls :: "conn_context \<Rightarrow> bool" where
  "getTls cc \<longleftrightarrow> cc = CtxTls"

section \<open>Lemmas\<close>

lemma HttpContext_reset_new [simp]: "HttpContext_reset ctx = HttpContext_new"
  by (simp add: HttpContext_reset_def HttpContext_new_def HttpRequest_swap_def)

lemma respond_bytes:
  "length (rs_body r) < 2 ^ 64 \<Longrightarrow>
     respond r = ConnSend (response_bytes r) # (if rs_closeConnection r then [ConnShutdown] else [])"
  by (simp add: respond_def closeConnection_def appendToBuffer_contents wf_intros abs_simps)

text \<open>A server with neither sessions nor middleware hands the request to the router.\<close>

definition plain_server :: "'w http_server \<Rightarrow> bool" where
  "plain_server srv \<longleftrightarrow> \<not> hs_sessionMgr srv \<and> hs_middlewares srv = []"

lemma handle_plain:
  assumes "plain_server srv"
  shows "handleHttpRequest srv env req (w, sw) =
     (case route (hs_router srv) req (HttpResponse_new (getHeader ''Connection'' req = ''close'')) w of
        Inl e \<Rightarrow> Inl e
      | Inr (True, resp, w') \<Rightarrow> Inr (respond resp, w', sw)
      | Inr (False, resp, w') \<Rightarrow>
          (case hs_httpCallback srv of
             Some cb \<Rightarrow> map_sum id (\<lambda>(resp', w''). (respond resp', w'', sw)) (cb req resp w')
           | None \<Rightarrow> Inr (respond (not_found resp), w', sw)))"
  using assms by (simp add: handleHttpRequest_def plain_server_def)

lemma handled_True: "handled r = Inr (b, x) \<Longrightarrow> b"
  by (cases r) (auto simp: handled_def)

lemma route_unhandled: "route rt req resp w = Inr (False, resp', w') \<Longrightarrow> resp' = resp \<and> w' = w"
  by (auto simp: route_def Let_def split: option.splits prod.splits dest: handled_True)

lemma request_run:
  assumes "m \<noteq> kInvalid" and "path_safe path" and "list_all param_safe query"
    and "list_all header_safe hs" and "body_framed m hs body"
    and "Buffer_inv b" and "Buffer_contents b = render_request m path query hs body @ rest"
    and "plain_server srv" and "rt_handlers (hs_router srv) (m, path) = Some h"
    and "h (parsed_request t m path query hs body)
           (HttpResponse_new (map_of (stored_headers hs) ''Connection'' = Some ''close'')) w = Inr (resp, w')"
    and "length (rs_body resp) < 2 ^ 64"
  shows "\<exists>b'. onPlainMessage srv env t CtxEmpty b (w, sw) =
           Inr (ConnSend (response_bytes resp) # (if rs_closeConnection resp then [ConnShutdown] else []),
                CtxHttp HttpContext_new, b', w', sw) \<and>
         Buffer_inv b' \<and> Buffer_contents b' = rest"
proof -
  let ?req = "parsed_request t m path query hs body"
  obtain b' where p: "parseRequest b t HttpContext_new = Inr (True, \<lparr>hc_state = kGotAll, hc_request = ?req\<rparr>, b')"
    and b': "Buffer_inv b'" "Buffer_contents b' = rest"
    using parseRequest_render [OF assms(1-7)] .
  have key: "rq_method ?req = m" "rq_path ?req = path"
    and close: "getHeader ''Connection'' ?req = ''close'' \<longleftrightarrow> map_of (stored_headers hs) ''Connection'' = Some ''close''"
    by (auto simp: parsed_request_def getHeader_def split: option.splits)
  have "route (hs_router srv) ?req (HttpResponse_new (getHeader ''Connection'' ?req = ''close'')) w = Inr (True, resp, w')"
    using assms(9,10) by (simp add: route_def key close handled_def)
  then have "handleHttpRequest srv env ?req (w, sw) = Inr (respond resp, w', sw)"
    by (simp add: handle_plain [OF assms(8)])
  with p b' show ?thesis
    by (simp add: onPlainMessage_def gotAll_def respond_bytes [OF assms(11)])
qed

section \<open>Properties\<close>

text \<open>
  C6. A request is answered. A well-formed request in the input buffer of a connection is parsed,
  given to the handler registered for its method and path with exactly its parts, and answered with
  the bytes of the response the handler made; the connection is shut down exactly when the response
  says so, the parser is ready for the next request, and the bytes behind the request stay in the
  buffer. They stay there also when they are a whole further request: one call answers one request.
\<close>

theorem request_answered:
  assumes "m \<noteq> kInvalid" and "path_safe path" and "list_all param_safe query"
    and "list_all header_safe hs" and "body_framed m hs body"
    and "Buffer_inv b" and "Buffer_contents b = render_request m path query hs body @ rest"
    and "plain_server srv" and "rt_handlers (hs_router srv) (m, path) = Some h"
    and "h (parsed_request t m path query hs body)
           (HttpResponse_new (map_of (stored_headers hs) ''Connection'' = Some ''close'')) w = Inr (resp, w')"
    and "length (rs_body resp) < 2 ^ 64"
  shows "\<exists>b'. onPlainMessage srv env t CtxEmpty b (w, sw) =
           Inr (ConnSend (response_bytes resp) # (if rs_closeConnection resp then [ConnShutdown] else []),
                CtxHttp HttpContext_new, b', w', sw) \<and>
         Buffer_inv b' \<and> Buffer_contents b' = rest"
  by (rule request_run [OF assms])

theorem request_answered_witness:
  "\<exists>b'. onPlainMessage (HttpServer_Get ''/hi'' (\<lambda>q r w. Inr (Response_setBody ''yo'' (setStatusCode k200Ok r), w + 1)) (HttpServer_new False))
       \<lparr>env_t1 = 0, env_t2 = 0, env_rnd = RandBytes []\<rparr> 7 CtxEmpty
       (Buffer_append (render_request kGet ''/hi'' [] [] [] @ render_request kGet ''/hi'' [] [] []) (Buffer_new 0)) (0 :: nat, Session_world_new)
     = Inr ([ConnSend (response_bytes (Response_setBody ''yo'' (setStatusCode k200Ok (HttpResponse_new False))))],
            CtxHttp HttpContext_new, b', 1, Session_world_new) \<and>
     Buffer_contents b' = render_request kGet ''/hi'' [] [] []"
proof -
  let ?h = "\<lambda>(q :: http_request) r (w :: nat). Inr (Response_setBody ''yo'' (setStatusCode k200Ok r), w + 1) :: cpp_error + http_response \<times> nat"
  let ?srv = "HttpServer_Get ''/hi'' ?h (HttpServer_new False)"
  let ?b = "Buffer_append (render_request kGet ''/hi'' [] [] [] @ render_request kGet ''/hi'' [] [] []) (Buffer_new 0)"
  let ?resp = "Response_setBody ''yo'' (setStatusCode k200Ok (HttpResponse_new False))"
  have resp: "rs_closeConnection ?resp = False" "length (rs_body ?resp) < 2 ^ 64"
    by (simp_all add: response_setters HttpResponse_new_def)
  have "plain_server ?srv" "rt_handlers (hs_router ?srv) (kGet, ''/hi'') = Some ?h"
    by (simp_all add: plain_server_def HttpServer_Get_def HttpServer_new_def registerHandler_def)
  from request_answered [of kGet "''/hi''" "[]" "[]" "[]" ?b "render_request kGet ''/hi'' [] [] []" ?srv ?h 7 0 ?resp 1
      "\<lparr>env_t1 = 0, env_t2 = 0, env_rnd = RandBytes []\<rparr>" Session_world_new, OF _ _ _ _ _ _ _ this] resp
  show ?thesis
    by (simp add: path_safe_def body_framed_def stored_headers_def wf_intros abs_simps) blast
qed



end
