(* ===== verification/Queues.thy ===== *)
theory Queues
  imports Prelude
begin

text \<open>
  The queues between threads: \<open>BlockingQueue\<close> (\<open>src/db/include/BlockingQueue.h\<close>), and
  \<open>MPSCLockQueue\<close> and \<open>MPSCAtomicQueue\<close> (\<open>src/logger/MPSCQueue.h\<close>). Each is given twice: its
  operations as functions, which run under a mutex or alone, and the interleavings that matter:
  the wait and notify protocol of the two blocking queues, and the two separate writes of the
  lock-free \<open>enqueue\<close>. The functions of the two blocking queues satisfy one contract,
  \<open>fifo_queue\<close>.
\<close>

section \<open>The contract\<close>

locale fifo_queue =
  fixes inv :: "'q \<Rightarrow> bool"
    and items :: "'q \<Rightarrow> 'a list"
    and push :: "'a \<Rightarrow> 'q \<Rightarrow> 'q"
    and pop :: "'q \<Rightarrow> ('a \<times> 'q) option"
  assumes inv_push: "inv q \<Longrightarrow> inv (push x q)"
    and items_push: "inv q \<Longrightarrow> items (push x q) = items q @ [x]"
    and pop_None: "inv q \<Longrightarrow> pop q = None \<longleftrightarrow> items q = []"
    and pop_Some: "inv q \<Longrightarrow> pop q = Some (x, q') \<Longrightarrow> inv q' \<and> items q = x # items q'"
begin

fun pops :: "nat \<Rightarrow> 'q \<Rightarrow> 'a list \<times> 'q" where
  "pops 0 q = ([], q)"
| "pops (Suc n) q =
     (case pop q of
        None \<Rightarrow> ([], q)
      | Some (x, q1) \<Rightarrow> (case pops n q1 of (xs, q2) \<Rightarrow> (x # xs, q2)))"

lemma push_all: "inv q \<Longrightarrow> inv (fold push xs q) \<and> items (fold push xs q) = items q @ xs"
  by (induction xs arbitrary: q) (simp_all add: inv_push items_push)

lemma pops_items:
  "inv q \<Longrightarrow> fst (pops n q) = take n (items q) \<and> inv (snd (pops n q)) \<and> items (snd (pops n q)) = drop n (items q)"
proof (induction n arbitrary: q)
  case (Suc n)
  show ?case
  proof (cases "pop q")
    case None
    then have "items q = []" using pop_None [OF Suc.prems] by blast
    with None Suc.prems show ?thesis by simp
  next
    case (Some xq)
    then obtain x q1 where xq: "pop q = Some (x, q1)" by (cases xq) auto
    from pop_Some [OF Suc.prems xq] Suc.IH [of q1] xq show ?thesis
      by (auto split: prod.splits)
  qed
qed simp

text \<open>What is pushed comes out in order, behind what was there.\<close>

lemma first_in_first_out:
  "inv q \<Longrightarrow> fst (pops (length (items q) + length xs) (fold push xs q)) = items q @ xs"
  using push_all [of q xs] pops_items [of "fold push xs q"] by simp

end

section \<open>\<open>BlockingQueue\<close>\<close>

record 'a blocking_queue =
  bq_queue :: "'a list"
  bq_stopped :: bool

definition BlockingQueue_new :: "'a blocking_queue" where
  "BlockingQueue_new = \<lparr>bq_queue = [], bq_stopped = False\<rparr>"

definition BlockingQueue_Push :: "'a \<Rightarrow> 'a blocking_queue \<Rightarrow> 'a blocking_queue" where
  "BlockingQueue_Push value q = (if bq_stopped q then q else q\<lparr>bq_queue := bq_queue q @ [value]\<rparr>)"

text \<open>\<open>Pop\<close>: it blocks, returns false on a stopped and empty queue, or delivers a value.\<close>

datatype 'a pop_result = PopBlocks | PopFalse | PopValue 'a

definition BlockingQueue_Pop :: "'a blocking_queue \<Rightarrow> 'a pop_result \<times> 'a blocking_queue" where
  "BlockingQueue_Pop q =
     (case bq_queue q of
        [] \<Rightarrow> (if bq_stopped q then PopFalse else PopBlocks, q)
      | x # xs \<Rightarrow> (PopValue x, q\<lparr>bq_queue := xs\<rparr>))"

definition BlockingQueue_Cancel :: "'a blocking_queue \<Rightarrow> 'a blocking_queue" where
  "BlockingQueue_Cancel q = q\<lparr>bq_stopped := True\<rparr>"

definition BlockingQueue_Empty :: "'a blocking_queue \<Rightarrow> bool" where
  "BlockingQueue_Empty q \<longleftrightarrow> bq_queue q = []"

definition BlockingQueue_Size :: "'a blocking_queue \<Rightarrow> nat" where
  "BlockingQueue_Size q = length (bq_queue q)"

definition bq_take :: "'a blocking_queue \<Rightarrow> ('a \<times> 'a blocking_queue) option" where
  "bq_take q = (case BlockingQueue_Pop q of (PopValue x, q') \<Rightarrow> Some (x, q') | _ \<Rightarrow> None)"

interpretation bq: fifo_queue "\<lambda>q. \<not> bq_stopped q" bq_queue BlockingQueue_Push bq_take
  by unfold_locales (auto simp: BlockingQueue_Push_def bq_take_def BlockingQueue_Pop_def split: list.splits)

section \<open>\<open>MPSCLockQueue\<close>\<close>

record 'a lock_queue =
  lq_prod :: "'a list"
  lq_cons :: "'a list"
  lq_stopped :: bool

definition LockQueue_new :: "'a lock_queue" where
  "LockQueue_new = \<lparr>lq_prod = [], lq_cons = [], lq_stopped = False\<rparr>"

definition LockQueue_Push :: "'a \<Rightarrow> 'a lock_queue \<Rightarrow> 'a lock_queue" where
  "LockQueue_Push value q = q\<lparr>lq_prod := lq_prod q @ [value]\<rparr>"

definition LockQueue_Pop :: "'a lock_queue \<Rightarrow> 'a pop_result \<times> 'a lock_queue" where
  "LockQueue_Pop q =
     (if \<not> (lq_prod q \<noteq> [] \<or> lq_cons q \<noteq> [] \<or> lq_stopped q) then (PopBlocks, q)
      else if lq_prod q = [] \<and> lq_cons q = [] then (PopFalse, q)
      else (let q1 = (if lq_cons q = [] then q\<lparr>lq_prod := lq_cons q, lq_cons := lq_prod q\<rparr> else q)
            in (PopValue (hd (lq_cons q1)), q1\<lparr>lq_cons := tl (lq_cons q1)\<rparr>)))"

definition LockQueue_Stop :: "'a lock_queue \<Rightarrow> 'a lock_queue" where
  "LockQueue_Stop q = q\<lparr>lq_stopped := True\<rparr>"

definition lq_items :: "'a lock_queue \<Rightarrow> 'a list" where
  "lq_items q = lq_cons q @ lq_prod q"

definition lq_take :: "'a lock_queue \<Rightarrow> ('a \<times> 'a lock_queue) option" where
  "lq_take q = (case LockQueue_Pop q of (PopValue x, q') \<Rightarrow> Some (x, q') | _ \<Rightarrow> None)"

interpretation lq: fifo_queue "\<lambda>q. True" lq_items LockQueue_Push lq_take
  by unfold_locales
    (auto simp: LockQueue_Push_def lq_items_def lq_take_def LockQueue_Pop_def Let_def split: if_splits)

section \<open>Waiting and waking\<close>

text \<open>
  A consumer of a blocking queue: outside \<open>Pop\<close>; holding the mutex after its condition was false,
  about to wait; waiting; returned from a \<open>Pop\<close> that gave false. A notification reaches waiting
  consumers only, which then test again. \<open>Push\<close> and \<open>Cancel\<close> take the mutex, so they cannot run
  while a consumer holds it.
\<close>

datatype consumer_pc = CIdle | CTested | CWaiting | CDone

text \<open>
  Any number of threads in \<open>BlockingQueue::Pop\<close>, and \<open>Push\<close> and \<open>Cancel\<close> whose notification, sent
  after the mutex is released, is a step of its own: \<open>bw_one\<close> and \<open>bw_all\<close> count the calls of
  \<open>notify_one\<close> and \<open>notify_all\<close> still to come.
\<close>

record 'a blocking_wait =
  bw_queue :: "'a blocking_queue"
  bw_one :: nat
  bw_all :: nat
  bw_pcs :: "consumer_pc list"

definition wake :: "consumer_pc \<Rightarrow> consumer_pc" where
  "wake pc = (if pc = CWaiting then CIdle else pc)"

definition blocking_init :: "'a blocking_wait \<Rightarrow> bool" where
  "blocking_init s \<longleftrightarrow>
     bw_queue s = BlockingQueue_new \<and> bw_one s = 0 \<and> bw_all s = 0 \<and> set (bw_pcs s) \<subseteq> {CIdle}"

inductive blocking_step :: "'a blocking_wait \<Rightarrow> 'a blocking_wait \<Rightarrow> bool" where
  bw_push: "CTested \<notin> set (bw_pcs s) \<Longrightarrow>
     blocking_step s (s\<lparr>bw_queue := BlockingQueue_Push x (bw_queue s),
                        bw_one := (if bq_stopped (bw_queue s) then bw_one s else Suc (bw_one s))\<rparr>)"
| bw_cancel: "CTested \<notin> set (bw_pcs s) \<Longrightarrow>
     blocking_step s (s\<lparr>bw_queue := BlockingQueue_Cancel (bw_queue s), bw_all := Suc (bw_all s)\<rparr>)"
| bw_notify_one: "0 < bw_one s \<Longrightarrow> i < length (bw_pcs s) \<Longrightarrow> bw_pcs s ! i = CWaiting \<Longrightarrow>
     blocking_step s (s\<lparr>bw_one := bw_one s - 1, bw_pcs := (bw_pcs s)[i := CIdle]\<rparr>)"
| bw_notify_none: "0 < bw_one s \<Longrightarrow> CWaiting \<notin> set (bw_pcs s) \<Longrightarrow>
     blocking_step s (s\<lparr>bw_one := bw_one s - 1\<rparr>)"
| bw_notify_all: "0 < bw_all s \<Longrightarrow>
     blocking_step s (s\<lparr>bw_all := bw_all s - 1, bw_pcs := map wake (bw_pcs s)\<rparr>)"
| bw_test: "CTested \<notin> set (bw_pcs s) \<Longrightarrow> i < length (bw_pcs s) \<Longrightarrow> bw_pcs s ! i = CIdle \<Longrightarrow>
     fst (BlockingQueue_Pop (bw_queue s)) = PopBlocks \<Longrightarrow> blocking_step s (s\<lparr>bw_pcs := (bw_pcs s)[i := CTested]\<rparr>)"
| bw_wait: "i < length (bw_pcs s) \<Longrightarrow> bw_pcs s ! i = CTested \<Longrightarrow>
     blocking_step s (s\<lparr>bw_pcs := (bw_pcs s)[i := CWaiting]\<rparr>)"
| bw_take: "CTested \<notin> set (bw_pcs s) \<Longrightarrow> i < length (bw_pcs s) \<Longrightarrow> bw_pcs s ! i = CIdle \<Longrightarrow>
     BlockingQueue_Pop (bw_queue s) = (PopValue x, q) \<Longrightarrow> blocking_step s (s\<lparr>bw_queue := q\<rparr>)"
| bw_done: "CTested \<notin> set (bw_pcs s) \<Longrightarrow> i < length (bw_pcs s) \<Longrightarrow> bw_pcs s ! i = CIdle \<Longrightarrow>
     fst (BlockingQueue_Pop (bw_queue s)) = PopFalse \<Longrightarrow> blocking_step s (s\<lparr>bw_pcs := (bw_pcs s)[i := CDone]\<rparr>)"

inductive_cases blocking_stepE: "blocking_step s t"

text \<open>The one consumer of \<open>MPSCLockQueue\<close>; \<open>Stop\<close> does not take the mutex.\<close>

record 'a lock_wait =
  lw_queue :: "'a lock_queue"
  lw_all :: nat
  lw_pc :: consumer_pc

definition lock_init :: "'a lock_wait \<Rightarrow> bool" where
  "lock_init s \<longleftrightarrow> s = \<lparr>lw_queue = LockQueue_new, lw_all = 0, lw_pc = CIdle\<rparr>"

inductive lock_step :: "'a lock_wait \<Rightarrow> 'a lock_wait \<Rightarrow> bool" where
  lw_push: "lw_pc s \<noteq> CTested \<Longrightarrow>
     lock_step s (s\<lparr>lw_queue := LockQueue_Push x (lw_queue s), lw_pc := wake (lw_pc s)\<rparr>)"
| lw_stop: "lock_step s (s\<lparr>lw_queue := LockQueue_Stop (lw_queue s), lw_all := Suc (lw_all s)\<rparr>)"
| lw_notify: "0 < lw_all s \<Longrightarrow> lock_step s (s\<lparr>lw_all := lw_all s - 1, lw_pc := wake (lw_pc s)\<rparr>)"
| lw_test: "lw_pc s = CIdle \<Longrightarrow> fst (LockQueue_Pop (lw_queue s)) = PopBlocks \<Longrightarrow>
     lock_step s (s\<lparr>lw_pc := CTested\<rparr>)"
| lw_wait: "lw_pc s = CTested \<Longrightarrow> lock_step s (s\<lparr>lw_pc := CWaiting\<rparr>)"
| lw_take: "lw_pc s = CIdle \<Longrightarrow> LockQueue_Pop (lw_queue s) = (PopValue x, q) \<Longrightarrow>
     lock_step s (s\<lparr>lw_queue := q\<rparr>)"
| lw_done: "lw_pc s = CIdle \<Longrightarrow> fst (LockQueue_Pop (lw_queue s)) = PopFalse \<Longrightarrow>
     lock_step s (s\<lparr>lw_pc := CDone\<rparr>)"

inductive_cases lock_stepE: "lock_step s t"

section \<open>Lemmas: no consumer of a \<open>BlockingQueue\<close> sleeps through a notification\<close>

definition Blocking_inv :: "'a blocking_wait \<Rightarrow> bool" where
  "Blocking_inv s \<longleftrightarrow>
     (CTested \<in> set (bw_pcs s) \<longrightarrow> fst (BlockingQueue_Pop (bw_queue s)) = PopBlocks) \<and>
     (CWaiting \<in> set (bw_pcs s) \<and> bq_queue (bw_queue s) \<noteq> [] \<longrightarrow>
        0 < bw_one s \<or> 0 < bw_all s \<or> CIdle \<in> set (bw_pcs s)) \<and>
     (CWaiting \<in> set (bw_pcs s) \<and> bq_stopped (bw_queue s) \<longrightarrow> 0 < bw_all s)"

lemma pop_blocks_iff: "fst (BlockingQueue_Pop q) = PopBlocks \<longleftrightarrow> bq_queue q = [] \<and> \<not> bq_stopped q"
  by (auto simp: BlockingQueue_Pop_def split: list.splits)

lemma pop_false_iff: "fst (BlockingQueue_Pop q) = PopFalse \<longleftrightarrow> bq_queue q = [] \<and> bq_stopped q"
  by (auto simp: BlockingQueue_Pop_def split: list.splits)

lemma pop_value_keeps: "BlockingQueue_Pop q = (PopValue x, q') \<Longrightarrow> bq_stopped q' = bq_stopped q"
  by (auto simp: BlockingQueue_Pop_def split: list.splits if_splits)

lemma idle_in: "i < length pcs \<Longrightarrow> pcs ! i = pc \<Longrightarrow> pc \<in> set pcs"
  using nth_mem by blast

lemma set_update_in: "x \<in> set (xs[i := y]) \<Longrightarrow> x \<noteq> y \<Longrightarrow> x \<in> set xs"
  using set_update_subset_insert by fastforce

lemma set_update_self: "i < length xs \<Longrightarrow> y \<in> set (xs[i := y])"
  by (simp add: set_update_memI)

lemma wake_simps [simp]: "CWaiting \<notin> wake ` A" "CTested \<in> wake ` A \<longleftrightarrow> CTested \<in> A"
  by (auto simp: wake_def image_iff split: if_splits)

lemma blocking_step_inv: "blocking_step s t \<Longrightarrow> Blocking_inv s \<Longrightarrow> Blocking_inv t"
proof (induction rule: blocking_step.induct)
  case (bw_push s x)
  then show ?case by (auto simp: Blocking_inv_def BlockingQueue_Push_def)
next
  case (bw_cancel s)
  then show ?case by (auto simp: Blocking_inv_def BlockingQueue_Cancel_def)
next
  case (bw_notify_one s i)
  then show ?case
    by (auto simp: Blocking_inv_def pop_blocks_iff set_update_self dest: set_update_in)
next
  case (bw_notify_none s)
  then show ?case by (auto simp: Blocking_inv_def)
next
  case (bw_notify_all s)
  then show ?case by (auto simp: Blocking_inv_def)
next
  case (bw_test s i)
  then show ?case by (auto simp: Blocking_inv_def pop_blocks_iff)
next
  case (bw_wait i s)
  have "CTested \<in> set (bw_pcs s)" by (rule idle_in [OF bw_wait(1,2)])
  with bw_wait show ?case by (auto simp: Blocking_inv_def pop_blocks_iff dest: set_update_in)
next
  case (bw_take s i x q)
  have "CIdle \<in> set (bw_pcs s)" by (rule idle_in [OF bw_take(2,3)])
  with bw_take show ?case by (auto simp: Blocking_inv_def pop_value_keeps)
next
  case (bw_done s i)
  then show ?case by (auto simp: Blocking_inv_def pop_false_iff dest: set_update_in)
qed

interpretation bqw: inductive_invariant blocking_init blocking_step Blocking_inv
  by unfold_locales
    (auto simp: blocking_init_def Blocking_inv_def BlockingQueue_new_def dest: blocking_step_inv)

section \<open>\<open>MPSCAtomicQueue\<close>\<close>

text \<open>
  The linked list of the lock-free queue. A node lives under its address; \<open>aq_pending\<close> holds the
  producers between \<open>tail_.exchange(n)\<close>, which returned \<open>p\<close>, and \<open>p->next.store(n)\<close>, as pairs
  \<open>(p, n)\<close>. Three fields are history: \<open>aq_chain\<close>, the nodes from the head on in the order of the
  exchanges, \<open>aq_log\<close>, the values in that order, and \<open>aq_out\<close>, the values dequeued.
\<close>

record 'a node =
  nd_v :: 'a
  nd_next :: "nat option"

record 'a atomic_queue =
  aq_heap :: "nat \<Rightarrow> 'a node option"
  aq_tail :: nat
  aq_head :: nat
  aq_pending :: "(nat \<times> nat) set"
  aq_chain :: "nat list"
  aq_log :: "'a list"
  aq_out :: "'a list"

definition AtomicQueue_new :: "'a \<Rightarrow> 'a atomic_queue" where
  "AtomicQueue_new v0 =
     \<lparr>aq_heap = [0 \<mapsto> \<lparr>nd_v = v0, nd_next = None\<rparr>], aq_tail = 0, aq_head = 0, aq_pending = {},
      aq_chain = [0], aq_log = [], aq_out = []\<rparr>"

text \<open>\<open>enqueue\<close> up to the exchange (\<open>n\<close> is the address \<open>new\<close> returned), and its second half.\<close>

definition enqueue_exchange :: "'a \<Rightarrow> nat \<Rightarrow> 'a atomic_queue \<Rightarrow> 'a atomic_queue" where
  "enqueue_exchange x n q =
     q\<lparr>aq_heap := (aq_heap q)(n \<mapsto> \<lparr>nd_v = x, nd_next = None\<rparr>), aq_tail := n,
       aq_pending := insert (aq_tail q, n) (aq_pending q),
       aq_chain := aq_chain q @ [n], aq_log := aq_log q @ [x]\<rparr>"

definition enqueue_link :: "nat \<Rightarrow> nat \<Rightarrow> 'a atomic_queue \<Rightarrow> 'a atomic_queue" where
  "enqueue_link p n q =
     q\<lparr>aq_heap := (aq_heap q)(p := map_option (\<lambda>nd. nd\<lparr>nd_next := Some n\<rparr>) (aq_heap q p)),
       aq_pending := aq_pending q - {(p, n)}\<rparr>"

definition enqueue :: "'a \<Rightarrow> nat \<Rightarrow> 'a atomic_queue \<Rightarrow> 'a atomic_queue" where
  "enqueue x n q = enqueue_link (aq_tail q) n (enqueue_exchange x n q)"

definition dequeue :: "'a atomic_queue \<Rightarrow> ('a \<times> 'a atomic_queue) option" where
  "dequeue q =
     (case aq_heap q (aq_head q) of
        None \<Rightarrow> None
      | Some h \<Rightarrow>
          (case nd_next h of
             None \<Rightarrow> None
           | Some next \<Rightarrow>
               (case aq_heap q next of
                  None \<Rightarrow> None
                | Some nd \<Rightarrow>
                    Some (nd_v nd, q\<lparr>aq_heap := (aq_heap q)(aq_head q := None), aq_head := next,
                                     aq_chain := tl (aq_chain q), aq_out := aq_out q @ [nd_v nd]\<rparr>))))"

text \<open>\<open>drain\<close> with at most \<open>max_items\<close> items.\<close>

fun drain :: "nat \<Rightarrow> 'a atomic_queue \<Rightarrow> 'a list \<times> 'a atomic_queue" where
  "drain 0 q = ([], q)"
| "drain (Suc max_items) q =
     (case dequeue q of
        None \<Rightarrow> ([], q)
      | Some (x, q1) \<Rightarrow> (case drain max_items q1 of (xs, q2) \<Rightarrow> (x # xs, q2)))"

text \<open>Any number of producers and one consumer.\<close>

inductive aq_step :: "'a atomic_queue \<Rightarrow> 'a atomic_queue \<Rightarrow> bool" where
  aq_exchange: "aq_heap q n = None \<Longrightarrow> aq_step q (enqueue_exchange x n q)"
| aq_link: "(p, n) \<in> aq_pending q \<Longrightarrow> aq_step q (enqueue_link p n q)"
| aq_dequeue: "dequeue q = Some (x, q') \<Longrightarrow> aq_step q q'"

inductive_cases aq_stepE: "aq_step q t"

text \<open>
  The successor of a chain node is linked, or its producer is still to link it; the nodes in
  memory are those of the chain.
\<close>

fun chain_ok :: "(nat \<Rightarrow> 'a node option) \<Rightarrow> (nat \<times> nat) set \<Rightarrow> nat list \<Rightarrow> bool" where
  "chain_ok h P [] \<longleftrightarrow> False"
| "chain_ok h P [a] \<longleftrightarrow> (\<exists>nd. h a = Some nd \<and> nd_next nd = None) \<and> (\<forall>n. (a, n) \<notin> P)"
| "chain_ok h P (a # b # cs) \<longleftrightarrow>
     (\<exists>nd. h a = Some nd \<and>
        (nd_next nd = Some b \<and> (\<forall>n. (a, n) \<notin> P) \<or> nd_next nd = None \<and> (\<forall>n. (a, n) \<in> P \<longleftrightarrow> n = b))) \<and>
     chain_ok h P (b # cs)"

definition chain_values :: "(nat \<Rightarrow> 'a node option) \<Rightarrow> nat list \<Rightarrow> 'a list" where
  "chain_values h as = map (\<lambda>a. nd_v (the (h a))) as"

definition Atomic_inv :: "'a atomic_queue \<Rightarrow> bool" where
  "Atomic_inv q \<longleftrightarrow>
     chain_ok (aq_heap q) (aq_pending q) (aq_chain q) \<and> distinct (aq_chain q) \<and>
     dom (aq_heap q) = set (aq_chain q) \<and> fst ` aq_pending q \<subseteq> set (aq_chain q) \<and>
     hd (aq_chain q) = aq_head q \<and> last (aq_chain q) = aq_tail q \<and>
     aq_log q = aq_out q @ chain_values (aq_heap q) (tl (aq_chain q))"

section \<open>Lemmas: the lock-free queue\<close>

lemma chain_ok_cong:
  "(\<And>a. a \<in> set cs \<Longrightarrow> h' a = h a) \<Longrightarrow> (\<And>a n. a \<in> set cs \<Longrightarrow> (a, n) \<in> P' \<longleftrightarrow> (a, n) \<in> P) \<Longrightarrow>
     chain_ok h' P' cs \<longleftrightarrow> chain_ok h P cs"
  by (induction h P cs rule: chain_ok.induct) auto

lemma chain_ok_append:
  assumes "chain_ok h P cs" and "distinct (cs @ [n])" and "\<And>m. (n, m) \<notin> P"
    and "\<exists>nd. h' n = Some nd \<and> nd_next nd = None" and "\<And>a. a \<noteq> n \<Longrightarrow> h' a = h a"
    and "P' = insert (last cs, n) P"
  shows "chain_ok h' P' (cs @ [n])"
  using assms
proof (induction h P cs arbitrary: rule: chain_ok.induct)
  case (2 h P a)
  then show ?case by auto
next
  case (3 h P a b cs)
  have "chain_ok h' P' ((b # cs) @ [n])"
    using 3(2-) by (intro 3(1)) auto
  moreover have "a \<noteq> n" "a \<noteq> last (b # cs)" using 3(3) by auto
  moreover from this have "h' a = h a" and "\<And>m. (a, m) \<in> P' \<longleftrightarrow> (a, m) \<in> P" using 3(6,7) by auto
  ultimately show ?case using 3(2) by (simp only: append_Cons chain_ok.simps)
qed simp

lemma chain_ok_link:
  assumes "chain_ok h P cs" and "distinct cs" and "(p, n) \<in> P" and "p \<in> set cs"
    and "h' p = map_option (\<lambda>nd. nd\<lparr>nd_next := Some n\<rparr>) (h p)" and "\<And>a. a \<noteq> p \<Longrightarrow> h' a = h a"
    and "P' = P - {(p, n)}"
  shows "chain_ok h' P' cs"
  using assms
proof (induction h P cs rule: chain_ok.induct)
  case (3 h P a b cs)
  show ?case
  proof (cases "a = p")
    case True
    with 3(2,4) obtain nd where nd: "h a = Some nd" "nd_next nd = None" "n = b" "\<forall>m. (a, m) \<in> P \<longleftrightarrow> m = b" by auto
    have "chain_ok h' P' (b # cs) \<longleftrightarrow> chain_ok h P (b # cs)"
    proof (rule chain_ok_cong)
      fix c assume "c \<in> set (b # cs)"
      then have c: "c \<noteq> p" using 3(3) True by auto
      then show "h' c = h c" by (rule 3(7))
      show "(c, m) \<in> P' \<longleftrightarrow> (c, m) \<in> P" for m using 3(8) c by auto
    qed
    moreover have "h' a = Some (nd\<lparr>nd_next := Some b\<rparr>)" and "\<forall>m. (a, m) \<notin> P'"
      using 3(6,8) True nd by auto
    ultimately show ?thesis using 3(2) by (simp only: chain_ok.simps) simp
  next
    case False
    then have "chain_ok h' P' (b # cs)" using 3(2-) by (intro 3(1)) auto
    moreover have "h' a = h a" and "\<And>m. (a, m) \<in> P' \<longleftrightarrow> (a, m) \<in> P" using 3(7,8) False by auto
    ultimately show ?thesis using 3(2) by (simp only: chain_ok.simps)
  qed
qed auto

lemma chain_values_cong: "(\<And>a. a \<in> set as \<Longrightarrow> nd_v (the (h' a)) = nd_v (the (h a))) \<Longrightarrow> chain_values h' as = chain_values h as"
  by (simp add: chain_values_def)

lemma chain_ok_ne: "chain_ok h P cs \<Longrightarrow> cs \<noteq> []"
  by auto

lemma exchange_inv: "Atomic_inv q \<Longrightarrow> aq_heap q n = None \<Longrightarrow> Atomic_inv (enqueue_exchange x n q)"
proof -
  assume inv: "Atomic_inv q" and n: "aq_heap q n = None"
  let ?cs = "aq_chain q" and ?h = "(aq_heap q)(n \<mapsto> \<lparr>nd_v = x, nd_next = None\<rparr>)"
  from inv n have fresh: "n \<notin> set ?cs" "?cs \<noteq> []" "\<And>m. (n, m) \<notin> aq_pending q"
    by (auto simp: Atomic_inv_def domIff dest: chain_ok_ne) (force simp: domIff)+
  from inv fresh have "chain_ok ?h (insert (aq_tail q, n) (aq_pending q)) (?cs @ [n])"
    by (intro chain_ok_append [of "aq_heap q" "aq_pending q"]) (auto simp: Atomic_inv_def)
  moreover have "chain_values ?h (tl (?cs @ [n])) = chain_values (aq_heap q) (tl ?cs) @ [x]"
    using fresh by (auto simp: chain_values_def dest: list.set_sel(2))
  moreover have "aq_tail q \<in> set ?cs" using inv fresh(2) by (metis Atomic_inv_def last_in_set)
  ultimately show ?thesis using inv fresh by (auto simp: Atomic_inv_def enqueue_exchange_def)
qed

lemma Atomic_invD:
  assumes "Atomic_inv q"
  shows "chain_ok (aq_heap q) (aq_pending q) (aq_chain q)" and "distinct (aq_chain q)"
    and "dom (aq_heap q) = set (aq_chain q)" and "fst ` aq_pending q \<subseteq> set (aq_chain q)"
    and "hd (aq_chain q) = aq_head q" and "last (aq_chain q) = aq_tail q"
    and "aq_log q = aq_out q @ chain_values (aq_heap q) (tl (aq_chain q))"
  using assms by (simp_all add: Atomic_inv_def)

lemma link_inv:
  assumes "Atomic_inv q" and pn: "(p, n) \<in> aq_pending q"
  shows "Atomic_inv (enqueue_link p n q)"
proof -
  note D = Atomic_invD [OF assms(1)]
  let ?h = "(aq_heap q)(p := map_option (\<lambda>nd. nd\<lparr>nd_next := Some n\<rparr>) (aq_heap q p))"
  have p: "p \<in> set (aq_chain q)" using D(4) pn by force
  then obtain nd where nd: "aq_heap q p = Some nd" using D(3) by (metis domD)
  have ok: "chain_ok ?h (aq_pending q - {(p, n)}) (aq_chain q)"
    by (rule chain_ok_link [OF D(1,2) pn p]) simp_all
  have dom: "dom ?h = set (aq_chain q)" using D(3) nd p by auto
  have vals: "chain_values ?h (tl (aq_chain q)) = chain_values (aq_heap q) (tl (aq_chain q))"
    using nd by (intro chain_values_cong) auto
  have "fst ` (aq_pending q - {(p, n)}) \<subseteq> set (aq_chain q)" using D(4) by auto
  with ok dom vals D(2,5,6,7) show ?thesis by (simp add: Atomic_inv_def enqueue_link_def)
qed

lemma dequeue_cases:
  assumes "Atomic_inv q"
  obtains (empty) a where "aq_chain q = [a]" and "dequeue q = None"
  | (hidden) a b cs where "aq_chain q = a # b # cs" and "(a, b) \<in> aq_pending q" and "dequeue q = None"
  | (item) a b cs nd where "aq_chain q = a # b # cs" and "a = aq_head q" and "aq_heap q b = Some nd"
      and "\<forall>n. (a, n) \<notin> aq_pending q"
      and "dequeue q = Some (nd_v nd, q\<lparr>aq_heap := (aq_heap q)(a := None), aq_head := b,
                                 aq_chain := b # cs, aq_out := aq_out q @ [nd_v nd]\<rparr>)"
proof (cases "aq_chain q" rule: remdups_adj.cases)
  case 1
  with assms show ?thesis by (auto simp: Atomic_inv_def)
next
  case (2 a)
  with assms empty show ?thesis by (auto simp: Atomic_inv_def dequeue_def)
next
  case (3 a b cs)
  note D = Atomic_invD [OF assms, unfolded 3]
  have a: "aq_head q = a" using D(5) by simp
  obtain nd where b: "aq_heap q b = Some nd" using D(3) by (metis domD list.set_intros)
  from D(1) obtain h where h: "aq_heap q a = Some h" and
    "nd_next h = Some b \<and> (\<forall>n. (a, n) \<notin> aq_pending q) \<or> nd_next h = None \<and> (\<forall>n. (a, n) \<in> aq_pending q \<longleftrightarrow> n = b)"
    by auto
  then show ?thesis
  proof (elim disjE conjE)
    assume "nd_next h = Some b" and "\<forall>n. (a, n) \<notin> aq_pending q"
    with h a b 3 show ?thesis by (intro item [of a b cs nd]) (simp_all add: dequeue_def)
  next
    assume "nd_next h = None" and "\<forall>n. (a, n) \<in> aq_pending q \<longleftrightarrow> n = b"
    with h a 3 show ?thesis by (intro hidden [of a b cs]) (simp_all add: dequeue_def)
  qed
qed

lemma dequeue_inv:
  assumes "Atomic_inv q" and d: "dequeue q = Some (x, q')"
  shows "Atomic_inv q'"
  using assms(1)
proof (cases rule: dequeue_cases)
  case (item a b cs nd)
  note D = Atomic_invD [OF assms(1), unfolded item(1)]
  have a: "a \<notin> set (b # cs)" using D(2) by simp
  have ok: "chain_ok ((aq_heap q)(a := None)) (aq_pending q) (b # cs)"
  proof -
    have "chain_ok ((aq_heap q)(a := None)) (aq_pending q) (b # cs) \<longleftrightarrow> chain_ok (aq_heap q) (aq_pending q) (b # cs)"
      by (rule chain_ok_cong) (use a in auto)
    then show ?thesis using D(1) by simp
  qed
  have vals: "chain_values ((aq_heap q)(a := None)) cs = chain_values (aq_heap q) cs"
    by (rule chain_values_cong) (use a in auto)
  have pend: "fst ` aq_pending q \<subseteq> set (b # cs)" using D(4) item(4) by force
  have dom: "dom ((aq_heap q)(a := None)) = set (b # cs)" using D(3) a by auto
  have log: "aq_log q = aq_out q @ nd_v nd # chain_values (aq_heap q) cs"
    using D(7) item(3) by (simp add: chain_values_def)
  have "distinct (b # cs)" using D(2) by simp
  moreover have "last (b # cs) = aq_tail q" using D(6) by simp
  moreover have "q' = q\<lparr>aq_heap := (aq_heap q)(a := None), aq_head := b, aq_chain := b # cs, aq_out := aq_out q @ [nd_v nd]\<rparr>"
    using d unfolding item(5) by auto
  ultimately show ?thesis
    using ok vals pend dom log by (simp add: Atomic_inv_def)
qed (use d in simp_all)

interpretation aqi: inductive_invariant "\<lambda>q. \<exists>v0. q = AtomicQueue_new v0" aq_step Atomic_inv
proof
  show "\<exists>v0. q = AtomicQueue_new v0 \<Longrightarrow> Atomic_inv q" for q :: "'a atomic_queue"
    by (auto simp: Atomic_inv_def AtomicQueue_new_def chain_values_def split: if_splits)
  show "Atomic_inv q \<Longrightarrow> aq_step q t \<Longrightarrow> Atomic_inv t" for q t :: "'a atomic_queue"
    by (erule aq_stepE) (auto intro: exchange_inv link_inv dequeue_inv)
qed

lemma drain_dequeues:
  "Atomic_inv q \<Longrightarrow> aq_pending q = {} \<Longrightarrow>
     fst (drain n q) = take n (chain_values (aq_heap q) (tl (aq_chain q)))"
proof (induction n arbitrary: q)
  case (Suc n)
  from Suc.prems(1) show ?case
  proof (cases rule: dequeue_cases)
    case (empty a)
    then show ?thesis by (simp add: chain_values_def)
  next
    case (hidden a b cs)
    then show ?thesis using Suc.prems by simp
  next
    case (item a b cs nd)
    let ?q = "q\<lparr>aq_heap := (aq_heap q)(a := None), aq_head := b, aq_chain := b # cs, aq_out := aq_out q @ [nd_v nd]\<rparr>"
    have inv: "Atomic_inv ?q" by (rule dequeue_inv [OF Suc.prems(1) item(5)])
    have "a \<notin> set cs" using Atomic_invD(2) [OF Suc.prems(1)] item(1) by simp
    then have vals: "chain_values ((aq_heap q)(a := None)) cs = chain_values (aq_heap q) cs"
      by (intro chain_values_cong) auto
    have "fst (drain n ?q) = take n (chain_values (aq_heap q) cs)"
      using Suc.IH [OF inv] Suc.prems(2) by (simp add: vals del: fun_upd_apply)
    then show ?thesis using item(1,3,5) by (simp add: chain_values_def case_prod_unfold)
  qed
qed simp

lemma log_split: "Atomic_inv q \<Longrightarrow> drop (length (aq_out q)) (aq_log q) = chain_values (aq_heap q) (tl (aq_chain q))"
  by (simp add: Atomic_inv_def)

lemma pending_alive: "Atomic_inv q \<Longrightarrow> (p, n) \<in> aq_pending q \<Longrightarrow> aq_heap q p \<noteq> None"
  using Atomic_invD(3,4) [of q] by force

section \<open>Properties\<close>

text \<open>
  C4. The lock-free queue under any interleaving of its producers and its consumer: what was
  dequeued is a prefix of what was enqueued, in the order of the \<open>tail_.exchange\<close> calls; the node a
  producer is about to link to has not been deleted; and when no producer is between its two
  writes, \<open>drain\<close> returns exactly the next items in that order, as many as asked for.
\<close>

theorem atomic_queue_fifo:
  assumes "reachable (\<lambda>q. \<exists>v0. q = AtomicQueue_new v0) aq_step q"
  shows "aq_log q = aq_out q @ drop (length (aq_out q)) (aq_log q) \<and>
         (\<forall>p n. (p, n) \<in> aq_pending q \<longrightarrow> aq_heap q p \<noteq> None) \<and>
         (aq_pending q = {} \<longrightarrow> fst (drain k q) = take k (drop (length (aq_out q)) (aq_log q)))"
proof -
  have inv: "Atomic_inv q" by (rule aqi.reachable_inv [OF assms])
  then have "aq_log q = aq_out q @ drop (length (aq_out q)) (aq_log q)"
    by (simp add: Atomic_inv_def)
  with inv show ?thesis by (auto simp: log_split drain_dequeues dest: pending_alive)
qed

theorem atomic_queue_fifo_witness:
  "fst (drain 5 (enqueue (7::nat) 1 (AtomicQueue_new 0))) = [7]"
proof -
  let ?q0 = "AtomicQueue_new (0::nat)"
  have "reachable (\<lambda>q. \<exists>v0. q = AtomicQueue_new v0) aq_step (enqueue_exchange 7 1 ?q0)"
    by (rule reach_step [OF reach_init]) (auto simp: AtomicQueue_new_def intro: aq_exchange)
  then have "reachable (\<lambda>q. \<exists>v0. q = AtomicQueue_new v0) aq_step (enqueue 7 1 ?q0)"
    unfolding enqueue_def
    by (rule reach_step) (auto simp: AtomicQueue_new_def enqueue_exchange_def intro: aq_link)
  from atomic_queue_fifo [OF this, of 5] show ?thesis
    by (simp add: enqueue_def enqueue_link_def enqueue_exchange_def AtomicQueue_new_def)
qed



text \<open>
  \<open>MPSCLockQueue::Stop\<close> stores its flag without the mutex, so it can fall between the consumer's
  test and its wait: a stopped queue then has its consumer asleep with no notification to come.
\<close>

theorem stop_lost_wakeup:
  "\<exists>s :: 'a lock_wait. reachable lock_init lock_step s \<and> lq_stopped (lw_queue s) \<and> lw_all s = 0 \<and> lw_pc s = CWaiting"
proof -
  let ?q = "LockQueue_new :: 'a lock_queue"
  let ?s = "\<lambda>q n pc. \<lparr>lw_queue = q :: 'a lock_queue, lw_all = n, lw_pc = pc\<rparr>"
  have "reachable lock_init lock_step (?s ?q 0 CIdle)"
    by (rule reach_init) (simp add: lock_init_def)
  moreover have "lock_step (?s ?q 0 CIdle) (?s ?q 0 CTested)"
    using lw_test [of "?s ?q 0 CIdle"] by (simp add: LockQueue_new_def LockQueue_Pop_def)
  moreover have "lock_step (?s ?q 0 CTested) (?s (LockQueue_Stop ?q) 1 CTested)"
    using lw_stop [of "?s ?q 0 CTested"] by simp
  moreover have "lock_step (?s (LockQueue_Stop ?q) 1 CTested) (?s (LockQueue_Stop ?q) 0 CTested)"
    using lw_notify [of "?s (LockQueue_Stop ?q) 1 CTested"] by (simp add: wake_def)
  moreover have "lock_step (?s (LockQueue_Stop ?q) 0 CTested) (?s (LockQueue_Stop ?q) 0 CWaiting)"
    using lw_wait [of "?s (LockQueue_Stop ?q) 0 CTested"] by simp
  ultimately have "reachable lock_init lock_step (?s (LockQueue_Stop ?q) 0 CWaiting)"
    by (blast intro: reach_step)
  then show ?thesis
    by (intro exI [of _ "?s (LockQueue_Stop ?q) 0 CWaiting"]) (simp add: LockQueue_Stop_def)
qed

end
