(* ===== verification/Cpp_Numbers.thy ===== *)
theory Cpp_Numbers
  imports Complex_Main Prelude
begin

text \<open>
  The numbers of the C++ standard library as the order server reads and prints them:
  \<open>std::stoi\<close>, \<open>std::stoll\<close>, \<open>std::stod\<close>, formatted extraction of an unsigned integer, the two
  ways a \<open>double\<close> is written to a stream, and \<open>std::getline\<close> with a separator.

  A finite \<open>double\<close> is the rational number it stands for; \<open>to_double\<close> is the rounding of the
  binary64 format, to nearest with ties to even, subnormal numbers included. Infinities, NaNs and
  the sign of zero are not represented, and neither are the hexadecimal, \<open>inf\<close> and \<open>nan\<close> spellings
  \<open>std::stod\<close> also accepts.
\<close>

section \<open>Signed integers\<close>

definition std_stol :: "nat \<Rightarrow> string \<Rightarrow> cpp_error + int" where
  "std_stol bits s =
     (let t = dropWhile isspace s;
          neg = (case t of c # _ \<Rightarrow> c = CHR ''-'' | [] \<Rightarrow> False);
          u = (case t of c # r \<Rightarrow> if c = CHR ''-'' \<or> c = CHR ''+'' then r else t | [] \<Rightarrow> []);
          ds = takeWhile isdigit u;
          v = (if neg then - int (digits_val 0 ds) else int (digits_val 0 ds))
      in if ds = [] then Inl InvalidArgument
         else if v < - (2 ^ (bits - 1)) \<or> 2 ^ (bits - 1) \<le> v then Inl OutOfRange
         else Inr v)"

abbreviation std_stoi :: "string \<Rightarrow> cpp_error + int" where
  "std_stoi \<equiv> std_stol 32"

abbreviation std_stoll :: "string \<Rightarrow> cpp_error + int" where
  "std_stoll \<equiv> std_stol 64"

text \<open>
  \<open>stream >> x\<close> for a 32-bit unsigned \<open>x\<close>: 0 when there is no number, the largest value when it
  does not fit, and the negated value of a number with a minus sign.
\<close>

definition extract_u32 :: "string \<Rightarrow> nat" where
  "extract_u32 s =
     (let t = dropWhile isspace s;
          neg = (case t of c # _ \<Rightarrow> c = CHR ''-'' | [] \<Rightarrow> False);
          u = (case t of c # r \<Rightarrow> if c = CHR ''-'' \<or> c = CHR ''+'' then r else t | [] \<Rightarrow> []);
          ds = takeWhile isdigit u;
          v = digits_val 0 ds
      in if ds = [] then 0
         else if 2 ^ 32 \<le> v then 2 ^ 32 - 1
         else if neg \<and> 0 < v then 2 ^ 32 - v else v)"

section \<open>The \<open>double\<close> type\<close>

type_synonym double = rat

definition pow2 :: "int \<Rightarrow> rat" where
  "pow2 e = (if 0 \<le> e then 2 ^ nat e else 1 / 2 ^ nat (- e))"

text \<open>The number of binary digits of a natural number.\<close>

fun bit_length :: "nat \<Rightarrow> nat" where
  "bit_length n = (if n = 0 then 0 else Suc (bit_length (n div 2)))"

declare bit_length.simps [simp del]

text \<open>The binary exponent of a positive number: \<open>pow2 e \<le> x < pow2 (e + 1)\<close>.\<close>

definition binary_exponent :: "rat \<Rightarrow> int" where
  "binary_exponent x =
     (let (p, q) = quotient_of x;
          e = int (bit_length (nat p)) - int (bit_length (nat q))
      in if pow2 e \<le> x then e else e - 1)"

definition round_even :: "rat \<Rightarrow> int" where
  "round_even x =
     (let n = \<lfloor>x\<rfloor>; d = x - of_int n
      in if d < 1 / 2 \<or> d = 1 / 2 \<and> even n then n else n + 1)"

definition ulp_exponent :: "rat \<Rightarrow> int" where
  "ulp_exponent x = max (binary_exponent \<bar>x\<bar> - 52) (- 1074)"

definition to_double :: "rat \<Rightarrow> double" where
  "to_double x =
     (if x = 0 then 0
      else (let u = pow2 (ulp_exponent x) in of_int (round_even (x / u)) * u))"

section \<open>Reading a \<open>double\<close>\<close>

text \<open>\<open>std::stod\<close>: digits with an optional point, an optional decimal exponent.\<close>

definition exponent_part :: "string \<Rightarrow> int" where
  "exponent_part s =
     (case s of
        c # r \<Rightarrow>
          if c = CHR ''e'' \<or> c = CHR ''E''
          then (let neg = (case r of d # _ \<Rightarrow> d = CHR ''-'' | [] \<Rightarrow> False);
                    u = (case r of d # v \<Rightarrow> if d = CHR ''-'' \<or> d = CHR ''+'' then v else r | [] \<Rightarrow> []);
                    n = int (digits_val 0 (takeWhile isdigit u))
                in if neg then - n else n)
          else 0
      | [] \<Rightarrow> 0)"

definition pow10 :: "int \<Rightarrow> rat" where
  "pow10 e = (if 0 \<le> e then 10 ^ nat e else 1 / 10 ^ nat (- e))"

definition std_stod :: "string \<Rightarrow> cpp_error + double" where
  "std_stod s =
     (let t = dropWhile isspace s;
          neg = (case t of c # _ \<Rightarrow> c = CHR ''-'' | [] \<Rightarrow> False);
          u = (case t of c # r \<Rightarrow> if c = CHR ''-'' \<or> c = CHR ''+'' then r else t | [] \<Rightarrow> []);
          ip = takeWhile isdigit u;
          r1 = dropWhile isdigit u;
          fp = (case r1 of c # r \<Rightarrow> if c = CHR ''.'' then takeWhile isdigit r else [] | [] \<Rightarrow> []);
          r2 = (case r1 of c # r \<Rightarrow> if c = CHR ''.'' then dropWhile isdigit r else r1 | [] \<Rightarrow> []);
          x = of_nat (digits_val 0 (ip @ fp)) * pow10 (exponent_part r2 - int (length fp));
          d = to_double x
      in if ip = [] \<and> fp = [] then Inl InvalidArgument
         else if pow2 1024 \<le> d \<or> 0 < x \<and> x < pow2 (- 1022) \<and> d \<noteq> x then Inl OutOfRange
         else Inr (if neg then - d else d))"

section \<open>Printing a \<open>double\<close>\<close>

text \<open>\<open>std::fixed << std::setprecision(2)\<close>.\<close>

definition show_fixed2 :: "double \<Rightarrow> string" where
  "show_fixed2 x =
     (let n = nat (round_even (100 * \<bar>x\<bar>))
      in (if x < 0 then ''-'' else []) @ show_nat (n div 100) @ CHR ''.'' #
         [digit_char (n div 10 mod 10), digit_char (n mod 10)])"

text \<open>
  The default format, \<open>%g\<close> with six significant digits: the decimal exponent of the value rounded
  to six digits decides between the plain and the scientific form, and trailing zeros are dropped.
\<close>

definition decimal_exponent :: "rat \<Rightarrow> int" where
  "decimal_exponent x =
     (if 1 \<le> x then int (length (show_nat (nat \<lfloor>x\<rfloor>))) - 1
      else - int (length (show_nat (nat (\<lceil>1 / x\<rceil> - 1)))))"

definition strip_zeros :: "string \<Rightarrow> string" where
  "strip_zeros s =
     (let r = rev (dropWhile (\<lambda>c. c = CHR ''0'') (rev s))
      in if r \<noteq> [] \<and> last r = CHR ''.'' then butlast r else r)"

definition show_exponent :: "int \<Rightarrow> string" where
  "show_exponent e =
     (let n = nat \<bar>e\<bar> in (if e < 0 then ''e-'' else ''e+'') @ (if n < 10 then ''0'' else []) @ show_nat n)"

definition show_general6 :: "double \<Rightarrow> string" where
  "show_general6 x =
     (if x = 0 then ''0''
      else (let e0 = decimal_exponent \<bar>x\<bar>;
                m0 = round_even (\<bar>x\<bar> / pow10 (e0 - 5));
                e = (if m0 = 1000000 then e0 + 1 else e0);
                ds = show_nat (nat (if m0 = 1000000 then 100000 else m0));
                body = (if e < - 4 \<or> 6 \<le> e
                        then strip_zeros (take 1 ds @ CHR ''.'' # drop 1 ds) @ show_exponent e
                        else if 0 \<le> e
                        then strip_zeros (take (nat e + 1) ds @ CHR ''.'' # drop (nat e + 1) ds)
                        else strip_zeros (''0.'' @ replicate (nat (- e) - 1) (CHR ''0'') @ ds))
            in (if x < 0 then ''-'' else []) @ body))"

section \<open>Tokens of a string stream\<close>

text \<open>
  A stream over a string: what is left, and whether it is still good. \<open>std::getline(in, s, d)\<close>
  stores the characters up to the separator; a stream that reached its end fails and leaves the
  string as it was.
\<close>

type_synonym istream = "string \<times> bool"

definition istream_new :: "string \<Rightarrow> istream" where
  "istream_new s = (s, True)"

fun std_getline :: "char \<Rightarrow> istream \<Rightarrow> string \<Rightarrow> string \<times> istream" where
  "std_getline d (s, good) old =
     (if \<not> good then (old, (s, False))
      else (takeWhile (\<lambda>c. c \<noteq> d) s,
            if d \<in> set s then (tl (dropWhile (\<lambda>c. c \<noteq> d) s), True) else ([], False)))"

text \<open>\<open>while (std::getline(in, s, d))\<close>: the tokens the loop sees.\<close>

function getline_tokens :: "char \<Rightarrow> string \<Rightarrow> string list" where
  "getline_tokens d s =
     (if s = [] then []
      else if d \<in> set s
      then takeWhile (\<lambda>c. c \<noteq> d) s # getline_tokens d (tl (dropWhile (\<lambda>c. c \<noteq> d) s))
      else [s])"
  by auto
termination
proof (relation "measure (\<lambda>(d, s). length s)", goal_cases)
  case (2 d s)
  then have "length (dropWhile (\<lambda>c. c \<noteq> d) s) \<le> length s" by (simp add: length_dropWhile_le)
  with 2 show ?case by (cases s) (auto simp: less_Suc_eq_le)
qed simp

declare getline_tokens.simps [simp del]

section \<open>Lemmas: rounding\<close>

lemma pow2_pos [simp]: "0 < pow2 e"
  by (simp add: pow2_def)

lemma pow2_nonzero [simp]: "pow2 e \<noteq> 0"
  using pow2_pos [of e] by linarith

lemma pow2_add: "pow2 (a + b) = pow2 a * pow2 b"
proof -
  have "pow2 e = 2 powi e" for e by (simp add: pow2_def power_int_def inverse_eq_divide power_one_over)
  then show ?thesis by (simp add: power_int_add)
qed

lemma pow2_of_nat: "pow2 (int n) = 2 ^ n"
  by (simp add: pow2_def)

lemma pow2_minus: "pow2 (- e) = 1 / pow2 e"
proof -
  have "pow2 e * pow2 (- e) = 1" by (simp flip: pow2_add) (simp add: pow2_def)
  then show ?thesis by (metis less_numeral_extra(3) nonzero_divide_eq_eq mult.commute pow2_pos)
qed

lemma pow2_mono: "a \<le> b \<Longrightarrow> pow2 a \<le> pow2 b"
proof -
  assume "a \<le> b"
  have "pow2 b = pow2 a * pow2 (int (nat (b - a)))" using \<open>a \<le> b\<close> by (simp flip: pow2_add)
  also have "\<dots> \<ge> pow2 a * 1" by (intro mult_left_mono) (simp_all only: pow2_of_nat, simp_all add: less_imp_le)
  finally show ?thesis by simp
qed

lemma round_even_close:
  assumes "\<bar>x - of_int k\<bar> < 1 / 2"
  shows "round_even x = k"
proof (cases "of_int k \<le> x")
  case True
  with assms have "\<lfloor>x\<rfloor> = k" by (intro floor_unique) auto
  with True assms show ?thesis by (simp add: round_even_def Let_def)
next
  case False
  with assms have "\<lfloor>x\<rfloor> = k - 1" by (intro floor_unique) auto
  with False assms show ?thesis by (simp add: round_even_def Let_def)
qed

lemma round_even_error: "\<bar>of_int (round_even x) - x\<bar> \<le> 1 / 2"
proof -
  let ?n = "\<lfloor>x\<rfloor>"
  have b: "of_int ?n \<le> x" "x < of_int ?n + 1" by linarith+
  show ?thesis
  proof (cases "x - of_int ?n < 1 / 2 \<or> x - of_int ?n = 1 / 2 \<and> even ?n")
    case True
    then have "round_even x = ?n" by (simp add: round_even_def Let_def)
    with True b show ?thesis by (simp only: abs_le_iff) linarith
  next
    case False
    then have "round_even x = ?n + 1" and "1 / 2 \<le> x - of_int ?n" by (auto simp: round_even_def Let_def)
    with b show ?thesis by (simp only: abs_le_iff of_int_add of_int_1) linarith
  qed
qed

lemma bit_length_bounds: "0 < n \<Longrightarrow> 2 ^ (bit_length n - 1) \<le> n \<and> n < 2 ^ bit_length n"
proof (induction n rule: bit_length.induct)
  case (1 n)
  show ?case
  proof (cases "n = 1")
    case False
    with 1 have IH: "2 ^ (bit_length (n div 2) - 1) \<le> n div 2" "n div 2 < 2 ^ bit_length (n div 2)" by auto
    from False 1(2) have "0 < n div 2" by linarith
    then obtain b where b: "bit_length (n div 2) = Suc b" by (subst (asm) bit_length.simps) (auto simp: bit_length.simps)
    with IH 1(2) show ?thesis by (subst (1 2) bit_length.simps) auto
  qed (simp add: bit_length.simps)
qed

lemma binary_exponent_le:
  assumes "0 < x"
  shows "pow2 (binary_exponent x) \<le> x"
proof -
  obtain p q where pq: "quotient_of x = (p, q)" by fastforce
  have q: "0 < q" using quotient_of_denom_pos [OF pq] .
  have x: "x = of_int p / of_int q" by (rule quotient_of_div [OF pq])
  with assms q have p: "0 < p" by (simp add: zero_less_divide_iff)
  let ?e = "int (bit_length (nat p)) - int (bit_length (nat q))"
  have P: "2 ^ (bit_length (nat p) - 1) \<le> nat p" and Q: "nat q < 2 ^ bit_length (nat q)"
    using bit_length_bounds [of "nat p"] bit_length_bounds [of "nat q"] p q by auto
  from P have P': "(2::rat) ^ (bit_length (nat p) - 1) \<le> of_int p" using p by (metis of_nat_le_iff of_nat_numeral of_nat_power of_nat_nat less_imp_le)
  from Q have Q': "of_int q \<le> (2::rat) ^ bit_length (nat q)" using q by (metis of_nat_less_iff of_nat_numeral of_nat_power of_nat_nat less_imp_le)
  have L: "0 < bit_length (nat p)" using p by (subst bit_length.simps) simp
  have "pow2 (?e - 1) = pow2 (int (bit_length (nat p) - 1)) / pow2 (int (bit_length (nat q)))"
  proof -
    have "pow2 (?e - 1) = pow2 (int (bit_length (nat p) - 1) + - int (bit_length (nat q)))"
      using L by (simp add: of_nat_diff algebra_simps)
    then show ?thesis by (simp only: pow2_add pow2_minus) simp
  qed
  also have "\<dots> \<le> x" unfolding x pow2_of_nat using P' Q' p q by (intro frac_le) auto
  finally show ?thesis by (auto simp: binary_exponent_def pq Let_def)
qed

lemma to_double_error:
  assumes "0 < x"
  shows "\<bar>to_double x - x\<bar> \<le> max (x / 2 ^ 53) (pow2 (- 1074))"
proof -
  let ?u = "pow2 (ulp_exponent x)"
  have "to_double x - x = (of_int (round_even (x / ?u)) - x / ?u) * ?u"
    using assms by (simp add: to_double_def Let_def algebra_simps)
  then have "\<bar>to_double x - x\<bar> \<le> 1 / 2 * ?u"
    using round_even_error [of "x / ?u"] by (simp add: abs_mult mult_right_mono less_imp_le)
  also have "\<dots> \<le> max (x / 2 ^ 53) (pow2 (- 1074))"
  proof (cases "binary_exponent x - 52 \<le> - 1074")
    case True
    then have "?u = pow2 (- 1074)" using assms by (simp add: ulp_exponent_def)
    then show ?thesis using pow2_pos [of "- 1074"] by linarith
  next
    case False
    then have "?u = pow2 (binary_exponent x - 52)" using assms by (simp add: ulp_exponent_def)
    also have "\<dots> = pow2 (binary_exponent x) / 2 ^ 52"
      using pow2_add [of "binary_exponent x" "- 52"] pow2_minus [of 52] pow2_of_nat [of 52] by simp
    also have "\<dots> \<le> x / 2 ^ 52" using binary_exponent_le [OF assms] by (intro divide_right_mono) auto
    finally show ?thesis by simp
  qed
  finally show ?thesis .
qed

section \<open>Lemmas: printing and reading back\<close>

text \<open>An amount of money of \<open>k\<close> hundredths, as the nearest \<open>double\<close>.\<close>

definition cents :: "nat \<Rightarrow> double" where
  "cents k = to_double (of_nat k / 100)"

text \<open>Up to here an amount is printed and read back without loss.\<close>

definition max_cents :: nat where
  "max_cents = 10 ^ 15"

lemma show_nat_cons: obtains c cs where "show_nat n = c # cs" and "isdigit c"
  using show_nat_digits [of _ n] by (cases "show_nat n") auto

lemma isdigit_special [simp]: "\<not> isdigit (CHR ''-'')" "\<not> isdigit (CHR ''.'')" "\<not> isdigit (CHR ''|'')"
  by (simp_all add: isdigit_def)

lemma takeWhile_show_nat: "case rest of [] \<Rightarrow> True | c # _ \<Rightarrow> \<not> isdigit c \<Longrightarrow>
     takeWhile isdigit (show_nat n @ rest) = show_nat n \<and> dropWhile isdigit (show_nat n @ rest) = rest"
  using show_nat_digits by (cases rest) (auto simp: takeWhile_append dropWhile_append)

lemma takeWhile_show_nat_all [simp]: "takeWhile isdigit (show_nat n) = show_nat n"
  using takeWhile_show_nat [of "[]" n] by simp

lemma std_stol_show_int:
  assumes "- (2 ^ (bits - 1)) \<le> i" and "i < 2 ^ (bits - 1)"
  shows "std_stol bits (show_int i) = Inr i"
proof (cases "i < 0")
  case True
  with assms show ?thesis
    by (simp add: std_stol_def show_int_def Let_def isspace_def)
next
  case False
  obtain c cs where c: "show_nat (nat i) = c # cs" "isdigit c" by (rule show_nat_cons)
  have "takeWhile isdigit (c # cs) = c # cs" using takeWhile_show_nat_all [of "nat i"] c(1) by simp
  moreover have "digits_val 0 (c # cs) = nat i" using digits_val_show_nat [of "nat i"] c(1) by simp
  ultimately show ?thesis
    using False assms isdigit_not_special [OF c(2)] c
    by (simp add: std_stol_def show_int_def Let_def del: takeWhile_eq_all_conv)
qed

lemma show_int_chars: "c \<in> set (show_int i) \<Longrightarrow> isdigit c \<or> c = CHR ''-''"
  using show_nat_digits by (auto simp: show_int_def split: if_splits)

lemma of_nat_less_pow10: "k < 10 ^ n \<Longrightarrow> (of_nat k :: rat) < 10 ^ n"
  by (metis of_nat_less_iff of_nat_numeral of_nat_power)

lemma cents_close:
  assumes "k < max_cents"
  shows "0 \<le> cents k \<and> \<bar>100 * cents k - of_nat k\<bar> < 1 / 2"
proof (cases "k = 0")
  case False
  let ?x = "of_nat k / 100 :: rat"
  have k: "(1::rat) \<le> of_nat k" "(of_nat k :: rat) < 10 ^ 15"
    using False of_nat_less_pow10 [OF assms [unfolded max_cents_def]] by simp_all
  have "pow2 (- 1074) \<le> pow2 (- 20)" by (rule pow2_mono) simp
  also have "\<dots> = 1 / 1048576" by (simp add: pow2_def)
  finally have p: "pow2 (- 1074) \<le> 1 / 1048576" .
  have "\<bar>to_double ?x - ?x\<bar> \<le> max (?x / 2 ^ 53) (pow2 (- 1074))"
    using k by (intro to_double_error) simp
  moreover have "?x / 2 ^ 53 < 1 / 200" using k by simp
  moreover have "pow2 (- 1074) < 1 / 200" using p by linarith
  ultimately have "\<bar>to_double ?x - ?x\<bar> < 1 / 200" by linarith
  moreover have "1 / 100 \<le> ?x" using k by simp
  ultimately show ?thesis unfolding cents_def abs_less_iff by (simp add: algebra_simps)
qed (simp add: cents_def to_double_def)

lemma show_fixed2_cents:
  assumes "k < max_cents"
  shows "show_fixed2 (cents k) = show_nat (k div 100) @ CHR ''.'' # [digit_char (k div 10 mod 10), digit_char (k mod 10)]"
proof -
  have "round_even (100 * \<bar>cents k\<bar>) = int k"
    using cents_close [OF assms] by (intro round_even_close) simp
  moreover have "\<not> cents k < 0" using cents_close [OF assms] by simp
  ultimately show ?thesis by (simp add: show_fixed2_def Let_def)
qed

lemma std_stod_plain:
  assumes c: "isdigit c" and cs: "\<forall>x\<in>set cs. isdigit x" and f: "\<forall>x\<in>set f. isdigit x"
    and x: "of_nat (digits_val 0 ((c # cs) @ f)) * pow10 (- int (length f)) = x"
    and big: "\<not> pow2 1024 \<le> to_double x" and small: "x = 0 \<or> \<not> x < pow2 (- 1022)"
  shows "std_stod ((c # cs) @ CHR ''.'' # f) = Inr (to_double x)"
proof -
  define s where "s = (c # cs) @ CHR ''.'' # f"
  have num: "takeWhile isdigit s = c # cs" "dropWhile isdigit s = CHR ''.'' # f"
    using c cs unfolding s_def by (simp_all add: takeWhile_append dropWhile_append)
  have frac: "takeWhile isdigit f = f" "dropWhile isdigit f = []"
    using f by (simp_all add: takeWhile_eq_all_conv dropWhile_eq_Nil_conv)
  have sign: "dropWhile isspace s = s" "(case s of c # _ \<Rightarrow> c = CHR ''-'' | [] \<Rightarrow> False) = False"
    "(case s of c # r \<Rightarrow> if c = CHR ''-'' \<or> c = CHR ''+'' then r else s | [] \<Rightarrow> []) = s"
    using isdigit_not_special [OF c] by (simp_all add: s_def)
  have e: "exponent_part [] - int (length f) = - int (length f)" by (simp add: exponent_part_def)
  have "\<not> (0 < x \<and> x < pow2 (- 1022) \<and> to_double x \<noteq> x)" using small by auto
  then show ?thesis
    unfolding s_def [symmetric] std_stod_def Let_def
    using big by (simp only: sign num frac list.case if_True if_False e x simp_thms append_is_Nil_conv list.distinct)
qed

lemma std_stod_show_fixed2:
  assumes "k < max_cents"
  shows "std_stod (show_fixed2 (cents k)) = Inr (cents k)"
proof -
  let ?f = "[digit_char (k div 10 mod 10), digit_char (k mod 10)]"
  obtain c cs where c: "show_nat (k div 100) = c # cs" "isdigit c" by (rule show_nat_cons)
  have v: "digits_val 0 ((c # cs) @ ?f) = k"
  proof -
    have "10 * (10 * (k div 100) + k div 10 mod 10) + k mod 10 = k"
      using mult_div_mod_eq [of 10 k] mult_div_mod_eq [of 10 "k div 10"] div_mult2_eq [of k 10 10] by simp
    then show ?thesis by (simp only: digits_val_append c(1) [symmetric] digits_val_show_nat) simp
  qed
  have close: "\<bar>100 * cents k - of_nat k\<bar> < 1 / 2" using cents_close [OF assms] by simp
  have k: "(of_nat k :: rat) < 10 ^ 15" by (rule of_nat_less_pow10 [OF assms [unfolded max_cents_def]])
  have "pow2 64 \<le> pow2 1024" by (rule pow2_mono) simp
  moreover have "pow2 64 = 2 ^ 64" by (simp add: pow2_def)
  ultimately have big: "2 ^ 64 \<le> pow2 1024" by simp
  have "pow2 (- 1022) \<le> pow2 (- 20)" by (rule pow2_mono) simp
  moreover have "pow2 (- 20) = 1 / 1048576" by (simp add: pow2_def)
  ultimately have small: "pow2 (- 1022) \<le> 1 / 1048576" by simp
  have "(of_nat k :: rat) < 1000000000000000" using k by simp
  with close have "cents k < 1000000000000000" unfolding abs_less_iff by linarith
  then have "cents k < 2 ^ 64" by simp
  then have "\<not> pow2 1024 \<le> cents k" using big by linarith
  moreover have "k = 0 \<or> \<not> (of_nat k :: rat) / 100 < pow2 (- 1022)"
  proof (cases "k = 0")
    case False
    then have "(1::rat) \<le> of_nat k" by simp
    then show ?thesis using small by linarith
  qed simp
  moreover have "of_nat (digits_val 0 ((c # cs) @ ?f)) * pow10 (- int (length ?f)) = of_nat k / 100"
    unfolding v by (simp add: pow10_def)
  moreover have "\<forall>x\<in>set cs. isdigit x" using show_nat_digits [of _ "k div 100"] c(1) by simp
  ultimately have "std_stod ((c # cs) @ CHR ''.'' # ?f) = Inr (cents k)"
    unfolding cents_def by (intro std_stod_plain c) auto
  then show ?thesis unfolding show_fixed2_cents [OF assms] c(1) .
qed

lemma show_fixed2_chars: "k < max_cents \<Longrightarrow> c \<in> set (show_fixed2 (cents k)) \<Longrightarrow> isdigit c \<or> c = CHR ''.''"
  using show_nat_digits by (auto simp: show_fixed2_cents)

section \<open>Lemmas: tokens\<close>

lemma getline_token: "d \<notin> set t \<Longrightarrow> std_getline d (t @ d # r, True) old = (t, (r, True))"
  by (induction t) auto

lemma getline_last: "d \<notin> set t \<Longrightarrow> std_getline d (t, True) old = (t, ([], False))"
  by (induction t) auto

lemma getline_tokens_sep:
  "t \<noteq> [] \<Longrightarrow> d \<notin> set t \<Longrightarrow> getline_tokens d (t @ d # r) = t # getline_tokens d r"
proof -
  assume t: "t \<noteq> []" "d \<notin> set t"
  have "takeWhile (\<lambda>c. c \<noteq> d) (t @ d # r) = t" "dropWhile (\<lambda>c. c \<noteq> d) (t @ d # r) = d # r"
    using t(2) by (induction t) auto
  with t show ?thesis by (subst getline_tokens.simps) simp
qed

lemma getline_tokens_one: "t \<noteq> [] \<Longrightarrow> d \<notin> set t \<Longrightarrow> getline_tokens d t = [t]"
  by (subst getline_tokens.simps) simp

section \<open>Lemmas: whole numbers in the default format\<close>

lemma show_nat_pow10: "0 < n \<Longrightarrow> show_nat (n * 10 ^ j) = show_nat n @ replicate j (CHR ''0'')"
proof (induction j)
  case (Suc j)
  have "\<not> n * 10 ^ Suc j < 10" "n * 10 ^ Suc j div 10 = n * 10 ^ j" "n * 10 ^ Suc j mod 10 = 0"
    using Suc.prems by (simp_all add: not_less)
  then have "show_nat (n * 10 ^ Suc j) = show_nat (n * 10 ^ j) @ [digit_char 0]"
    by (subst show_nat.simps) simp
  also have "digit_char 0 = CHR ''0''" by code_simp
  finally show ?case using Suc by (simp add: replicate_append_same)
qed simp

lemma length_show_nat_exact: "0 < n \<Longrightarrow> 10 ^ (length (show_nat n) - 1) \<le> n \<and> n < 10 ^ length (show_nat n)"
proof (induction n rule: show_nat.induct)
  case (1 n)
  show ?case
  proof (cases "n < 10")
    case True
    with 1 show ?thesis by (subst (1 2) show_nat.simps) simp
  next
    case False
    define l where "l = length (show_nat (n div 10))"
    have l: "length (show_nat n) = Suc l" using False by (subst show_nat.simps) (simp add: l_def)
    have "10 ^ (l - 1) \<le> n div 10 \<and> n div 10 < 10 ^ l" using 1 False unfolding l_def by simp
    moreover have "0 < l" unfolding l_def using show_nat.simps [of "n div 10"] by (metis length_greater_0_conv append_is_Nil_conv list.distinct(1))
    ultimately have "10 ^ l \<le> n \<and> n < 10 ^ Suc l" by (cases l) auto
    then show ?thesis by (simp add: l)
  qed
qed

lemma round_even_int [simp]: "round_even (of_int i) = i"
  by (simp add: round_even_def)

lemma to_double_nat:
  assumes "n < 2 ^ 53"
  shows "to_double (of_nat n) = of_nat n"
proof (cases "n = 0")
  case False
  define u where "u = ulp_exponent (of_nat n)"
  have "binary_exponent (of_nat n) \<le> 52"
  proof (rule ccontr)
    assume "\<not> binary_exponent (of_nat n) \<le> 52"
    then have "pow2 (int 53) \<le> pow2 (binary_exponent (of_nat n))" by (intro pow2_mono) simp
    also have "\<dots> \<le> of_nat n" using False by (intro binary_exponent_le) simp
    finally have "(of_nat (2 ^ 53) :: rat) \<le> of_nat n" unfolding pow2_of_nat of_nat_power by simp
    with assms show False by (simp only: of_nat_le_iff)
  qed
  then have "u \<le> 0" by (simp add: u_def ulp_exponent_def)
  then have "of_nat n / pow2 u = (of_int (int n * 2 ^ nat (- u)) :: rat)"
    by (simp add: pow2_def)
  then show ?thesis using False
    by (simp only: to_double_def Let_def u_def [symmetric] round_even_int) (simp add: field_simps)
qed (simp add: to_double_def)

lemma strip_zeros_point: "s \<noteq> [] \<Longrightarrow> strip_zeros (s @ CHR ''.'' # replicate k (CHR ''0'')) = s"
  by (simp add: strip_zeros_def dropWhile_append)

lemma show_general6_nat:
  assumes "0 < n" and "n < 10 ^ 6"
  shows "show_general6 (of_nat n) = show_nat n"
proof -
  define l where "l = length (show_nat n)"
  have l: "0 < l" "10 ^ (l - 1) \<le> n" "n < 10 ^ l"
    using length_show_nat_exact [OF assms(1)] assms(1) unfolding l_def by auto
  have "10 ^ (l - 1) < (10 :: nat) ^ 6" using l(2) assms(2) by linarith
  then have l6: "l \<le> 6" using power_less_imp_less_exp [of "10 :: nat" "l - 1" 6] by simp
  have e0: "decimal_exponent (of_nat n) = int l - 1"
    using assms(1) by (simp add: decimal_exponent_def l_def)
  define j where "j = 6 - l"
  have j: "of_nat n / pow10 (int l - 1 - 5) = (of_int (int (n * 10 ^ j)) :: rat)"
    using l6 l(1) by (simp add: pow10_def j_def of_nat_diff nat_diff_distrib)
  have "n * 10 ^ j < 10 ^ l * 10 ^ j" using l(3) by simp
  also have "\<dots> = 10 ^ 6" using l6 by (simp add: j_def flip: power_add)
  finally have small: "n * 10 ^ j < 10 ^ 6" .
  have ds: "show_nat (n * 10 ^ j) = show_nat n @ replicate j (CHR ''0'')" by (rule show_nat_pow10 [OF assms(1)])
  have m0: "round_even (of_nat n / pow10 (int l - 1 - 5)) = int (n * 10 ^ j)" unfolding j by (rule round_even_int)
  have facts: "(of_nat n = (0 :: rat)) = False" "(int (n * 10 ^ j) = 1000000) = False" "(int l - 1 < - 4 \<or> 6 \<le> int l - 1) = False"
      "(0 \<le> int l - 1) = True" "((of_nat n :: rat) < 0) = False" "\<bar>of_nat n :: rat\<bar> = of_nat n"
    using assms(1) l6 l(1) small by (auto simp del: of_nat_mult of_nat_power)
  have "show_general6 (of_nat n) = strip_zeros (take (nat (int l - 1) + 1) (show_nat (n * 10 ^ j)) @ CHR ''.'' # drop (nat (int l - 1) + 1) (show_nat (n * 10 ^ j)))"
    unfolding show_general6_def Let_def by (simp only: facts e0 m0 if_False if_True nat_int append_Nil)
  also have "nat (int l - 1) + 1 = l" using l(1) by simp
  finally show ?thesis unfolding ds l_def using l(1) by (simp add: strip_zeros_point l_def)
qed

lemma std_stod_show_nat:
  assumes "n < 2 ^ 53"
  shows "std_stod (show_nat n) = Inr (of_nat n)"
proof -
  obtain c cs where s: "show_nat n = c # cs" and c: "isdigit c" by (rule show_nat_cons)
  have sign: "dropWhile isspace (show_nat n) = show_nat n" "(case show_nat n of c # _ \<Rightarrow> c = CHR ''-'' | [] \<Rightarrow> False) = False"
    "(case show_nat n of c # r \<Rightarrow> if c = CHR ''-'' \<or> c = CHR ''+'' then r else show_nat n | [] \<Rightarrow> []) = show_nat n"
    using isdigit_not_special [OF c] by (simp_all add: s)
  have num: "dropWhile isdigit (show_nat n) = []"
    using show_nat_digits by (simp add: dropWhile_eq_Nil_conv)
  have x: "of_nat (digits_val 0 (show_nat n @ [])) * pow10 (exponent_part [] - int (length [])) = (of_nat n :: rat)"
    by (simp add: exponent_part_def pow10_def)
  have "(of_nat n :: rat) < of_nat (2 ^ 53)" using assms by (simp only: of_nat_less_iff)
  also have "\<dots> \<le> pow2 1024" using pow2_mono [of "int 53" 1024] unfolding pow2_of_nat of_nat_power by simp
  finally have big: "(pow2 1024 \<le> (of_nat n :: rat)) = False" by simp
  show ?thesis
    unfolding std_stod_def Let_def
    by (simp only: sign num takeWhile_show_nat_all list.case if_True if_False x to_double_nat [OF assms] big simp_thms append_is_Nil_conv show_nat_nonempty)
qed

end
