(* ===== verification/Order_Model.thy ===== *)
theory Order_Model
  imports Cpp_Numbers
begin

text \<open>
  The order as a record (\<open>OrderRepository::OrderRecord\<close>) and as an entity with its state machine
  (\<open>domain/OrderEntity\<close>). A time point counts the nanoseconds since the epoch; an operation that
  reads the clock has the reading as its argument \<open>now\<close>.
\<close>

section \<open>Status\<close>

text \<open>
  The enumeration has an 8-bit type: a cast can also give it a value without a name.
\<close>

datatype order_status =
    kPending | kProcessing | kReserved | kPaid | kCompleted | kCancelled | kFailed
  | kUnnamed nat

fun status_int :: "order_status \<Rightarrow> int" where
  "status_int kPending = 0"
| "status_int kProcessing = 1"
| "status_int kReserved = 2"
| "status_int kPaid = 3"
| "status_int kCompleted = 4"
| "status_int kCancelled = 5"
| "status_int kFailed = 6"
| "status_int (kUnnamed n) = int n"

text \<open>\<open>static_cast<OrderStatus>\<close> of an \<open>int\<close>.\<close>

definition status_of_int :: "int \<Rightarrow> order_status" where
  "status_of_int i =
     (let n = nat (i mod 256)
      in if n = 0 then kPending
         else if n = 1 then kProcessing
         else if n = 2 then kReserved
         else if n = 3 then kPaid
         else if n = 4 then kCompleted
         else if n = 5 then kCancelled
         else if n = 6 then kFailed
         else kUnnamed n)"

fun status_named :: "order_status \<Rightarrow> bool" where
  "status_named (kUnnamed n) = False"
| "status_named _ = True"

definition ToString :: "order_status \<Rightarrow> string" where
  "ToString s =
     (case s of
        kPending \<Rightarrow> ''Pending''
      | kProcessing \<Rightarrow> ''Processing''
      | kReserved \<Rightarrow> ''Reserved''
      | kPaid \<Rightarrow> ''Paid''
      | kCompleted \<Rightarrow> ''Completed''
      | kCancelled \<Rightarrow> ''Cancelled''
      | kFailed \<Rightarrow> ''Failed''
      | kUnnamed n \<Rightarrow> ''Unknown'')"

definition OrderStatusFromString :: "string \<Rightarrow> order_status" where
  "OrderStatusFromString s =
     (if s = ''Pending'' then kPending
      else if s = ''Processing'' then kProcessing
      else if s = ''Reserved'' then kReserved
      else if s = ''Paid'' then kPaid
      else if s = ''Completed'' then kCompleted
      else if s = ''Cancelled'' then kCancelled
      else if s = ''Failed'' then kFailed
      else kPending)"

section \<open>The record\<close>

record order_record =
  or_orderId :: string
  or_userId :: string
  or_productId :: string
  or_quantity :: "32 word"
  or_totalAmount :: double
  or_currency :: string
  or_status :: order_status
  or_statusReason :: string
  or_payloadJson :: string
  or_createdAt :: int
  or_updatedAt :: int

definition OrderRecord_new :: order_record where
  "OrderRecord_new =
     \<lparr>or_orderId = [], or_userId = [], or_productId = [], or_quantity = 1, or_totalAmount = 0,
      or_currency = ''CNY'', or_status = kPending, or_statusReason = [], or_payloadJson = [],
      or_createdAt = 0, or_updatedAt = 0\<rparr>"

text \<open>
  \<open>duration_cast<seconds>\<close> rounds toward zero; \<open>Clock::time_point{seconds(s)}\<close> is its inverse on
  whole seconds.
\<close>

definition to_seconds :: "int \<Rightarrow> int" where
  "to_seconds t = (if 0 \<le> t then t div 1000000000 else - ((- t) div 1000000000))"

definition from_seconds :: "int \<Rightarrow> int" where
  "from_seconds s = s * 1000000000"

section \<open>The entity\<close>

record order_entity =
  oe_orderId :: string
  oe_userId :: string
  oe_productId :: string
  oe_quantity :: "32 word"
  oe_totalAmount :: double
  oe_currency :: string
  oe_payloadJson :: string
  oe_status :: order_status
  oe_statusReason :: string
  oe_paidAmount :: "double option"
  oe_paidAt :: "int option"
  oe_createdAt :: int
  oe_updatedAt :: int

definition OrderEntity_new :: order_entity where
  "OrderEntity_new =
     \<lparr>oe_orderId = [], oe_userId = [], oe_productId = [], oe_quantity = 1, oe_totalAmount = 0,
      oe_currency = ''CNY'', oe_payloadJson = [], oe_status = kPending, oe_statusReason = [],
      oe_paidAmount = None, oe_paidAt = None, oe_createdAt = 0, oe_updatedAt = 0\<rparr>"

definition FromRecord :: "order_record \<Rightarrow> order_entity" where
  "FromRecord r =
     \<lparr>oe_orderId = or_orderId r, oe_userId = or_userId r, oe_productId = or_productId r,
      oe_quantity = or_quantity r, oe_totalAmount = or_totalAmount r, oe_currency = or_currency r,
      oe_payloadJson = or_payloadJson r, oe_status = or_status r, oe_statusReason = or_statusReason r,
      oe_paidAmount = None, oe_paidAt = None, oe_createdAt = or_createdAt r, oe_updatedAt = or_updatedAt r\<rparr>"

definition ToRecord :: "order_entity \<Rightarrow> order_record" where
  "ToRecord e =
     \<lparr>or_orderId = oe_orderId e, or_userId = oe_userId e, or_productId = oe_productId e,
      or_quantity = oe_quantity e, or_totalAmount = oe_totalAmount e, or_currency = oe_currency e,
      or_status = oe_status e, or_statusReason = oe_statusReason e, or_payloadJson = oe_payloadJson e,
      or_createdAt = oe_createdAt e, or_updatedAt = oe_updatedAt e\<rparr>"

definition Entity_Touch :: "int \<Rightarrow> order_entity \<Rightarrow> order_entity" where
  "Entity_Touch ts e = e\<lparr>oe_updatedAt := ts\<rparr>"

definition SetIdentifiers :: "int \<Rightarrow> string \<Rightarrow> string \<Rightarrow> string \<Rightarrow> order_entity \<Rightarrow> order_entity" where
  "SetIdentifiers now oid uid pid e =
     Entity_Touch now (e\<lparr>oe_orderId := oid, oe_userId := uid, oe_productId := pid\<rparr>)"

definition SetQuantity :: "int \<Rightarrow> 32 word \<Rightarrow> order_entity \<Rightarrow> order_entity" where
  "SetQuantity now q e = Entity_Touch now (e\<lparr>oe_quantity := q\<rparr>)"

definition SetTotalAmount :: "int \<Rightarrow> double \<Rightarrow> order_entity \<Rightarrow> order_entity" where
  "SetTotalAmount now amount e = Entity_Touch now (e\<lparr>oe_totalAmount := amount\<rparr>)"

definition SetCurrency :: "int \<Rightarrow> string \<Rightarrow> order_entity \<Rightarrow> order_entity" where
  "SetCurrency now currency e = Entity_Touch now (e\<lparr>oe_currency := currency\<rparr>)"

definition SetPayload :: "int \<Rightarrow> string \<Rightarrow> order_entity \<Rightarrow> order_entity" where
  "SetPayload now payload e = Entity_Touch now (e\<lparr>oe_payloadJson := payload\<rparr>)"

definition SetCreatedAt :: "int \<Rightarrow> order_entity \<Rightarrow> order_entity" where
  "SetCreatedAt ts e = e\<lparr>oe_createdAt := ts, oe_updatedAt := ts\<rparr>"

definition setStatus :: "int \<Rightarrow> order_status \<Rightarrow> string \<Rightarrow> order_entity \<Rightarrow> order_entity" where
  "setStatus now status reason e =
     e\<lparr>oe_status := status, oe_statusReason := reason, oe_updatedAt := now\<rparr>"

definition MarkPending :: "int \<Rightarrow> string \<Rightarrow> order_entity \<Rightarrow> order_entity" where
  "MarkPending now reason = setStatus now kPending reason"

definition MarkProcessing :: "int \<Rightarrow> string \<Rightarrow> order_entity \<Rightarrow> order_entity" where
  "MarkProcessing now reason = setStatus now kProcessing reason"

definition MarkReserved :: "int \<Rightarrow> string \<Rightarrow> order_entity \<Rightarrow> order_entity" where
  "MarkReserved now reason = setStatus now kReserved reason"

definition MarkPaid :: "int \<Rightarrow> double \<Rightarrow> int \<Rightarrow> string \<Rightarrow> order_entity \<Rightarrow> order_entity" where
  "MarkPaid now amount paidAt reason e =
     setStatus now kPaid reason (e\<lparr>oe_paidAmount := Some amount, oe_paidAt := Some paidAt\<rparr>)"

definition MarkCompleted :: "int \<Rightarrow> string \<Rightarrow> order_entity \<Rightarrow> order_entity" where
  "MarkCompleted now reason = setStatus now kCompleted reason"

definition MarkCancelled :: "int \<Rightarrow> string \<Rightarrow> order_entity \<Rightarrow> order_entity" where
  "MarkCancelled now reason = setStatus now kCancelled reason"

definition MarkFailed :: "int \<Rightarrow> string \<Rightarrow> order_entity \<Rightarrow> order_entity" where
  "MarkFailed now reason = setStatus now kFailed reason"

definition IsPending :: "order_entity \<Rightarrow> bool" where
  "IsPending e \<longleftrightarrow> oe_status e = kPending"

definition IsReservable :: "order_entity \<Rightarrow> bool" where
  "IsReservable e \<longleftrightarrow> oe_status e = kPending \<or> oe_status e = kProcessing"

definition IsTerminal :: "order_entity \<Rightarrow> bool" where
  "IsTerminal e \<longleftrightarrow> oe_status e \<in> {kCompleted, kCancelled, kFailed}"

section \<open>Lemmas\<close>

lemma status_string_roundtrip [simp]: "status_named s \<Longrightarrow> OrderStatusFromString (ToString s) = s"
  by (cases s) (simp_all add: OrderStatusFromString_def ToString_def)

lemma status_of_int_roundtrip [simp]: "status_named s \<Longrightarrow> status_of_int (status_int s) = s"
  by (cases s) (simp_all add: status_of_int_def)

lemma status_int_range: "status_named s \<Longrightarrow> 0 \<le> status_int s \<and> status_int s \<le> 6"
  by (cases s) simp_all

lemma seconds_roundtrip [simp]: "to_seconds (from_seconds s) = s"
  by (auto simp: to_seconds_def from_seconds_def simp flip: mult_minus_left)

text \<open>An entity carries a record without loss; only the payment fields of an entity are not stored.\<close>

lemma ToRecord_FromRecord [simp]: "ToRecord (FromRecord r) = r"
  by (simp add: ToRecord_def FromRecord_def)

lemma FromRecord_ToRecord:
  "FromRecord (ToRecord e) = e\<lparr>oe_paidAmount := None, oe_paidAt := None\<rparr>"
  by (simp add: ToRecord_def FromRecord_def)

end
