(* ===== verification/Effects.thy ===== *)
theory Effects
  imports Prelude
begin

text \<open>
  Code that threads a state, throws and may wait for ever: a program maps a state to an outcome.
  A thrown exception keeps the state reached, so that a handler and the destructors run in it;
  \<open>Blocks\<close> is a call that does not come back, such as a wait no other thread ends.
\<close>

datatype ('a, 's) outcome = Returns 'a 's | Throws cpp_error 's | Blocks

type_synonym ('a, 's) prog = "'s \<Rightarrow> ('a, 's) outcome"

definition ret :: "'a \<Rightarrow> ('a, 's) prog" where
  "ret x s = Returns x s"

definition throw :: "cpp_error \<Rightarrow> ('a, 's) prog" where
  "throw e s = Throws e s"

definition andThen :: "('a, 's) prog \<Rightarrow> ('a \<Rightarrow> ('b, 's) prog) \<Rightarrow> ('b, 's) prog" where
  "andThen m f s =
     (case m s of
        Returns x t \<Rightarrow> f x t
      | Throws e t \<Rightarrow> Throws e t
      | Blocks \<Rightarrow> Blocks)"

text \<open>What \<open>catch (const std::exception&)\<close> catches: not an abort and not undefined behaviour.\<close>

fun is_exception :: "cpp_error \<Rightarrow> bool" where
  "is_exception LogFatal = False"
| "is_exception OutOfBounds = False"
| "is_exception NullDeref = False"
| "is_exception NeverReturns = False"
| "is_exception _ = True"

definition tryCatch :: "('a, 's) prog \<Rightarrow> ('a, 's) prog \<Rightarrow> ('a, 's) prog" where
  "tryCatch m h s =
     (case m s of
        Throws e t \<Rightarrow> (if is_exception e then h t else Throws e t)
      | r \<Rightarrow> r)"

definition from_sum :: "cpp_error + 'a \<Rightarrow> ('a, 's) prog" where
  "from_sum r = (case r of Inl e \<Rightarrow> throw e | Inr x \<Rightarrow> ret x)"

text \<open>The state a program leaves, when it comes back.\<close>

fun final_state :: "('a, 's) outcome \<Rightarrow> 's option" where
  "final_state (Returns x t) = Some t"
| "final_state (Throws e t) = Some t"
| "final_state Blocks = None"

named_theorems prog_simps \<open>programs run on a state\<close>

lemma ret_run [prog_simps]: "ret x s = Returns x s"
  by (simp add: ret_def)

lemma throw_run [prog_simps]: "throw e s = Throws e s"
  by (simp add: throw_def)

lemma andThen_run [prog_simps]:
  "m s = Returns x t \<Longrightarrow> andThen m f s = f x t"
  "m s = Throws e t \<Longrightarrow> andThen m f s = Throws e t"
  "m s = Blocks \<Longrightarrow> andThen m f s = Blocks"
  by (simp_all add: andThen_def)

lemma tryCatch_run [prog_simps]:
  "m s = Returns x t \<Longrightarrow> tryCatch m h s = Returns x t"
  "m s = Throws e t \<Longrightarrow> is_exception e \<Longrightarrow> tryCatch m h s = h t"
  "m s = Blocks \<Longrightarrow> tryCatch m h s = Blocks"
  by (simp_all add: tryCatch_def)

lemma from_sum_run [prog_simps]:
  "from_sum (Inl e) s = Throws e s"
  "from_sum (Inr x) s = Returns x s"
  by (simp_all add: from_sum_def throw_def ret_def)

lemma andThen_ret [simp]: "andThen (ret x) f = f x"
  by (rule ext) (simp add: andThen_def ret_def)

lemma andThen_assoc: "andThen (andThen m f) g = andThen m (\<lambda>x. andThen (f x) g)"
  by (rule ext) (simp add: andThen_def split: outcome.split)

lemma andThen_Returns: "andThen m f s = Returns y u \<longleftrightarrow> (\<exists>x t. m s = Returns x t \<and> f x t = Returns y u)"
  by (simp add: andThen_def split: outcome.split)

end
