(* ===== verification/Redis_Client.thy ===== *)
theory Redis_Client
  imports Effects
begin

text \<open>
  \<open>RedisClient\<close> and \<open>RedisPool\<close> (\<open>src/cache/\<close>). The hiredis library and the server behind it are
  the argument \<open>api\<close>: connecting, and sending a command, on a server state of any type. A client
  holds a context, which is null, good, or in error. The clients waiting in the pool are part of
  the state of the program, so that borrowing one takes it out of the pool and the end of its
  scope, reached by a return or by an exception, gives it back.
\<close>

section \<open>The library called\<close>

datatype redis_reply = ReplyString string | ReplyStatus string | ReplyInteger int | ReplyNil | ReplyError string

text \<open>
  \<open>redisConnectWithTimeout\<close> gives a good context or not; \<open>redisCommand\<close> gives a reply, or null, in
  which case the context is in error.
\<close>

record 'r redis_api =
  redis_connect :: "string \<Rightarrow> int \<Rightarrow> 'r \<Rightarrow> bool \<times> 'r"
  redis_command :: "string list \<Rightarrow> 'r \<Rightarrow> redis_reply option \<times> 'r"

text \<open>An argument printed with \<open>%s\<close> ends at its first zero byte.\<close>

definition c_str :: "string \<Rightarrow> string" where
  "c_str s = takeWhile (\<lambda>c. c \<noteq> CHR 0x00) s"

section \<open>\<open>RedisClient\<close>\<close>

datatype redis_context = CtxNull | CtxGood | CtxErr

record redis_client =
  rd_host :: string
  rd_port :: int
  rd_password :: string
  rd_context :: redis_context

definition RedisClient_new :: "string \<Rightarrow> int \<Rightarrow> string \<Rightarrow> redis_client" where
  "RedisClient_new host port password =
     \<lparr>rd_host = host, rd_port = port, rd_password = password, rd_context = CtxNull\<rparr>"

definition RedisClient_Close :: "redis_client \<Rightarrow> redis_client" where
  "RedisClient_Close c = c\<lparr>rd_context := CtxNull\<rparr>"

definition RedisClient_IsConnected :: "redis_client \<Rightarrow> bool" where
  "RedisClient_IsConnected c \<longleftrightarrow> rd_context c = CtxGood"

text \<open>Sending a command on the context of a client.\<close>

definition send_command :: "'r redis_api \<Rightarrow> string list \<Rightarrow> redis_client \<times> 'r \<Rightarrow> redis_reply option \<times> redis_client \<times> 'r" where
  "send_command api args cr =
     (case redis_command api args (snd cr) of
        (None, r) \<Rightarrow> (None, (fst cr)\<lparr>rd_context := CtxErr\<rparr>, r)
      | (Some reply, r) \<Rightarrow> (Some reply, fst cr, r))"

definition RedisClient_Connect :: "'r redis_api \<Rightarrow> redis_client \<times> 'r \<Rightarrow> bool \<times> redis_client \<times> 'r" where
  "RedisClient_Connect api cr =
     (let c = RedisClient_Close (fst cr)
      in case redis_connect api (c_str (rd_host c)) (rd_port c) (snd cr) of
           (False, r) \<Rightarrow> (False, c, r)
         | (True, r) \<Rightarrow>
             (let c1 = c\<lparr>rd_context := CtxGood\<rparr>
              in if rd_password c = [] then (True, c1, r)
                 else (case send_command api [''AUTH'', c_str (rd_password c)] (c1, r) of
                         (reply, c2, r2) \<Rightarrow>
                           (if reply = Some (ReplyStatus ''OK'') then (True, c2, r2)
                            else (False, RedisClient_Close c2, r2)))))"

definition EnsureConnected :: "'r redis_api \<Rightarrow> redis_client \<times> 'r \<Rightarrow> bool \<times> redis_client \<times> 'r" where
  "EnsureConnected api cr =
     (if \<not> RedisClient_IsConnected (fst cr) then RedisClient_Connect api cr else (True, cr))"

definition RedisClient_Get :: "'r redis_api \<Rightarrow> string \<Rightarrow> redis_client \<times> 'r \<Rightarrow> string option \<times> redis_client \<times> 'r" where
  "RedisClient_Get api key cr =
     (case EnsureConnected api cr of
        (False, cr1) \<Rightarrow> (None, cr1)
      | (True, cr1) \<Rightarrow>
          (case send_command api [''GET'', c_str key] cr1 of
             (Some (ReplyString v), cr2) \<Rightarrow> (Some v, cr2)
           | (_, cr2) \<Rightarrow> (None, cr2)))"

definition RedisClient_Set :: "'r redis_api \<Rightarrow> string \<Rightarrow> string \<Rightarrow> redis_client \<times> 'r \<Rightarrow> bool \<times> redis_client \<times> 'r" where
  "RedisClient_Set api key value cr =
     (case EnsureConnected api cr of
        (False, cr1) \<Rightarrow> (False, cr1)
      | (True, cr1) \<Rightarrow>
          (case send_command api [''SET'', c_str key, c_str value] cr1 of
             (reply, cr2) \<Rightarrow> (reply = Some (ReplyStatus ''OK''), cr2)))"

definition RedisClient_Del :: "'r redis_api \<Rightarrow> string \<Rightarrow> redis_client \<times> 'r \<Rightarrow> bool \<times> redis_client \<times> 'r" where
  "RedisClient_Del api key cr =
     (case EnsureConnected api cr of
        (False, cr1) \<Rightarrow> (False, cr1)
      | (True, cr1) \<Rightarrow>
          (case send_command api [''DEL'', c_str key] cr1 of
             (Some (ReplyInteger n), cr2) \<Rightarrow> (0 < n, cr2)
           | (_, cr2) \<Rightarrow> (False, cr2)))"

section \<open>\<open>RedisPool\<close>\<close>

text \<open>The clients in the pool, front first, and the server; further parts of the world extend it.\<close>

record 'r redis_world =
  rw_clients :: "redis_client list"
  rw_server :: 'r

text \<open>The constructor keeps the clients that could connect.\<close>

fun connect_clients :: "'r redis_api \<Rightarrow> redis_client \<Rightarrow> nat \<Rightarrow> 'r \<Rightarrow> redis_client list \<times> 'r" where
  "connect_clients api c 0 r = ([], r)"
| "connect_clients api c (Suc n) r =
     (case RedisClient_Connect api (c, r) of
        (ok, c1, r1) \<Rightarrow>
          (case connect_clients api c n r1 of
             (cs, r2) \<Rightarrow> (if ok then c1 # cs else cs, r2)))"

definition RedisPool_new :: "'r redis_api \<Rightarrow> string \<Rightarrow> int \<Rightarrow> nat \<Rightarrow> string \<Rightarrow> 'r \<Rightarrow> redis_client list \<times> 'r" where
  "RedisPool_new api host port pool_size password r =
     connect_clients api (RedisClient_new host port password) pool_size r"

text \<open>\<open>Release\<close> reconnects a client whose context is not good and puts it behind the others.\<close>

definition RedisPool_Release :: "'r redis_api \<Rightarrow> redis_client \<Rightarrow> ('r, 'z) redis_world_scheme \<Rightarrow> ('r, 'z) redis_world_scheme" where
  "RedisPool_Release api c w =
     (if RedisClient_IsConnected c then w\<lparr>rw_clients := rw_clients w @ [c]\<rparr>
      else (case RedisClient_Connect api (c, rw_server w) of
              (ok, c1, r1) \<Rightarrow> w\<lparr>rw_clients := rw_clients w @ [c1], rw_server := r1\<rparr>))"

text \<open>
  The scope of \<open>auto client = pool_->GetClient()\<close>: it waits while the pool is empty; the client
  goes back when the scope ends.
\<close>

definition with_client ::
  "'r redis_api \<Rightarrow> ('a, redis_client \<times> ('r, 'z) redis_world_scheme) prog \<Rightarrow> ('a, ('r, 'z) redis_world_scheme) prog" where
  "with_client api body w =
     (case rw_clients w of
        [] \<Rightarrow> Blocks
      | c # cs \<Rightarrow>
          (case body (c, w\<lparr>rw_clients := cs\<rparr>) of
             Returns x (c1, w1) \<Rightarrow> Returns x (RedisPool_Release api c1 w1)
           | Throws e (c1, w1) \<Rightarrow> Throws e (RedisPool_Release api c1 w1)
           | Blocks \<Rightarrow> Blocks))"

text \<open>The calls of a borrowed client, as programs.\<close>

definition on_client :: "(redis_client \<times> 'r \<Rightarrow> 'a \<times> redis_client \<times> 'r) \<Rightarrow> ('a, redis_client \<times> ('r, 'z) redis_world_scheme) prog" where
  "on_client f cw =
     (case f (fst cw, rw_server (snd cw)) of
        (x, c, r) \<Rightarrow> Returns x (c, (snd cw)\<lparr>rw_server := r\<rparr>))"

definition client_connected :: "(bool, redis_client \<times> ('r, 'z) redis_world_scheme) prog" where
  "client_connected cw = Returns (RedisClient_IsConnected (fst cw)) cw"

text \<open>What the callers write: \<open>if (!client || !client->IsConnected()) return dflt;\<close>.\<close>

definition guarded :: "'a \<Rightarrow> ('a, redis_client \<times> ('r, 'z) redis_world_scheme) prog \<Rightarrow> ('a, redis_client \<times> ('r, 'z) redis_world_scheme) prog" where
  "guarded dflt body = andThen client_connected (\<lambda>ok. if ok then body else ret dflt)"

section \<open>A server that answers\<close>

text \<open>
  The documented behaviour of the three commands on a server whose keys and values \<open>db\<close> shows:
  \<open>GET\<close> replies with the value or nil, \<open>SET\<close> stores and replies \<open>OK\<close>, \<open>DEL\<close> removes and replies
  with the number of keys removed.
\<close>

definition redis_serves :: "'r redis_api \<Rightarrow> ('r \<Rightarrow> string \<Rightarrow> string option) \<Rightarrow> bool" where
  "redis_serves api db \<longleftrightarrow>
     (\<forall>k r. fst (redis_command api [''GET'', k] r) = Some (case db r k of Some v \<Rightarrow> ReplyString v | None \<Rightarrow> ReplyNil) \<and>
            db (snd (redis_command api [''GET'', k] r)) = db r) \<and>
     (\<forall>k v r. fst (redis_command api [''SET'', k, v] r) = Some (ReplyStatus ''OK'') \<and>
            db (snd (redis_command api [''SET'', k, v] r)) = (db r)(k \<mapsto> v)) \<and>
     (\<forall>k r. fst (redis_command api [''DEL'', k] r) = Some (ReplyInteger (if db r k = None then 0 else 1)) \<and>
            db (snd (redis_command api [''DEL'', k] r)) = (db r)(k := None))"

text \<open>A server that is a map, for examples.\<close>

definition map_command :: "string list \<Rightarrow> (string \<Rightarrow> string option) \<Rightarrow> redis_reply option \<times> (string \<Rightarrow> string option)" where
  "map_command args m =
     (case args of
        [cmd, k] \<Rightarrow>
          (if cmd = ''GET'' then (Some (case m k of Some v \<Rightarrow> ReplyString v | None \<Rightarrow> ReplyNil), m)
           else if cmd = ''DEL'' then (Some (ReplyInteger (if m k = None then 0 else 1)), m(k := None))
           else (Some (ReplyStatus ''OK''), m))
      | [cmd, k, v] \<Rightarrow> (Some (ReplyStatus ''OK''), m(k \<mapsto> v))
      | _ \<Rightarrow> (Some (ReplyError ''ERR''), m))"

definition map_redis :: "(string \<Rightarrow> string option) redis_api" where
  "map_redis = \<lparr>redis_connect = (\<lambda>h p m. (True, m)), redis_command = map_command\<rparr>"

text \<open>The pool has an idle client, and all idle clients are connected.\<close>

definition pool_ready :: "('r, 'z) redis_world_scheme \<Rightarrow> bool" where
  "pool_ready w \<longleftrightarrow> rw_clients w \<noteq> [] \<and> (\<forall>c \<in> set (rw_clients w). RedisClient_IsConnected c)"

section \<open>Lemmas: clients\<close>

lemma map_redis_serves: "redis_serves map_redis (\<lambda>m. m)"
  by (simp add: redis_serves_def map_redis_def map_command_def)

lemma serves_get:
  assumes "redis_serves api db" and "RedisClient_IsConnected c"
  shows "fst (RedisClient_Get api k (c, r)) = db r (c_str k)"
    and "fst (snd (RedisClient_Get api k (c, r))) = c"
    and "db (snd (snd (RedisClient_Get api k (c, r)))) = db r"
proof -
  have "fst (redis_command api [''GET'', c_str k] r) = Some (case db r (c_str k) of Some v \<Rightarrow> ReplyString v | None \<Rightarrow> ReplyNil)"
    and "db (snd (redis_command api [''GET'', c_str k] r)) = db r"
    using assms(1) by (simp_all add: redis_serves_def)
  with assms(2) show "fst (RedisClient_Get api k (c, r)) = db r (c_str k)"
    and "fst (snd (RedisClient_Get api k (c, r))) = c"
    and "db (snd (snd (RedisClient_Get api k (c, r)))) = db r"
    by (auto simp: RedisClient_Get_def EnsureConnected_def send_command_def split: prod.splits option.splits)
qed

lemma serves_set:
  assumes "redis_serves api db" and "RedisClient_IsConnected c"
  shows "fst (RedisClient_Set api k v (c, r)) = True"
    and "fst (snd (RedisClient_Set api k v (c, r))) = c"
    and "db (snd (snd (RedisClient_Set api k v (c, r)))) = (db r)(c_str k \<mapsto> c_str v)"
proof -
  have "fst (redis_command api [''SET'', c_str k, c_str v] r) = Some (ReplyStatus ''OK'')"
    and "db (snd (redis_command api [''SET'', c_str k, c_str v] r)) = (db r)(c_str k \<mapsto> c_str v)"
    using assms(1) by (simp_all add: redis_serves_def)
  with assms(2) show "fst (RedisClient_Set api k v (c, r)) = True"
    and "fst (snd (RedisClient_Set api k v (c, r))) = c"
    and "db (snd (snd (RedisClient_Set api k v (c, r)))) = (db r)(c_str k \<mapsto> c_str v)"
    by (auto simp: RedisClient_Set_def EnsureConnected_def send_command_def split: prod.splits)
qed

lemma serves_del:
  assumes "redis_serves api db" and "RedisClient_IsConnected c"
  shows "fst (RedisClient_Del api k (c, r)) = (db r (c_str k) \<noteq> None)"
    and "fst (snd (RedisClient_Del api k (c, r))) = c"
    and "db (snd (snd (RedisClient_Del api k (c, r)))) = (db r)(c_str k := None)"
proof -
  have "fst (redis_command api [''DEL'', c_str k] r) = Some (ReplyInteger (if db r (c_str k) = None then 0 else 1))"
    and "db (snd (redis_command api [''DEL'', c_str k] r)) = (db r)(c_str k := None)"
    using assms(1) by (simp_all add: redis_serves_def)
  with assms(2) show "fst (RedisClient_Del api k (c, r)) = (db r (c_str k) \<noteq> None)"
    and "fst (snd (RedisClient_Del api k (c, r))) = c"
    and "db (snd (snd (RedisClient_Del api k (c, r)))) = (db r)(c_str k := None)"
    by (auto simp: RedisClient_Del_def EnsureConnected_def send_command_def split: prod.splits if_splits)
qed

lemma on_client_run: "on_client f (c, w) = Returns (fst (f (c, rw_server w)))
     (fst (snd (f (c, rw_server w))), w\<lparr>rw_server := snd (snd (f (c, rw_server w)))\<rparr>)"
  by (simp add: on_client_def split: prod.split)

section \<open>Lemmas: the pool\<close>

text \<open>
  A call that leaves its client connected gives it back: the body runs on the first client, and
  the pool is ready again afterwards.
\<close>

lemma with_client_run:
  assumes "rw_clients w = c # cs" and "RedisClient_IsConnected c"
    and "body (c, w\<lparr>rw_clients := cs\<rparr>) = Returns x (c, w1)"
  shows "with_client api (guarded d body) w = Returns x (w1\<lparr>rw_clients := rw_clients w1 @ [c]\<rparr>)"
  using assms by (simp add: with_client_def guarded_def client_connected_def RedisPool_Release_def prog_simps)

lemma empty_pool_blocks: "rw_clients w = [] \<Longrightarrow> with_client api body w = Blocks"
  by (simp add: with_client_def)

lemma connect_clients_refused:
  assumes "\<And>h p r. fst (redis_connect api h p r) = False"
  shows "fst (connect_clients api c n r) = []"
proof (induction n arbitrary: r)
  case (Suc n)
  have "fst (RedisClient_Connect api (c, r)) = False"
    using assms [of "c_str (rd_host (RedisClient_Close c))" "rd_port (RedisClient_Close c)" r]
    by (auto simp: RedisClient_Connect_def Let_def split: prod.splits bool.splits)
  with Suc show ?case by (simp add: case_prod_unfold)
qed simp

lemma connect_clients_connected: "c1 \<in> set (fst (connect_clients api c n r)) \<Longrightarrow> RedisClient_IsConnected c1"
proof (induction n arbitrary: r)
  case (Suc n)
  obtain ok c2 r1 where e: "RedisClient_Connect api (c, r) = (ok, c2, r1)" by (cases "RedisClient_Connect api (c, r)") auto
  then have "ok \<Longrightarrow> RedisClient_IsConnected c2"
    by (auto simp: RedisClient_Connect_def RedisClient_IsConnected_def send_command_def Let_def split: prod.splits bool.splits if_splits option.splits)
  with Suc.prems Suc.IH [of r1] e show ?case by (auto split: prod.splits if_splits)
qed simp

lemma c_str_id [simp]: "CHR 0x00 \<notin> set s \<Longrightarrow> c_str s = s"
  by (simp add: c_str_def takeWhile_eq_all_conv) metis

text \<open>
  The rule for a call on a ready pool: what the body returns is returned, the pool is ready again,
  and only the server's state changed.
\<close>

lemma pool_call:
  assumes "pool_ready w"
    and "\<And>c cs. RedisClient_IsConnected c \<Longrightarrow> rw_clients w = c # cs \<Longrightarrow>
       \<exists>r. body (c, w\<lparr>rw_clients := cs\<rparr>) = Returns x (c, w\<lparr>rw_clients := cs, rw_server := r\<rparr>) \<and> P r"
  obtains w' where "with_client api (guarded d body) w = Returns x w'" and "pool_ready w'"
    and "P (rw_server w')" and "redis_world.more w' = redis_world.more w"
proof -
  from assms(1) obtain c cs where cs: "rw_clients w = c # cs" "RedisClient_IsConnected c" "\<forall>c \<in> set cs. RedisClient_IsConnected c"
    by (cases "rw_clients w") (auto simp: pool_ready_def)
  from assms(2) [OF cs(2,1)] obtain r where r: "body (c, w\<lparr>rw_clients := cs\<rparr>) = Returns x (c, w\<lparr>rw_clients := cs, rw_server := r\<rparr>)" "P r"
    by blast
  from with_client_run [where w = w and body = body, OF cs(1,2) r(1), of api d]
  have "with_client api (guarded d body) w = Returns x (w\<lparr>rw_clients := cs @ [c], rw_server := r\<rparr>)" by simp
  with r(2) cs show thesis by (intro that [of "w\<lparr>rw_clients := cs @ [c], rw_server := r\<rparr>"]) (auto simp: pool_ready_def)
qed

lemma pool_get:
  assumes "redis_serves api db" and "pool_ready w"
  obtains w' where "with_client api (guarded d (on_client (RedisClient_Get api k))) w = Returns (db (rw_server w) (c_str k)) w'"
    and "pool_ready w'" and "db (rw_server w') = db (rw_server w)" and "redis_world.more w' = redis_world.more w"
  by (rule pool_call [OF assms(2), where P = "\<lambda>r. db r = db (rw_server w)"])
    (auto simp: on_client_run serves_get [OF assms(1)])

lemma pool_set:
  assumes "redis_serves api db" and "pool_ready w"
  obtains w' where "with_client api (guarded d (on_client (RedisClient_Set api k v))) w = Returns True w'"
    and "pool_ready w'" and "db (rw_server w') = (db (rw_server w))(c_str k \<mapsto> c_str v)"
    and "redis_world.more w' = redis_world.more w"
  by (rule pool_call [OF assms(2), where P = "\<lambda>r. db r = (db (rw_server w))(c_str k \<mapsto> c_str v)"])
    (auto simp: on_client_run serves_set [OF assms(1)])

lemma pool_del:
  assumes "redis_serves api db" and "pool_ready w"
  obtains w' where "with_client api (guarded d (on_client (RedisClient_Del api k))) w = Returns (db (rw_server w) (c_str k) \<noteq> None) w'"
    and "pool_ready w'" and "db (rw_server w') = (db (rw_server w))(c_str k := None)"
    and "redis_world.more w' = redis_world.more w"
  by (rule pool_call [OF assms(2), where P = "\<lambda>r. db r = (db (rw_server w))(c_str k := None)"])
    (auto simp: on_client_run serves_del [OF assms(1)])

text \<open>The same for a body that changes more of the world than the server.\<close>

lemma pool_run:
  assumes "pool_ready w"
    and "\<And>c cs. RedisClient_IsConnected c \<Longrightarrow> rw_clients w = c # cs \<Longrightarrow>
       \<exists>x w1. body (c, w\<lparr>rw_clients := cs\<rparr>) = Returns x (c, w1) \<and> rw_clients w1 = cs \<and> P x (rw_server w1) (redis_world.more w1)"
  obtains x w' where "with_client api (guarded d body) w = Returns x w'" and "pool_ready w'"
    and "P x (rw_server w') (redis_world.more w')"
proof -
  from assms(1) obtain c cs where cs: "rw_clients w = c # cs" "RedisClient_IsConnected c" "\<forall>c \<in> set cs. RedisClient_IsConnected c"
    by (cases "rw_clients w") (auto simp: pool_ready_def)
  from assms(2) [OF cs(2,1)] obtain x w1 where r: "body (c, w\<lparr>rw_clients := cs\<rparr>) = Returns x (c, w1)"
    "rw_clients w1 = cs" "P x (rw_server w1) (redis_world.more w1)"
    by blast
  from with_client_run [where w = w and body = body, OF cs(1,2) r(1), of api d] r(2)
  have "with_client api (guarded d body) w = Returns x (w1\<lparr>rw_clients := cs @ [c]\<rparr>)" by simp
  with r(3) cs show thesis
    by (intro that [of x "w1\<lparr>rw_clients := cs @ [c]\<rparr>"]) (auto simp: pool_ready_def)
qed

end
