(* ===== verification/Order_Cache.thy ===== *)
theory Order_Cache
  imports Order_Model Redis_Client
begin

text \<open>
  \<open>infra/cache/OrderCache\<close>: orders and order lists as text under Redis keys. Every call borrows a
  client of the pool for its duration. The pool pointer can be null (\<open>oc_pool\<close> is false then).
\<close>

section \<open>Options and keys\<close>

record order_cache =
  oc_pool :: bool
  oc_keyPrefix :: string
  oc_userIndexPrefix :: string
  oc_ttl :: int
  oc_enableUserIndex :: bool

text \<open>The defaults of \<open>OrderCache::Options\<close>.\<close>

definition OrderCache_new :: "bool \<Rightarrow> order_cache" where
  "OrderCache_new pool =
     \<lparr>oc_pool = pool, oc_keyPrefix = ''order:'', oc_userIndexPrefix = ''user_orders:'', oc_ttl = 600,
      oc_enableUserIndex = True\<rparr>"

definition buildOrderKey :: "order_cache \<Rightarrow> string \<Rightarrow> string" where
  "buildOrderKey oc orderId = oc_keyPrefix oc @ orderId"

definition buildUserKey :: "order_cache \<Rightarrow> string \<Rightarrow> string" where
  "buildUserKey oc userId = oc_userIndexPrefix oc @ userId"

section \<open>Text form\<close>

definition serializeOrder :: "order_record \<Rightarrow> string" where
  "serializeOrder r =
     or_orderId r @ CHR ''|'' # or_userId r @ CHR ''|'' # or_productId r @ CHR ''|'' #
     show_nat (unat (or_quantity r)) @ CHR ''|'' # show_fixed2 (or_totalAmount r) @ CHR ''|'' #
     or_currency r @ CHR ''|'' # show_int (status_int (or_status r)) @ CHR ''|'' #
     or_statusReason r @ CHR ''|'' # or_payloadJson r @ CHR ''|'' #
     show_int (to_seconds (or_createdAt r)) @ CHR ''|'' # show_int (to_seconds (or_updatedAt r))"

text \<open>Reading: one \<open>getline\<close> after the other; \<open>token\<close> is the variable the numbers are read into.\<close>

definition deserializeOrder :: "string \<Rightarrow> cpp_error + order_record" where
  "deserializeOrder payload =
     (let rec = OrderRecord_new;
          (orderId, i1) = std_getline (CHR ''|'') (istream_new payload) (or_orderId rec);
          (userId, i2) = std_getline (CHR ''|'') i1 (or_userId rec);
          (productId, i3) = std_getline (CHR ''|'') i2 (or_productId rec);
          (token4, i4) = std_getline (CHR ''|'') i3 []
      in sum_bind (std_stoul token4) (\<lambda>quantity.
         let (token5, i5) = std_getline (CHR ''|'') i4 token4
         in sum_bind (std_stod token5) (\<lambda>totalAmount.
         let (currency, i6) = std_getline (CHR ''|'') i5 (or_currency rec);
             (token7, i7) = std_getline (CHR ''|'') i6 token5
         in sum_bind (std_stoi token7) (\<lambda>status.
         let (statusReason, i8) = std_getline (CHR ''|'') i7 (or_statusReason rec);
             (payloadJson, i9) = std_getline (CHR ''|'') i8 (or_payloadJson rec);
             (token10, i10) = std_getline (CHR ''|'') i9 token7
         in sum_bind (std_stoll token10) (\<lambda>createdAt.
         let (token11, i11) = std_getline (CHR ''|'') i10 token10
         in sum_bind (std_stoll token11) (\<lambda>updatedAt.
         Inr \<lparr>or_orderId = orderId, or_userId = userId, or_productId = productId,
              or_quantity = of_nat quantity, or_totalAmount = totalAmount, or_currency = currency,
              or_status = status_of_int status, or_statusReason = statusReason,
              or_payloadJson = payloadJson, or_createdAt = from_seconds createdAt,
              or_updatedAt = from_seconds updatedAt\<rparr>))))))"

fun serializeOrderList :: "order_record list \<Rightarrow> string" where
  "serializeOrderList [] = []"
| "serializeOrderList [r] = serializeOrder r"
| "serializeOrderList (r # r' # rs) = serializeOrder r @ CHR 0x0A # serializeOrderList (r' # rs)"

fun deserialize_lines :: "string list \<Rightarrow> cpp_error + order_record list" where
  "deserialize_lines [] = Inr []"
| "deserialize_lines (line # ls) =
     (if line = [] then deserialize_lines ls
      else sum_bind (deserializeOrder line) (\<lambda>r. sum_bind (deserialize_lines ls) (\<lambda>rs. Inr (r # rs))))"

definition deserializeOrderList :: "string \<Rightarrow> cpp_error + order_record list" where
  "deserializeOrderList payload = deserialize_lines (getline_tokens (CHR 0x0A) payload)"

section \<open>Operations\<close>

definition setKey :: "'r redis_api \<Rightarrow> string \<Rightarrow> string \<Rightarrow> (bool, redis_client \<times> ('r, 'z) redis_world_scheme) prog" where
  "setKey api key value = on_client (RedisClient_Set api key value)"

definition getKey :: "'r redis_api \<Rightarrow> string \<Rightarrow> (string option, redis_client \<times> ('r, 'z) redis_world_scheme) prog" where
  "getKey api key = on_client (RedisClient_Get api key)"

definition deleteKey :: "'r redis_api \<Rightarrow> string \<Rightarrow> (bool, redis_client \<times> ('r, 'z) redis_world_scheme) prog" where
  "deleteKey api key = on_client (RedisClient_Del api key)"

definition PutOrder :: "'r redis_api \<Rightarrow> order_cache \<Rightarrow> order_record \<Rightarrow> (bool, ('r, 'z) redis_world_scheme) prog" where
  "PutOrder api oc r =
     (if \<not> oc_pool oc then ret False
      else with_client api (guarded False (setKey api (buildOrderKey oc (or_orderId r)) (serializeOrder r))))"

fun PutOrders :: "'r redis_api \<Rightarrow> order_cache \<Rightarrow> order_record list \<Rightarrow> (bool, ('r, 'z) redis_world_scheme) prog" where
  "PutOrders api oc [] = ret True"
| "PutOrders api oc (r # rs) =
     andThen (PutOrder api oc r) (\<lambda>ok1. andThen (PutOrders api oc rs) (\<lambda>ok2. ret (ok1 \<and> ok2)))"

definition GetOrder :: "'r redis_api \<Rightarrow> order_cache \<Rightarrow> string \<Rightarrow> (order_record option, ('r, 'z) redis_world_scheme) prog" where
  "GetOrder api oc orderId =
     (if \<not> oc_pool oc then ret None
      else with_client api (guarded None
        (andThen (getKey api (buildOrderKey oc orderId)) (\<lambda>payload.
           case payload of
             None \<Rightarrow> ret None
           | Some p \<Rightarrow> andThen (from_sum (deserializeOrder p)) (\<lambda>r. ret (Some r))))))"

fun GetOrders :: "'r redis_api \<Rightarrow> order_cache \<Rightarrow> string list \<Rightarrow> (order_record list, ('r, 'z) redis_world_scheme) prog" where
  "GetOrders api oc [] = ret []"
| "GetOrders api oc (i # is) =
     andThen (GetOrder api oc i) (\<lambda>r. andThen (GetOrders api oc is) (\<lambda>rs.
       ret (case r of Some x \<Rightarrow> x # rs | None \<Rightarrow> rs)))"

definition RemoveOrder :: "'r redis_api \<Rightarrow> order_cache \<Rightarrow> string \<Rightarrow> (bool, ('r, 'z) redis_world_scheme) prog" where
  "RemoveOrder api oc orderId =
     (if \<not> oc_pool oc then ret False
      else with_client api (guarded False (deleteKey api (buildOrderKey oc orderId))))"

text \<open>The time to live is not used: the same value is stored again.\<close>

definition RefreshTTL :: "'r redis_api \<Rightarrow> order_cache \<Rightarrow> string \<Rightarrow> int \<Rightarrow> (bool, ('r, 'z) redis_world_scheme) prog" where
  "RefreshTTL api oc orderId ttl =
     (if \<not> oc_pool oc then ret False
      else with_client api (guarded False
        (andThen (getKey api (buildOrderKey oc orderId)) (\<lambda>payload.
           case payload of
             None \<Rightarrow> ret False
           | Some p \<Rightarrow> setKey api (buildOrderKey oc orderId) p))))"

definition PutUserOrders :: "'r redis_api \<Rightarrow> order_cache \<Rightarrow> string \<Rightarrow> order_record list \<Rightarrow> (bool, ('r, 'z) redis_world_scheme) prog" where
  "PutUserOrders api oc userId records =
     (if \<not> oc_pool oc \<or> \<not> oc_enableUserIndex oc then ret False
      else with_client api (guarded False (setKey api (buildUserKey oc userId) (serializeOrderList records))))"

definition GetUserOrders :: "'r redis_api \<Rightarrow> order_cache \<Rightarrow> string \<Rightarrow> (order_record list option, ('r, 'z) redis_world_scheme) prog" where
  "GetUserOrders api oc userId =
     (if \<not> oc_pool oc \<or> \<not> oc_enableUserIndex oc then ret None
      else with_client api (guarded None
        (andThen (getKey api (buildUserKey oc userId)) (\<lambda>payload.
           case payload of
             None \<Rightarrow> ret None
           | Some p \<Rightarrow> andThen (from_sum (deserializeOrderList p)) (\<lambda>rs. ret (Some rs))))))"

definition RemoveUserOrders :: "'r redis_api \<Rightarrow> order_cache \<Rightarrow> string \<Rightarrow> (bool, ('r, 'z) redis_world_scheme) prog" where
  "RemoveUserOrders api oc userId =
     (if \<not> oc_pool oc \<or> \<not> oc_enableUserIndex oc then ret False
      else with_client api (guarded False (deleteKey api (buildUserKey oc userId))))"

fun Warmup :: "'r redis_api \<Rightarrow> order_cache \<Rightarrow> order_record list \<Rightarrow> (unit, ('r, 'z) redis_world_scheme) prog" where
  "Warmup api oc [] = ret ()"
| "Warmup api oc (r # rs) = andThen (PutOrder api oc r) (\<lambda>_. Warmup api oc rs)"

section \<open>Lemmas: text form\<close>

text \<open>The records whose text form is faithful: no separator inside, whole cents and whole seconds.\<close>

definition plain :: "string \<Rightarrow> bool" where
  "plain s \<longleftrightarrow> CHR ''|'' \<notin> set s \<and> CHR 0x0A \<notin> set s \<and> CHR 0x00 \<notin> set s"

definition int64 :: "int \<Rightarrow> bool" where
  "int64 i \<longleftrightarrow> - (2 ^ 63) \<le> i \<and> i < 2 ^ 63"

definition storable :: "order_record \<Rightarrow> bool" where
  "storable r \<longleftrightarrow>
     plain (or_orderId r) \<and> plain (or_userId r) \<and> plain (or_productId r) \<and> plain (or_currency r) \<and>
     plain (or_statusReason r) \<and> plain (or_payloadJson r) \<and> status_named (or_status r) \<and>
     (\<exists>k < max_cents. or_totalAmount r = cents k) \<and>
     (\<exists>t. int64 t \<and> or_createdAt r = from_seconds t) \<and> (\<exists>t. int64 t \<and> or_updatedAt r = from_seconds t)"

lemma char_control_not_digit: "\<not> isdigit (CHR 0x0A) \<and> \<not> isdigit (CHR 0x00) \<and> CHR 0x0A \<noteq> CHR ''.'' \<and> CHR 0x00 \<noteq> CHR ''.'' \<and> CHR ''|'' \<noteq> CHR ''.''"
  by (simp add: isdigit_def)

lemma plain_show_nat [simp]: "plain (show_nat n)"
  using show_nat_digits [of _ n] by (auto simp: plain_def isdigit_def dest!: show_nat_digits)

lemma plain_show_int [simp]: "plain (show_int i)"
  by (auto simp: plain_def isdigit_def dest!: show_int_chars)

lemma plain_show_fixed2: "k < max_cents \<Longrightarrow> plain (show_fixed2 (cents k))"
  using show_fixed2_chars [of k] unfolding plain_def by (metis isdigit_special(3) char_control_not_digit)

lemmas plain_bar = plain_def [THEN iffD1, THEN conjunct1]

lemma stoul_quantity: "std_stoul (show_nat (unat (q :: 32 word))) = Inr (unat q)"
proof -
  have "unat q < 2 ^ 64" using unsigned_less [of q, where 'a = nat] by simp
  from std_stoul_show_nat [OF this, of "[]"] show ?thesis by simp
qed

lemma stoi_status: "status_named s \<Longrightarrow> std_stoi (show_int (status_int s)) = Inr (status_int s)"
  using status_int_range [of s] by (intro std_stol_show_int) auto

lemma stoll_int64: "int64 i \<Longrightarrow> std_stoll (show_int i) = Inr i"
  by (intro std_stol_show_int) (auto simp: int64_def)

lemma deserialize_serialize:
  assumes "storable r"
  shows "deserializeOrder (serializeOrder r) = Inr r"
proof -
  from assms obtain k where k: "k < max_cents" "or_totalAmount r = cents k" by (auto simp: storable_def)
  from assms obtain t where t: "int64 t" "or_createdAt r = from_seconds t" by (auto simp: storable_def)
  from assms obtain u where u: "int64 u" "or_updatedAt r = from_seconds u" by (auto simp: storable_def)
  have p: "CHR ''|'' \<notin> set (or_orderId r)" "CHR ''|'' \<notin> set (or_userId r)" "CHR ''|'' \<notin> set (or_productId r)"
    "CHR ''|'' \<notin> set (or_currency r)" "CHR ''|'' \<notin> set (or_statusReason r)" "CHR ''|'' \<notin> set (or_payloadJson r)"
    "CHR ''|'' \<notin> set (show_nat n)" "CHR ''|'' \<notin> set (show_int i)" "CHR ''|'' \<notin> set (show_fixed2 (cents k))" for n i
    using assms plain_show_fixed2 [OF k(1)] plain_show_nat [of n] plain_show_int [of i]
    by (simp_all add: storable_def plain_def del: plain_show_nat plain_show_int)
  have st: "status_named (or_status r)" using assms by (simp add: storable_def)
  have "deserializeOrder (serializeOrder r) =
      Inr \<lparr>or_orderId = or_orderId r, or_userId = or_userId r, or_productId = or_productId r,
           or_quantity = of_nat (unat (or_quantity r)), or_totalAmount = cents k, or_currency = or_currency r,
           or_status = status_of_int (status_int (or_status r)), or_statusReason = or_statusReason r,
           or_payloadJson = or_payloadJson r, or_createdAt = from_seconds t, or_updatedAt = from_seconds u\<rparr>"
    unfolding serializeOrder_def deserializeOrder_def istream_new_def k(2) t(2) u(2)
    by (simp add: getline_token getline_last p stoul_quantity stoi_status [OF st] stoll_int64 [OF t(1)]
        stoll_int64 [OF u(1)] std_stod_show_fixed2 [OF k(1)] Let_def del: std_getline.simps)
  then show ?thesis using k(2) t(2) u(2) st by simp
qed

lemma serialize_plain: "storable r \<Longrightarrow> CHR 0x0A \<notin> set (serializeOrder r) \<and> CHR 0x00 \<notin> set (serializeOrder r)"
  using plain_show_nat [of "unat (or_quantity r)"] plain_show_int [of "status_int (or_status r)"]
    plain_show_int [of "to_seconds (or_createdAt r)"] plain_show_int [of "to_seconds (or_updatedAt r)"]
  by (auto simp: storable_def serializeOrder_def plain_def simp del: plain_show_nat plain_show_int
      dest: plain_show_fixed2 [unfolded plain_def])

lemma serialize_nonempty [simp]: "serializeOrder r \<noteq> []"
  by (simp add: serializeOrder_def)

lemma deserialize_serialize_list:
  "\<forall>r \<in> set rs. storable r \<Longrightarrow> deserializeOrderList (serializeOrderList rs) = Inr rs"
proof (induction rs rule: serializeOrderList.induct)
  case 1
  then show ?case by (simp add: deserializeOrderList_def getline_tokens.simps)
next
  case (2 r)
  then have "storable r" by simp
  with serialize_plain [of r] show ?case
    by (simp add: deserializeOrderList_def getline_tokens_one deserialize_serialize)
next
  case (3 r r' rs)
  then have "storable r" by simp
  with serialize_plain [of r] 3 show ?case
    by (simp add: deserializeOrderList_def getline_tokens_sep deserialize_serialize)
qed

lemma serialize_list_plain: "\<forall>r \<in> set rs. storable r \<Longrightarrow> CHR 0x00 \<notin> set (serializeOrderList rs)"
  by (induction rs rule: serializeOrderList.induct) (auto dest: serialize_plain)

section \<open>Lemmas: operations on a ready pool\<close>

lemma PutOrder_run:
  assumes "redis_serves api db" and "pool_ready w" and "oc_pool oc"
  obtains w' where "PutOrder api oc r w = Returns True w'" and "pool_ready w'"
    and "db (rw_server w') = (db (rw_server w))(c_str (buildOrderKey oc (or_orderId r)) \<mapsto> c_str (serializeOrder r))"
    and "redis_world.more w' = redis_world.more w"
  using assms(3) by (auto simp: PutOrder_def setKey_def intro: pool_set [OF assms(1,2)])

lemma GetOrder_run:
  assumes "redis_serves api db" and "pool_ready w" and "oc_pool oc"
    and "db (rw_server w) (c_str (buildOrderKey oc i)) = Some p" and "deserializeOrder p = Inr r"
  obtains w' where "GetOrder api oc i w = Returns (Some r) w'" and "pool_ready w'"
    and "db (rw_server w') = db (rw_server w)" and "redis_world.more w' = redis_world.more w"
proof -
  let ?body = "andThen (getKey api (buildOrderKey oc i)) (\<lambda>payload. case payload of None \<Rightarrow> ret None
      | Some p \<Rightarrow> andThen (from_sum (deserializeOrder p)) (\<lambda>r. ret (Some r)))"
  obtain w' where "with_client api (guarded None ?body) w = Returns (Some r) w'" "pool_ready w'"
      "db (rw_server w') = db (rw_server w)" "redis_world.more w' = redis_world.more w"
    by (rule pool_call [OF assms(2), where P = "\<lambda>s. db s = db (rw_server w)"])
      (auto simp: getKey_def andThen_def on_client_run serves_get [OF assms(1)] assms(4,5) prog_simps)
  with assms(3) show thesis by (intro that [of w']) (simp_all add: GetOrder_def)
qed

lemma GetOrder_miss:
  assumes "redis_serves api db" and "pool_ready w" and "oc_pool oc"
    and "db (rw_server w) (c_str (buildOrderKey oc i)) = None"
  obtains w' where "GetOrder api oc i w = Returns None w'" and "pool_ready w'"
    and "db (rw_server w') = db (rw_server w)" and "redis_world.more w' = redis_world.more w"
proof -
  let ?body = "andThen (getKey api (buildOrderKey oc i)) (\<lambda>payload. case payload of None \<Rightarrow> ret None
      | Some p \<Rightarrow> andThen (from_sum (deserializeOrder p)) (\<lambda>r. ret (Some r)))"
  obtain w' where "with_client api (guarded None ?body) w = Returns None w'" "pool_ready w'"
      "db (rw_server w') = db (rw_server w)" "redis_world.more w' = redis_world.more w"
    by (rule pool_call [OF assms(2), where P = "\<lambda>s. db s = db (rw_server w)"])
      (auto simp: getKey_def andThen_def on_client_run serves_get [OF assms(1)] assms(4) prog_simps)
  with assms(3) show thesis by (intro that [of w']) (simp_all add: GetOrder_def)
qed

lemma PutUserOrders_run:
  assumes "redis_serves api db" and "pool_ready w" and "oc_pool oc" and "oc_enableUserIndex oc"
  obtains w' where "PutUserOrders api oc u rs w = Returns True w'" and "pool_ready w'"
    and "db (rw_server w') = (db (rw_server w))(c_str (buildUserKey oc u) \<mapsto> c_str (serializeOrderList rs))"
    and "redis_world.more w' = redis_world.more w"
  using assms(3,4) by (auto simp: PutUserOrders_def setKey_def intro: pool_set [OF assms(1,2)])

lemma GetUserOrders_run:
  assumes "redis_serves api db" and "pool_ready w" and "oc_pool oc" and "oc_enableUserIndex oc"
    and "db (rw_server w) (c_str (buildUserKey oc u)) = Some p" and "deserializeOrderList p = Inr rs"
  obtains w' where "GetUserOrders api oc u w = Returns (Some rs) w'" and "pool_ready w'"
    and "db (rw_server w') = db (rw_server w)" and "redis_world.more w' = redis_world.more w"
proof -
  let ?body = "andThen (getKey api (buildUserKey oc u)) (\<lambda>payload. case payload of None \<Rightarrow> ret None
      | Some p \<Rightarrow> andThen (from_sum (deserializeOrderList p)) (\<lambda>rs. ret (Some rs)))"
  obtain w' where "with_client api (guarded None ?body) w = Returns (Some rs) w'" "pool_ready w'"
      "db (rw_server w') = db (rw_server w)" "redis_world.more w' = redis_world.more w"
    by (rule pool_call [OF assms(2), where P = "\<lambda>s. db s = db (rw_server w)"])
      (auto simp: getKey_def andThen_def on_client_run serves_get [OF assms(1)] assms(5,6) prog_simps)
  with assms(3,4) show thesis by (intro that [of w']) (simp_all add: GetUserOrders_def)
qed

text \<open>A record of example.\<close>

definition sample_order :: order_record where
  "sample_order = OrderRecord_new\<lparr>or_orderId := ''ORD-1'', or_userId := ''u1'', or_productId := ''p1'', or_quantity := 2,
     or_totalAmount := cents 1999, or_createdAt := from_seconds 100, or_updatedAt := from_seconds 100\<rparr>"

lemma sample_storable: "storable sample_order"
proof -
  have "(1999::nat) < max_cents" by (simp add: max_cents_def)
  moreover have "int64 100" by (simp add: int64_def)
  ultimately show ?thesis
    unfolding storable_def sample_order_def by (auto simp: OrderRecord_new_def plain_def)
qed

section \<open>Properties\<close>

text \<open>
  C31. The cache gives back what was put in. On a Redis server that answers, with an idle connected
  client in the pool, \<open>PutOrder\<close> succeeds and \<open>GetOrder\<close> of its id returns the same record, and
  \<open>PutUserOrders\<close> succeeds and \<open>GetUserOrders\<close> returns the same list: for records without a
  separator, line break or zero byte in a field, whole cents below ten million millions and whole
  seconds. Every call leaves the pool ready.
\<close>

theorem cache_roundtrip:
  assumes "redis_serves api db" and "pool_ready w" and "oc_pool oc" and "oc_enableUserIndex oc"
    and "storable r" and "\<forall>x \<in> set rs. storable x"
  shows "\<exists>w1 w2 w3 w4. PutOrder api oc r w = Returns True w1 \<and> GetOrder api oc (or_orderId r) w1 = Returns (Some r) w2 \<and>
     PutUserOrders api oc u rs w2 = Returns True w3 \<and> GetUserOrders api oc u w3 = Returns (Some rs) w4 \<and> pool_ready w4"
proof -
  obtain w1 where w1: "PutOrder api oc r w = Returns True w1" "pool_ready w1"
    "db (rw_server w1) = (db (rw_server w))(c_str (buildOrderKey oc (or_orderId r)) \<mapsto> c_str (serializeOrder r))"
    by (rule PutOrder_run [OF assms(1-3)])
  have d1: "db (rw_server w1) (c_str (buildOrderKey oc (or_orderId r))) = Some (serializeOrder r)"
    using w1(3) serialize_plain [OF assms(5)] by simp
  obtain w2 where w2: "GetOrder api oc (or_orderId r) w1 = Returns (Some r) w2" "pool_ready w2"
    by (rule GetOrder_run [OF assms(1) w1(2) assms(3) d1 deserialize_serialize [OF assms(5)]])
  obtain w3 where w3: "PutUserOrders api oc u rs w2 = Returns True w3" "pool_ready w3"
    "db (rw_server w3) = (db (rw_server w2))(c_str (buildUserKey oc u) \<mapsto> c_str (serializeOrderList rs))"
    by (rule PutUserOrders_run [OF assms(1) w2(2) assms(3,4)])
  have d3: "db (rw_server w3) (c_str (buildUserKey oc u)) = Some (serializeOrderList rs)"
    using w3(3) serialize_list_plain [OF assms(6)] by simp
  obtain w4 where "GetUserOrders api oc u w3 = Returns (Some rs) w4" "pool_ready w4"
    by (rule GetUserOrders_run [OF assms(1) w3(2) assms(3,4) d3 deserialize_serialize_list [OF assms(6)]])
  with w1 w2 w3 show ?thesis by blast
qed

theorem cache_roundtrip_witness:
  "\<exists>w1 w2. PutOrder map_redis (OrderCache_new True) sample_order
       \<lparr>rw_clients = [(RedisClient_new ''h'' 6379 [])\<lparr>rd_context := CtxGood\<rparr>], rw_server = Map.empty\<rparr> = Returns True w1 \<and>
     GetOrder map_redis (OrderCache_new True) ''ORD-1'' w1 = Returns (Some sample_order) w2"
proof -
  let ?w = "\<lparr>rw_clients = [(RedisClient_new ''h'' 6379 [])\<lparr>rd_context := CtxGood\<rparr>], rw_server = Map.empty\<rparr>"
  have "pool_ready ?w" by (simp add: pool_ready_def RedisClient_IsConnected_def)
  moreover have "or_orderId sample_order = ''ORD-1''" by (simp add: sample_order_def)
  ultimately show ?thesis
    using cache_roundtrip [OF map_redis_serves, of ?w "OrderCache_new True" sample_order "[sample_order]" "''u1''"] sample_storable
    by (auto simp: OrderCache_new_def)
qed

text \<open>
  An unreachable Redis server makes the cache wait for ever: the pool's constructor drops the
  clients that could not connect, and with none left every call on an order waits for a client
  that no one will put back, where a caller expects \<open>false\<close> or an empty result.
\<close>

theorem unreachable_redis_blocks:
  assumes "\<And>h p r. fst (redis_connect api h p r) = False" and "oc_pool oc"
    and "rw_clients w = fst (RedisPool_new api host port n password srv)"
  shows "PutOrder api oc r w = Blocks \<and> GetOrder api oc i w = Blocks \<and> RemoveOrder api oc i w = Blocks"
proof -
  have "rw_clients w = []"
    using connect_clients_refused [OF assms(1)] by (simp add: assms(3) RedisPool_new_def)
  then show ?thesis
    using assms(2) by (simp add: PutOrder_def GetOrder_def RemoveOrder_def empty_pool_blocks)
qed

theorem unreachable_redis_blocks_witness:
  "GetOrder \<lparr>redis_connect = \<lambda>h p m. (False, m), redis_command = map_command\<rparr> (OrderCache_new True) ''ORD-1''
     \<lparr>rw_clients = fst (RedisPool_new \<lparr>redis_connect = \<lambda>h p m. (False, m), redis_command = map_command\<rparr> ''h'' 6379 4 [] Map.empty),
      rw_server = Map.empty\<rparr> = Blocks"
  using unreachable_redis_blocks [where api = "\<lparr>redis_connect = \<lambda>h p m. (False, m), redis_command = map_command\<rparr>"
      and oc = "OrderCache_new True" and i = "''ORD-1''" and n = 4 and host = "''h''" and port = 6379 and password = "[]" and srv = Map.empty
      and w = "\<lparr>rw_clients = fst (RedisPool_new \<lparr>redis_connect = \<lambda>h p m. (False, m), redis_command = map_command\<rparr> ''h'' 6379 4 [] Map.empty),
          rw_server = Map.empty\<rparr>"]
  by (simp add: OrderCache_new_def)

end
