(* ===== verification/Inventory.thy ===== *)
theory Inventory
  imports Order_Cache
begin

text \<open>
  Stock and reservations in Redis: \<open>infra/inventory/InventoryRepository\<close> and
  \<open>domain/InventoryService\<close>. The world of the application adds to the Redis world the clock, whose
  successive readings are arbitrary, and the messages handed to the message queue.
\<close>

section \<open>The world\<close>

record 'r app_world = "'r redis_world" +
  aw_clock :: "nat \<Rightarrow> int"
  aw_tick :: nat
  aw_published :: "(string \<times> string \<times> string) list"

definition clock_now :: "(int, ('r, 'z) app_world_scheme) prog" where
  "clock_now w = Returns (aw_clock w (aw_tick w)) (w\<lparr>aw_tick := Suc (aw_tick w)\<rparr>)"

text \<open>\<open>MQProducer::publish\<close> hands exchange, routing key and message to the library.\<close>

definition mq_publish :: "string \<Rightarrow> string \<Rightarrow> string \<Rightarrow> (unit, ('r, 'z) app_world_scheme) prog" where
  "mq_publish exchange routingKey message w =
     Returns () (w\<lparr>aw_published := aw_published w @ [(exchange, routingKey, message)]\<rparr>)"

text \<open>A program of the world, run while a client is borrowed.\<close>

definition in_scope :: "('a, 'w) prog \<Rightarrow> ('a, 'c \<times> 'w) prog" where
  "in_scope m cw =
     (case m (snd cw) of
        Returns x w \<Rightarrow> Returns x (fst cw, w)
      | Throws e w \<Rightarrow> Throws e (fst cw, w)
      | Blocks \<Rightarrow> Blocks)"

text \<open>The body of \<open>try { return std::stoull(s); } catch (...)\<close>: a failure is a value.\<close>

definition stoull_opt :: "string \<Rightarrow> nat option" where
  "stoull_opt s = (case std_stoul s of Inl e \<Rightarrow> None | Inr n \<Rightarrow> Some n)"

section \<open>\<open>InventoryRepository\<close>\<close>

record inventory_repo =
  ir_pool :: bool
  ir_stockKeyPrefix :: string
  ir_reservationKeyPrefix :: string
  ir_reservationTTL :: int

record reservation =
  rv_reservationId :: string
  rv_orderId :: string
  rv_productId :: string
  rv_quantity :: "32 word"
  rv_expiresAt :: int

definition InventoryRepository_new :: "bool \<Rightarrow> inventory_repo" where
  "InventoryRepository_new pool =
     \<lparr>ir_pool = pool, ir_stockKeyPrefix = ''inventory:stock:'',
      ir_reservationKeyPrefix = ''inventory:reservation:'', ir_reservationTTL = 300\<rparr>"

definition Repo_makeStockKey :: "inventory_repo \<Rightarrow> string \<Rightarrow> string" where
  "Repo_makeStockKey ir productId = ir_stockKeyPrefix ir @ productId"

definition Repo_makeReservationKey :: "inventory_repo \<Rightarrow> string \<Rightarrow> string" where
  "Repo_makeReservationKey ir reservationId = ir_reservationKeyPrefix ir @ reservationId"

text \<open>\<open>borrowClient\<close> and the check that follows it in every operation.\<close>

definition borrowed :: "'r redis_api \<Rightarrow> inventory_repo \<Rightarrow> 'a \<Rightarrow>
    ('a, redis_client \<times> ('r, 'z) redis_world_scheme) prog \<Rightarrow> ('a, ('r, 'z) redis_world_scheme) prog" where
  "borrowed api ir dflt body = (if \<not> ir_pool ir then ret dflt else with_client api (guarded dflt body))"

text \<open>Reading a stock counter and, when it is a number, going on with it.\<close>

definition with_stock :: "'r redis_api \<Rightarrow> string \<Rightarrow> 'a \<Rightarrow> 'a \<Rightarrow>
    (nat \<Rightarrow> ('a, redis_client \<times> ('r, 'z) redis_world_scheme) prog) \<Rightarrow> ('a, redis_client \<times> ('r, 'z) redis_world_scheme) prog" where
  "with_stock api key missing invalid f =
     andThen (on_client (RedisClient_Get api key)) (\<lambda>val.
       case val of
         None \<Rightarrow> ret missing
       | Some v \<Rightarrow> (case stoull_opt v of None \<Rightarrow> ret invalid | Some stock \<Rightarrow> f stock))"

definition Repo_DecrementStock :: "'r redis_api \<Rightarrow> inventory_repo \<Rightarrow> string \<Rightarrow> 32 word \<Rightarrow> (bool, ('r, 'z) redis_world_scheme) prog" where
  "Repo_DecrementStock api ir productId quantity =
     borrowed api ir False (with_stock api (Repo_makeStockKey ir productId) False False (\<lambda>stock.
       if stock < unat quantity then ret False
       else on_client (RedisClient_Set api (Repo_makeStockKey ir productId) (show_nat (stock - unat quantity)))))"

definition Repo_IncrementStock :: "'r redis_api \<Rightarrow> inventory_repo \<Rightarrow> string \<Rightarrow> 32 word \<Rightarrow> (bool, ('r, 'z) redis_world_scheme) prog" where
  "Repo_IncrementStock api ir productId quantity =
     borrowed api ir False (with_stock api (Repo_makeStockKey ir productId) False False (\<lambda>stock.
       on_client (RedisClient_Set api (Repo_makeStockKey ir productId) (show_nat ((stock + unat quantity) mod 2 ^ 64)))))"

definition Repo_SetStock :: "'r redis_api \<Rightarrow> inventory_repo \<Rightarrow> string \<Rightarrow> 64 word \<Rightarrow> (bool, ('r, 'z) redis_world_scheme) prog" where
  "Repo_SetStock api ir productId amount =
     borrowed api ir False (on_client (RedisClient_Set api (Repo_makeStockKey ir productId) (show_nat (unat amount))))"

definition Repo_QueryStock :: "'r redis_api \<Rightarrow> inventory_repo \<Rightarrow> string \<Rightarrow> (nat option, ('r, 'z) redis_world_scheme) prog" where
  "Repo_QueryStock api ir productId =
     borrowed api ir None (with_stock api (Repo_makeStockKey ir productId) None None (\<lambda>stock. ret (Some stock)))"

definition SaveReservation :: "'r redis_api \<Rightarrow> inventory_repo \<Rightarrow> reservation \<Rightarrow> (bool, ('r, 'z) redis_world_scheme) prog" where
  "SaveReservation api ir rv =
     borrowed api ir False (on_client (RedisClient_Set api (Repo_makeReservationKey ir (rv_reservationId rv))
       (rv_orderId rv @ CHR ''|'' # rv_productId rv @ CHR ''|'' # show_nat (unat (rv_quantity rv)) @ CHR ''|'' #
        show_int (to_seconds (rv_expiresAt rv)))))"

text \<open>The parse of a stored reservation; its numbers are read without a handler.\<close>

definition parse_reservation :: "string \<Rightarrow> string \<Rightarrow> cpp_error + reservation" where
  "parse_reservation reservationId val =
     (let (orderId, i1) = std_getline (CHR ''|'') (istream_new val) [];
          (productId, i2) = std_getline (CHR ''|'') i1 [];
          (token3, i3) = std_getline (CHR ''|'') i2 []
      in sum_bind (std_stoul token3) (\<lambda>quantity.
         let (token4, i4) = std_getline (CHR ''|'') i3 token3
         in sum_bind (std_stoll token4) (\<lambda>expires.
         Inr \<lparr>rv_reservationId = reservationId, rv_orderId = orderId, rv_productId = productId,
              rv_quantity = of_nat quantity, rv_expiresAt = from_seconds expires\<rparr>)))"

definition GetReservation :: "'r redis_api \<Rightarrow> inventory_repo \<Rightarrow> string \<Rightarrow> (reservation option, ('r, 'z) redis_world_scheme) prog" where
  "GetReservation api ir reservationId =
     borrowed api ir None (andThen (on_client (RedisClient_Get api (Repo_makeReservationKey ir reservationId))) (\<lambda>val.
       case val of
         None \<Rightarrow> ret None
       | Some v \<Rightarrow> andThen (from_sum (parse_reservation reservationId v)) (\<lambda>rv. ret (Some rv))))"

definition Repo_DeleteReservation :: "'r redis_api \<Rightarrow> inventory_repo \<Rightarrow> string \<Rightarrow> (bool, ('r, 'z) redis_world_scheme) prog" where
  "Repo_DeleteReservation api ir reservationId =
     borrowed api ir False (on_client (RedisClient_Del api (Repo_makeReservationKey ir reservationId)))"

section \<open>\<open>InventoryService\<close>\<close>

text \<open>The dependencies are pointers: a flag tells whether one is there.\<close>

record inventory_service =
  iv_redis :: bool
  iv_producer :: bool
  iv_orders :: bool
  iv_stockKeyPrefix :: string
  iv_reservationKeyPrefix :: string
  iv_reservationTTL :: int
  iv_publishEvents :: bool
  iv_eventExchange :: string
  iv_reservationRoutingKey :: string
  iv_restockRoutingKey :: string

definition InventoryService_new :: "bool \<Rightarrow> bool \<Rightarrow> bool \<Rightarrow> inventory_service" where
  "InventoryService_new redis producer orders =
     \<lparr>iv_redis = redis, iv_producer = producer, iv_orders = orders,
      iv_stockKeyPrefix = ''inventory:stock:'', iv_reservationKeyPrefix = ''inventory:reservation:'',
      iv_reservationTTL = 300, iv_publishEvents = True, iv_eventExchange = [],
      iv_reservationRoutingKey = ''inventory.reservation'', iv_restockRoutingKey = ''inventory.restock''\<rparr>"

definition makeStockKey :: "inventory_service \<Rightarrow> string \<Rightarrow> string" where
  "makeStockKey iv productId = iv_stockKeyPrefix iv @ productId"

definition makeReservationKey :: "inventory_service \<Rightarrow> string \<Rightarrow> string" where
  "makeReservationKey iv reservationId = iv_reservationKeyPrefix iv @ reservationId"

definition makeReservationId :: "order_record \<Rightarrow> string" where
  "makeReservationId order = or_orderId order @ '':'' @ or_productId order"

text \<open>The messages, with their quotation marks.\<close>

definition reservation_event :: "reservation \<Rightarrow> string \<Rightarrow> string" where
  \<open>reservation_event rv eventType =
     ''{"reservationId":"'' @ rv_reservationId rv @ ''","orderId":"'' @ rv_orderId rv @
     ''","productId":"'' @ rv_productId rv @ ''","quantity":'' @ show_nat (unat (rv_quantity rv)) @
     '',"eventType":"'' @ eventType @ ''"}''\<close>

definition restock_event :: "string \<Rightarrow> int \<Rightarrow> string" where
  \<open>restock_event productId quantity =
     ''{"productId":"'' @ productId @ ''","quantity":'' @ show_int quantity @ '',"eventType":"restock"}''\<close>

definition PublishReservationEvent :: "inventory_service \<Rightarrow> reservation \<Rightarrow> string \<Rightarrow> (unit, ('r, 'z) app_world_scheme) prog" where
  "PublishReservationEvent iv rv eventType =
     (if \<not> iv_producer iv then ret ()
      else mq_publish (iv_eventExchange iv) (iv_reservationRoutingKey iv) (reservation_event rv eventType))"

definition PublishRestockEvent :: "inventory_service \<Rightarrow> string \<Rightarrow> int \<Rightarrow> (unit, ('r, 'z) app_world_scheme) prog" where
  "PublishRestockEvent iv productId quantity =
     (if \<not> iv_producer iv then ret ()
      else mq_publish (iv_eventExchange iv) (iv_restockRoutingKey iv) (restock_event productId quantity))"

definition publish_if_enabled :: "inventory_service \<Rightarrow> reservation \<Rightarrow> string \<Rightarrow> (unit, redis_client \<times> ('r, 'z) app_world_scheme) prog" where
  "publish_if_enabled iv rv eventType =
     (if iv_publishEvents iv \<and> iv_producer iv then in_scope (PublishReservationEvent iv rv eventType) else ret ())"

definition decrementStock :: "'r redis_api \<Rightarrow> inventory_service \<Rightarrow> string \<Rightarrow> 32 word \<Rightarrow> (bool, redis_client \<times> ('r, 'z) redis_world_scheme) prog" where
  "decrementStock api iv productId quantity =
     with_stock api (makeStockKey iv productId) False False (\<lambda>stock.
       if stock < unat quantity then ret False
       else on_client (RedisClient_Set api (makeStockKey iv productId) (show_nat (stock - unat quantity))))"

definition incrementStock :: "'r redis_api \<Rightarrow> inventory_service \<Rightarrow> string \<Rightarrow> 32 word \<Rightarrow> (bool, redis_client \<times> ('r, 'z) redis_world_scheme) prog" where
  "incrementStock api iv productId quantity =
     with_stock api (makeStockKey iv productId) False False (\<lambda>stock.
       on_client (RedisClient_Set api (makeStockKey iv productId) (show_nat ((stock + unat quantity) mod 2 ^ 64))))"

definition cacheReservation :: "'r redis_api \<Rightarrow> inventory_service \<Rightarrow> reservation \<Rightarrow> (bool, redis_client \<times> ('r, 'z) redis_world_scheme) prog" where
  "cacheReservation api iv rv =
     on_client (RedisClient_Set api (makeReservationKey iv (rv_reservationId rv))
       (rv_orderId rv @ '','' @ rv_productId rv @ '','' @ show_nat (unat (rv_quantity rv)) @ '',''))"

definition fetchReservation :: "'r redis_api \<Rightarrow> inventory_service \<Rightarrow> string \<Rightarrow> (reservation option, redis_client \<times> ('r, 'z) app_world_scheme) prog" where
  "fetchReservation api iv reservationId =
     andThen (on_client (RedisClient_Get api (makeReservationKey iv reservationId))) (\<lambda>val.
       case val of
         None \<Rightarrow> ret None
       | Some v \<Rightarrow>
           (let (orderId, i1) = std_getline (CHR '','') (istream_new v) [];
                (productId, i2) = std_getline (CHR '','') i1 []
            in andThen (in_scope clock_now) (\<lambda>now.
                 ret (Some \<lparr>rv_reservationId = reservationId, rv_orderId = orderId, rv_productId = productId,
                            rv_quantity = of_nat (if snd i2 then extract_u32 (fst i2) else 0),
                            rv_expiresAt = now + from_seconds (iv_reservationTTL iv)\<rparr>))))"

definition deleteReservation :: "'r redis_api \<Rightarrow> inventory_service \<Rightarrow> string \<Rightarrow> (bool, redis_client \<times> ('r, 'z) redis_world_scheme) prog" where
  "deleteReservation api iv reservationId = on_client (RedisClient_Del api (makeReservationKey iv reservationId))"

text \<open>
  \<open>ReserveForOrder\<close> in its two halves: reading and comparing the stock, and writing it and the
  reservation. False with its error message is \<open>Inl\<close>, true with the reservation is \<open>Inr\<close>.
\<close>

definition reserve_check :: "'r redis_api \<Rightarrow> inventory_service \<Rightarrow> order_record \<Rightarrow> (string + nat, redis_client \<times> ('r, 'z) redis_world_scheme) prog" where
  "reserve_check api iv order =
     with_stock api (makeStockKey iv (or_productId order)) (Inl ''Failed to read stock from Redis'')
       (Inl ''Invalid stock value format'') (\<lambda>stockValue.
       if stockValue < unat (or_quantity order) then ret (Inl ''Insufficient stock'') else ret (Inr stockValue))"

definition reserve_apply :: "'r redis_api \<Rightarrow> inventory_service \<Rightarrow> order_record \<Rightarrow> nat \<Rightarrow> (string + reservation, redis_client \<times> ('r, 'z) app_world_scheme) prog" where
  "reserve_apply api iv order stockValue =
     andThen (on_client (RedisClient_Set api (makeStockKey iv (or_productId order)) (show_nat (stockValue - unat (or_quantity order))))) (\<lambda>ok.
     if \<not> ok then ret (Inl ''Failed to update stock'')
     else andThen (in_scope clock_now) (\<lambda>now.
       let rv = \<lparr>rv_reservationId = makeReservationId order, rv_orderId = or_orderId order,
                 rv_productId = or_productId order, rv_quantity = or_quantity order,
                 rv_expiresAt = now + from_seconds (iv_reservationTTL iv)\<rparr>
       in andThen (cacheReservation api iv rv) (\<lambda>ok.
          if \<not> ok then ret (Inl ''Failed to cache reservation'')
          else andThen (publish_if_enabled iv rv ''created'') (\<lambda>_. ret (Inr rv)))))"

definition ReserveForOrder :: "'r redis_api \<Rightarrow> inventory_service \<Rightarrow> order_record \<Rightarrow> (string + reservation, ('r, 'z) app_world_scheme) prog" where
  "ReserveForOrder api iv order =
     (if \<not> iv_redis iv \<or> \<not> iv_orders iv then ret (Inl ''Missing dependencies'')
      else with_client api (guarded (Inl ''Failed to acquire Redis client'')
        (andThen (reserve_check api iv order) (\<lambda>c.
           case c of Inl e \<Rightarrow> ret (Inl e) | Inr stockValue \<Rightarrow> reserve_apply api iv order stockValue))))"

definition CommitReservation :: "'r redis_api \<Rightarrow> inventory_service \<Rightarrow> reservation \<Rightarrow> (string + unit, ('r, 'z) app_world_scheme) prog" where
  "CommitReservation api iv rv =
     (if \<not> iv_redis iv then ret (Inl ''Missing Redis dependency'')
      else with_client api (guarded (Inl ''Failed to acquire Redis client'')
        (andThen (deleteReservation api iv (rv_reservationId rv)) (\<lambda>ok.
           if \<not> ok then ret (Inl ''Failed to delete reservation cache'')
           else andThen (publish_if_enabled iv rv ''committed'') (\<lambda>_. ret (Inr ()))))))"

definition ReleaseReservation :: "'r redis_api \<Rightarrow> inventory_service \<Rightarrow> reservation \<Rightarrow> string \<Rightarrow> (string + unit, ('r, 'z) app_world_scheme) prog" where
  "ReleaseReservation api iv rv reason =
     (if \<not> iv_redis iv then ret (Inl ''Missing Redis dependency'')
      else with_client api (guarded (Inl ''Failed to acquire Redis client'')
        (andThen (incrementStock api iv (rv_productId rv) (rv_quantity rv)) (\<lambda>ok.
           if \<not> ok then ret (Inl ''Failed to restore stock'')
           else andThen (deleteReservation api iv (rv_reservationId rv)) (\<lambda>_.
                andThen (publish_if_enabled iv rv (''released:'' @ reason)) (\<lambda>_. ret (Inr ())))))))"

text \<open>\<open>AdjustStock\<close> counts in signed 64-bit numbers, without wrap-around, and stops at zero.\<close>

definition AdjustStock :: "'r redis_api \<Rightarrow> inventory_service \<Rightarrow> string \<Rightarrow> int \<Rightarrow> (bool, ('r, 'z) app_world_scheme) prog" where
  "AdjustStock api iv productId delta =
     (if \<not> iv_redis iv then ret False
      else with_client api (guarded False
        (andThen (on_client (RedisClient_Get api (makeStockKey iv productId))) (\<lambda>val.
           case val of
             None \<Rightarrow> ret False
           | Some v \<Rightarrow>
               (case std_stoll v of
                  Inl e \<Rightarrow> ret False
                | Inr stock \<Rightarrow>
                    on_client (RedisClient_Set api (makeStockKey iv productId)
                      (show_int (if stock + delta < 0 then 0 else stock + delta))))))))"

definition Service_SetStock :: "'r redis_api \<Rightarrow> inventory_service \<Rightarrow> string \<Rightarrow> 64 word \<Rightarrow> (bool, ('r, 'z) app_world_scheme) prog" where
  "Service_SetStock api iv productId amount =
     (if \<not> iv_redis iv then ret False
      else with_client api (guarded False (on_client (RedisClient_Set api (makeStockKey iv productId) (show_nat (unat amount))))))"

definition Service_QueryStock :: "'r redis_api \<Rightarrow> inventory_service \<Rightarrow> string \<Rightarrow> (nat option, ('r, 'z) app_world_scheme) prog" where
  "Service_QueryStock api iv productId =
     (if \<not> iv_redis iv then ret None
      else with_client api (guarded None
        (with_stock api (makeStockKey iv productId) None None (\<lambda>stock. ret (Some stock)))))"

definition SyncStockFromDatabase :: "inventory_service \<Rightarrow> string \<Rightarrow> bool" where
  "SyncStockFromDatabase iv productId \<longleftrightarrow> iv_redis iv \<and> iv_orders iv"

section \<open>Lemmas: a client in hand\<close>

definition nul_free :: "string \<Rightarrow> bool" where
  "nul_free s \<longleftrightarrow> CHR 0x00 \<notin> set s"

lemma nul_free_c_str: "nul_free s \<Longrightarrow> c_str s = s"
  by (simp add: nul_free_def)

lemma nul_free_show_nat [simp]: "nul_free (show_nat n)"
  using plain_show_nat [of n] by (simp add: nul_free_def plain_def del: plain_show_nat)

lemma nul_free_append [simp]: "nul_free (s @ t) \<longleftrightarrow> nul_free s \<and> nul_free t"
  by (auto simp: nul_free_def)

lemma nul_free_Cons [simp]: "nul_free (c # s) \<longleftrightarrow> c \<noteq> CHR 0x00 \<and> nul_free s"
  by (auto simp: nul_free_def)

lemma nul_free_Nil [simp]: "nul_free []"
  by (simp add: nul_free_def)

lemma stoull_opt_show_nat: "n < 2 ^ 64 \<Longrightarrow> stoull_opt (show_nat n) = Some n"
  using std_stoul_show_nat [of n "[]"] by (simp add: stoull_opt_def)

text \<open>What a product's stock counter holds.\<close>

definition stock_is :: "inventory_service \<Rightarrow> string \<Rightarrow> nat \<Rightarrow> (string \<Rightarrow> string option) \<Rightarrow> bool" where
  "stock_is iv productId n kv \<longleftrightarrow> kv (makeStockKey iv productId) = Some (show_nat n) \<and> n < 2 ^ 64"

lemma with_stock_run:
  assumes "redis_serves api db" and "RedisClient_IsConnected c" and "nul_free key"
    and "db (rw_server w) key = Some (show_nat n)" and "n < 2 ^ 64"
  obtains r where "with_stock api key m i f (c, w) = f n (c, w\<lparr>rw_server := r\<rparr>)" and "db r = db (rw_server w)"
proof
  let ?r = "snd (snd (RedisClient_Get api key (c, rw_server w)))"
  have "fst (RedisClient_Get api key (c, rw_server w)) = Some (show_nat n)"
    using serves_get(1) [OF assms(1,2)] assms(3,4) by (simp add: nul_free_c_str)
  then show "with_stock api key m i f (c, w) = f n (c, w\<lparr>rw_server := ?r\<rparr>)"
    by (simp add: with_stock_def andThen_def on_client_run serves_get(2) [OF assms(1,2)] stoull_opt_show_nat [OF assms(5)])
  show "db ?r = db (rw_server w)" by (rule serves_get(3) [OF assms(1,2)])
qed

lemma set_run:
  assumes "redis_serves api db" and "RedisClient_IsConnected c" and "nul_free key" and "nul_free v"
  obtains r where "on_client (RedisClient_Set api key v) (c, w) = Returns True (c, w\<lparr>rw_server := r\<rparr>)"
    and "db r = (db (rw_server w))(key \<mapsto> v)"
  using serves_set [OF assms(1,2), of key v "rw_server w"] assms(3,4)
  by (auto simp: on_client_run nul_free_c_str)

lemma del_run:
  assumes "redis_serves api db" and "RedisClient_IsConnected c" and "nul_free key"
  obtains r where "on_client (RedisClient_Del api key) (c, w) = Returns (db (rw_server w) key \<noteq> None) (c, w\<lparr>rw_server := r\<rparr>)"
    and "db r = (db (rw_server w))(key := None)"
  using serves_del [OF assms(1,2), of key "rw_server w"] assms(3)
  by (auto simp: on_client_run nul_free_c_str)

text \<open>The identifiers of an order fit into keys.\<close>

definition order_keys_ok :: "inventory_service \<Rightarrow> order_record \<Rightarrow> bool" where
  "order_keys_ok iv order \<longleftrightarrow>
     nul_free (iv_stockKeyPrefix iv) \<and> nul_free (iv_reservationKeyPrefix iv) \<and>
     nul_free (or_orderId order) \<and> nul_free (or_productId order)"

definition reservation_of :: "inventory_service \<Rightarrow> order_record \<Rightarrow> int \<Rightarrow> reservation" where
  "reservation_of iv order now =
     \<lparr>rv_reservationId = makeReservationId order, rv_orderId = or_orderId order,
      rv_productId = or_productId order, rv_quantity = or_quantity order,
      rv_expiresAt = now + from_seconds (iv_reservationTTL iv)\<rparr>"

definition reservation_text :: "order_record \<Rightarrow> string" where
  "reservation_text order =
     or_orderId order @ '','' @ or_productId order @ '','' @ show_nat (unat (or_quantity order)) @ '',''"

lemma reserve_check_run:
  assumes "redis_serves api db" and "RedisClient_IsConnected c" and "order_keys_ok iv order"
    and "stock_is iv (or_productId order) n (db (rw_server w))"
  obtains r where "reserve_check api iv order (c, w) =
      Returns (if n < unat (or_quantity order) then Inl ''Insufficient stock'' else Inr n) (c, w\<lparr>rw_server := r\<rparr>)"
    and "db r = db (rw_server w)"
proof -
  have "nul_free (makeStockKey iv (or_productId order))"
    using assms(3) by (simp add: order_keys_ok_def makeStockKey_def)
  then obtain r where "reserve_check api iv order (c, w) =
      (\<lambda>stockValue. if stockValue < unat (or_quantity order) then ret (Inl ''Insufficient stock'') else ret (Inr stockValue)) n (c, w\<lparr>rw_server := r\<rparr>)"
    and "db r = db (rw_server w)"
    using assms(4) unfolding reserve_check_def stock_is_def by (elim conjE) (rule with_stock_run [OF assms(1,2)])
  then show thesis by (intro that [of r]) (simp_all add: ret_def)
qed

text \<open>The world after a reservation with the stock at \<open>n\<close>.\<close>

definition reserved :: "inventory_service \<Rightarrow> order_record \<Rightarrow> nat \<Rightarrow> (string \<Rightarrow> string option) \<Rightarrow> string \<Rightarrow> string option" where
  "reserved iv order n kv =
     kv(makeStockKey iv (or_productId order) \<mapsto> show_nat (n - unat (or_quantity order)),
        makeReservationKey iv (makeReservationId order) \<mapsto> reservation_text order)"

text \<open>The message a change of a reservation sends, when events are on.\<close>

definition published_events :: "inventory_service \<Rightarrow> reservation \<Rightarrow> string \<Rightarrow> (string \<times> string \<times> string) list" where
  "published_events iv rv eventType =
     (if iv_publishEvents iv \<and> iv_producer iv then [(iv_eventExchange iv, iv_reservationRoutingKey iv, reservation_event rv eventType)] else [])"

lemma publish_run:
  "publish_if_enabled iv rv eventType (c, w) = Returns () (c, w\<lparr>aw_published := aw_published w @ published_events iv rv eventType\<rparr>)"
  by (simp add: publish_if_enabled_def published_events_def in_scope_def PublishReservationEvent_def mq_publish_def ret_def)

text \<open>What two worlds that differ in the Redis part only agree on.\<close>

lemma same_more:
  "redis_world.more w = redis_world.more v \<longleftrightarrow>
   aw_clock w = aw_clock v \<and> aw_tick w = aw_tick v \<and> aw_published w = aw_published v \<and> app_world.more w = app_world.more v"
  by (cases w, cases v) simp

lemma reserve_apply_run:
  assumes "redis_serves api db" and "RedisClient_IsConnected c" and "order_keys_ok iv order"
  obtains w1 where "reserve_apply api iv order n (c, w) = Returns (Inr (reservation_of iv order (aw_clock w (aw_tick w)))) (c, w1)"
    and "rw_clients w1 = rw_clients w" and "db (rw_server w1) = reserved iv order n (db (rw_server w))"
    and "redis_world.more w1 = redis_world.more (w\<lparr>aw_tick := Suc (aw_tick w),
           aw_published := aw_published w @ published_events iv (reservation_of iv order (aw_clock w (aw_tick w))) ''created''\<rparr>)"
proof -
  let ?sk = "makeStockKey iv (or_productId order)" and ?rk = "makeReservationKey iv (makeReservationId order)"
  let ?rv = "reservation_of iv order (aw_clock w (aw_tick w))"
  have k: "nul_free ?sk" "nul_free ?rk" "nul_free (reservation_text order)"
    using assms(3) by (simp_all add: order_keys_ok_def makeStockKey_def makeReservationKey_def makeReservationId_def reservation_text_def)
  obtain r1 where r1: "on_client (RedisClient_Set api ?sk (show_nat (n - unat (or_quantity order)))) (c, w) = Returns True (c, w\<lparr>rw_server := r1\<rparr>)"
    "db r1 = (db (rw_server w))(?sk \<mapsto> show_nat (n - unat (or_quantity order)))"
    by (rule set_run [OF assms(1,2) k(1) nul_free_show_nat])
  let ?w1 = "w\<lparr>rw_server := r1, aw_tick := Suc (aw_tick w)\<rparr>"
  obtain r2 where r2: "on_client (RedisClient_Set api ?rk (reservation_text order)) (c, ?w1) = Returns True (c, ?w1\<lparr>rw_server := r2\<rparr>)"
    "db r2 = (db (rw_server ?w1))(?rk \<mapsto> reservation_text order)"
    by (rule set_run [OF assms(1,2) k(2,3)])
  have cr: "cacheReservation api iv ?rv (c, ?w1) = Returns True (c, ?w1\<lparr>rw_server := r2\<rparr>)"
    using r2(1) by (simp add: cacheReservation_def reservation_of_def reservation_text_def)
  let ?w2 = "?w1\<lparr>rw_server := r2, aw_published := aw_published w @ published_events iv ?rv ''created''\<rparr>"
  have "reserve_apply api iv order n (c, w) = Returns (Inr ?rv) (c, ?w2)"
    using r1(1) cr publish_run [of iv ?rv "''created''" c "?w1\<lparr>rw_server := r2\<rparr>"]
    by (simp add: reserve_apply_def andThen_def in_scope_def clock_now_def reservation_of_def Let_def ret_def)
  with r1(2) r2(2) show thesis by (intro that [of ?w2]) (simp_all add: reserved_def same_more)
qed

section \<open>Lemmas: reserving and releasing\<close>

lemma ReserveForOrder_ok:
  assumes "redis_serves api db" and "pool_ready w" and "iv_redis iv" and "iv_orders iv" and "order_keys_ok iv order"
    and "stock_is iv (or_productId order) n (db (rw_server w))" and "unat (or_quantity order) \<le> n"
  obtains w' where "ReserveForOrder api iv order w = Returns (Inr (reservation_of iv order (aw_clock w (aw_tick w)))) w'"
    and "pool_ready w'" and "db (rw_server w') = reserved iv order n (db (rw_server w))"
    and "redis_world.more w' = redis_world.more (w\<lparr>aw_tick := Suc (aw_tick w),
           aw_published := aw_published w @ published_events iv (reservation_of iv order (aw_clock w (aw_tick w))) ''created''\<rparr>)"
proof -
  let ?body = "andThen (reserve_check api iv order) (\<lambda>c. case c of Inl e \<Rightarrow> ret (Inl e) | Inr stockValue \<Rightarrow> reserve_apply api iv order stockValue)"
  let ?rv = "reservation_of iv order (aw_clock w (aw_tick w))"
  let ?v = "w\<lparr>aw_tick := Suc (aw_tick w), aw_published := aw_published w @ published_events iv ?rv ''created''\<rparr>"
  let ?P = "\<lambda>x r (z :: ('b) app_world_ext). x = Inr ?rv \<and> db r = reserved iv order n (db (rw_server w)) \<and> z = redis_world.more ?v"
  have "\<exists>x w1. ?body (c, w\<lparr>rw_clients := cs\<rparr>) = Returns x (c, w1) \<and> rw_clients w1 = cs \<and> ?P x (rw_server w1) (redis_world.more w1)"
    if c: "RedisClient_IsConnected c" for c cs
  proof -
    let ?w = "w\<lparr>rw_clients := cs\<rparr>"
    have st: "stock_is iv (or_productId order) n (db (rw_server ?w))" using assms(6) by simp
    obtain r where
      r: "reserve_check api iv order (c, ?w) = Returns (if n < unat (or_quantity order) then Inl ''Insufficient stock'' else Inr n) (c, ?w\<lparr>rw_server := r\<rparr>)"
        "db r = db (rw_server ?w)" by (rule reserve_check_run [OF assms(1) c assms(5) st])
    obtain w1 where w1: "reserve_apply api iv order n (c, ?w\<lparr>rw_server := r\<rparr>) =
          Returns (Inr (reservation_of iv order (aw_clock (?w\<lparr>rw_server := r\<rparr>) (aw_tick (?w\<lparr>rw_server := r\<rparr>))))) (c, w1)"
        "rw_clients w1 = rw_clients (?w\<lparr>rw_server := r\<rparr>)"
        "db (rw_server w1) = reserved iv order n (db (rw_server (?w\<lparr>rw_server := r\<rparr>)))"
        "redis_world.more w1 = redis_world.more (?w\<lparr>rw_server := r, aw_tick := Suc (aw_tick (?w\<lparr>rw_server := r\<rparr>)),
           aw_published := aw_published (?w\<lparr>rw_server := r\<rparr>) @ published_events iv
             (reservation_of iv order (aw_clock (?w\<lparr>rw_server := r\<rparr>) (aw_tick (?w\<lparr>rw_server := r\<rparr>)))) ''created''\<rparr>)"
      by (rule reserve_apply_run [OF assms(1) c assms(5)])
    show ?thesis using r w1 assms(7) by (intro exI [of _ "Inr ?rv"] exI [of _ w1]) (simp add: andThen_def same_more)
  qed
  then obtain x w' where "with_client api (guarded (Inl ''Failed to acquire Redis client'') ?body) w = Returns x w'"
    "pool_ready w'" "?P x (rw_server w') (redis_world.more w')"
    by (rule pool_run [OF assms(2), where body = ?body and P = ?P])
  with assms(3,4) show thesis by (intro that [of w']) (simp_all add: ReserveForOrder_def)
qed

lemma ReserveForOrder_short:
  assumes "redis_serves api db" and "pool_ready w" and "iv_redis iv" and "iv_orders iv" and "order_keys_ok iv order"
    and "stock_is iv (or_productId order) n (db (rw_server w))" and "n < unat (or_quantity order)"
  obtains w' where "ReserveForOrder api iv order w = Returns (Inl ''Insufficient stock'') w'"
    and "pool_ready w'" and "db (rw_server w') = db (rw_server w)" and "redis_world.more w' = redis_world.more w"
proof -
  let ?body = "andThen (reserve_check api iv order) (\<lambda>c. case c of Inl e \<Rightarrow> ret (Inl e) | Inr stockValue \<Rightarrow> reserve_apply api iv order stockValue)"
  let ?P = "\<lambda>x r (z :: ('b) app_world_ext). x = Inl ''Insufficient stock'' \<and> db r = db (rw_server w) \<and> z = redis_world.more w"
  have "\<exists>x w1. ?body (c, w\<lparr>rw_clients := cs\<rparr>) = Returns x (c, w1) \<and> rw_clients w1 = cs \<and> ?P x (rw_server w1) (redis_world.more w1)"
    if c: "RedisClient_IsConnected c" for c cs
  proof -
    let ?w = "w\<lparr>rw_clients := cs\<rparr>"
    have st: "stock_is iv (or_productId order) n (db (rw_server ?w))" using assms(6) by simp
    obtain r where
      r: "reserve_check api iv order (c, ?w) = Returns (if n < unat (or_quantity order) then Inl ''Insufficient stock'' else Inr n) (c, ?w\<lparr>rw_server := r\<rparr>)"
        "db r = db (rw_server ?w)" by (rule reserve_check_run [OF assms(1) c assms(5) st])
    then show ?thesis using assms(7)
      by (intro exI [of _ "Inl ''Insufficient stock''"] exI [of _ "?w\<lparr>rw_server := r\<rparr>"]) (simp add: andThen_def ret_def same_more)
  qed
  then obtain x w' where "with_client api (guarded (Inl ''Failed to acquire Redis client'') ?body) w = Returns x w'"
    "pool_ready w'" "?P x (rw_server w') (redis_world.more w')"
    by (rule pool_run [OF assms(2), where body = ?body and P = ?P])
  with assms(3,4) show thesis by (intro that [of w']) (simp_all add: ReserveForOrder_def)
qed

definition released :: "inventory_service \<Rightarrow> reservation \<Rightarrow> nat \<Rightarrow> (string \<Rightarrow> string option) \<Rightarrow> string \<Rightarrow> string option" where
  "released iv rv n kv =
     (kv(makeStockKey iv (rv_productId rv) \<mapsto> show_nat (n + unat (rv_quantity rv))))(makeReservationKey iv (rv_reservationId rv) := None)"

lemma ReleaseReservation_run:
  assumes "redis_serves api db" and "pool_ready w" and "iv_redis iv"
    and "nul_free (makeStockKey iv (rv_productId rv))" and "nul_free (makeReservationKey iv (rv_reservationId rv))"
    and "stock_is iv (rv_productId rv) n (db (rw_server w))" and "n + unat (rv_quantity rv) < 2 ^ 64"
  obtains w' where "ReleaseReservation api iv rv reason w = Returns (Inr ()) w'"
    and "pool_ready w'" and "db (rw_server w') = released iv rv n (db (rw_server w))"
    and "redis_world.more w' = redis_world.more (w\<lparr>aw_published := aw_published w @ published_events iv rv (''released:'' @ reason)\<rparr>)"
proof -
  let ?sk = "makeStockKey iv (rv_productId rv)" and ?rk = "makeReservationKey iv (rv_reservationId rv)"
  let ?v = "show_nat ((n + unat (rv_quantity rv)) mod 2 ^ 64)"
  let ?body = "andThen (incrementStock api iv (rv_productId rv) (rv_quantity rv)) (\<lambda>ok.
      if \<not> ok then ret (Inl ''Failed to restore stock'')
      else andThen (deleteReservation api iv (rv_reservationId rv)) (\<lambda>_.
           andThen (publish_if_enabled iv rv (''released:'' @ reason)) (\<lambda>_. ret (Inr ()))))"
  let ?P = "\<lambda>x r (z :: ('b) app_world_ext). x = Inr () \<and> db r = released iv rv n (db (rw_server w)) \<and>
      z = redis_world.more (w\<lparr>aw_published := aw_published w @ published_events iv rv (''released:'' @ reason)\<rparr>)"
  have "\<exists>x w1. ?body (c, w\<lparr>rw_clients := cs\<rparr>) = Returns x (c, w1) \<and> rw_clients w1 = cs \<and> ?P x (rw_server w1) (redis_world.more w1)"
    if c: "RedisClient_IsConnected c" for c cs
  proof -
    let ?w = "w\<lparr>rw_clients := cs\<rparr>"
    have st: "db (rw_server ?w) ?sk = Some (show_nat n)" "n < 2 ^ 64" using assms(6) by (simp_all add: stock_is_def)
    obtain r1 where r1: "incrementStock api iv (rv_productId rv) (rv_quantity rv) (c, ?w) =
        (\<lambda>stock. on_client (RedisClient_Set api ?sk (show_nat ((stock + unat (rv_quantity rv)) mod 2 ^ 64)))) n (c, ?w\<lparr>rw_server := r1\<rparr>)"
        "db r1 = db (rw_server ?w)"
      unfolding incrementStock_def by (rule with_stock_run [OF assms(1) c assms(4) st])
    obtain r2 where r2: "on_client (RedisClient_Set api ?sk ?v) (c, ?w\<lparr>rw_server := r1\<rparr>) = Returns True (c, ?w\<lparr>rw_server := r1\<rparr>\<lparr>rw_server := r2\<rparr>)"
        "db r2 = (db (rw_server (?w\<lparr>rw_server := r1\<rparr>)))(?sk \<mapsto> ?v)"
      by (rule set_run [OF assms(1) c assms(4) nul_free_show_nat])
    let ?w2 = "?w\<lparr>rw_server := r2\<rparr>"
    obtain r3 where r3: "on_client (RedisClient_Del api ?rk) (c, ?w2) = Returns (db (rw_server ?w2) ?rk \<noteq> None) (c, ?w2\<lparr>rw_server := r3\<rparr>)"
        "db r3 = (db (rw_server ?w2))(?rk := None)"
      by (rule del_run [OF assms(1) c assms(5)])
    let ?w4 = "?w2\<lparr>rw_server := r3, aw_published := aw_published w @ published_events iv rv (''released:'' @ reason)\<rparr>"
    have "?body (c, ?w) = Returns (Inr ()) (c, ?w4)"
      using r1(1) r2(1) r3(1) by (simp add: andThen_def deleteReservation_def ret_def publish_run)
    with r1(2) r2(2) r3(2) assms(7) show ?thesis
      by (intro exI [of _ "Inr ()"] exI [of _ ?w4]) (simp add: released_def same_more)
  qed
  then obtain x w' where "with_client api (guarded (Inl ''Failed to acquire Redis client'') ?body) w = Returns x w'"
    "pool_ready w'" "?P x (rw_server w') (redis_world.more w')"
    by (rule pool_run [OF assms(2), where body = ?body and P = ?P])
  with assms(3) show thesis by (intro that [of w']) (simp_all add: ReleaseReservation_def)
qed

text \<open>The two kinds of keys never meet under the default prefixes.\<close>

lemma default_keys_differ: "makeStockKey (InventoryService_new a b c) p \<noteq> makeReservationKey (InventoryService_new a b c) q"
  by (simp add: makeStockKey_def makeReservationKey_def InventoryService_new_def)

lemma order_keys_ok_default:
  "order_keys_ok (InventoryService_new a b c) order \<longleftrightarrow> nul_free (or_orderId order) \<and> nul_free (or_productId order)"
  by (simp add: order_keys_ok_def InventoryService_new_def)

section \<open>Properties\<close>

text \<open>
  C32. Reserving takes from the stock exactly what an order asks for, and releasing gives it back.
  With a Redis server that answers and the stock of the product at \<open>n\<close>: an order for at most \<open>n\<close>
  leaves the counter at \<open>n\<close> minus its quantity and stores the reservation, and releasing that
  reservation restores the whole database but for the reservation key, which is gone; an order for
  more than \<open>n\<close> is refused and changes nothing.
\<close>

theorem reserve_release:
  assumes "redis_serves api db" and "pool_ready w" and "iv = InventoryService_new True mq True"
    and "nul_free (or_orderId order)" and "nul_free (or_productId order)"
    and "stock_is iv (or_productId order) n (db (rw_server w))"
  shows "(unat (or_quantity order) \<le> n \<longrightarrow>
       (\<exists>rv w1 w2. ReserveForOrder api iv order w = Returns (Inr rv) w1 \<and>
          stock_is iv (or_productId order) (n - unat (or_quantity order)) (db (rw_server w1)) \<and>
          db (rw_server w1) (makeReservationKey iv (rv_reservationId rv)) = Some (reservation_text order) \<and>
          ReleaseReservation api iv rv reason w1 = Returns (Inr ()) w2 \<and>
          db (rw_server w2) = (db (rw_server w))(makeReservationKey iv (rv_reservationId rv) := None))) \<and>
     (n < unat (or_quantity order) \<longrightarrow>
       (\<exists>w1. ReserveForOrder api iv order w = Returns (Inl ''Insufficient stock'') w1 \<and> db (rw_server w1) = db (rw_server w)))"
proof -
  have iv: "iv_redis iv" "iv_orders iv" "order_keys_ok iv order"
    using assms(3-5) by (simp_all add: order_keys_ok_default) (simp_all add: InventoryService_new_def)
  have differ: "makeStockKey iv p \<noteq> makeReservationKey iv q" for p q using default_keys_differ by (simp add: assms(3))
  have st: "db (rw_server w) (makeStockKey iv (or_productId order)) = Some (show_nat n)" "n < 2 ^ 64"
    using assms(6) by (simp_all add: stock_is_def)
  show ?thesis
  proof (intro conjI impI)
    assume q: "unat (or_quantity order) \<le> n"
    let ?rv = "reservation_of iv order (aw_clock w (aw_tick w))"
    obtain w1 where w1: "ReserveForOrder api iv order w = Returns (Inr ?rv) w1" "pool_ready w1"
        "db (rw_server w1) = reserved iv order n (db (rw_server w))"
      by (rule ReserveForOrder_ok [OF assms(1,2) iv assms(6) q])
    have rv: "rv_productId ?rv = or_productId order" "rv_quantity ?rv = or_quantity order" "rv_reservationId ?rv = makeReservationId order"
      by (simp_all add: reservation_of_def)
    have s1: "stock_is iv (rv_productId ?rv) (n - unat (or_quantity order)) (db (rw_server w1))"
      using w1(3) differ st by (simp add: stock_is_def reserved_def rv)
    have keys: "nul_free (makeStockKey iv (rv_productId ?rv))" "nul_free (makeReservationKey iv (rv_reservationId ?rv))"
      using iv(3) by (simp_all add: rv order_keys_ok_def makeStockKey_def makeReservationKey_def makeReservationId_def)
    have "n - unat (or_quantity order) + unat (rv_quantity ?rv) < 2 ^ 64" using q st(2) by (simp add: rv)
    then obtain w2 where w2: "ReleaseReservation api iv ?rv reason w1 = Returns (Inr ()) w2" "pool_ready w2"
        "db (rw_server w2) = released iv ?rv (n - unat (or_quantity order)) (db (rw_server w1))"
      by (rule ReleaseReservation_run [OF assms(1) w1(2) iv(1) keys s1])
    have "db (rw_server w2) = (db (rw_server w))(makeReservationKey iv (rv_reservationId ?rv) := None)"
      using w2(3) w1(3) differ [symmetric] q st(1) by (auto simp: released_def reserved_def rv fun_eq_iff)
    moreover have "db (rw_server w1) (makeReservationKey iv (rv_reservationId ?rv)) = Some (reservation_text order)"
      using w1(3) by (simp add: reserved_def rv)
    ultimately show "\<exists>rv w1 w2. ReserveForOrder api iv order w = Returns (Inr rv) w1 \<and>
          stock_is iv (or_productId order) (n - unat (or_quantity order)) (db (rw_server w1)) \<and>
          db (rw_server w1) (makeReservationKey iv (rv_reservationId rv)) = Some (reservation_text order) \<and>
          ReleaseReservation api iv rv reason w1 = Returns (Inr ()) w2 \<and>
          db (rw_server w2) = (db (rw_server w))(makeReservationKey iv (rv_reservationId rv) := None)"
      using w1(1) w2(1) s1 unfolding rv(1) by blast
  next
    assume "n < unat (or_quantity order)"
    then obtain w1 where "ReserveForOrder api iv order w = Returns (Inl ''Insufficient stock'') w1" "db (rw_server w1) = db (rw_server w)"
      by (rule ReserveForOrder_short [OF assms(1,2) iv assms(6)])
    then show "\<exists>w1. ReserveForOrder api iv order w = Returns (Inl ''Insufficient stock'') w1 \<and> db (rw_server w1) = db (rw_server w)"
      by blast
  qed
qed

text \<open>A world of example: five pieces of product p1 in stock.\<close>

definition good_client :: redis_client where
  "good_client = (RedisClient_new ''h'' 6379 [])\<lparr>rd_context := CtxGood\<rparr>"

definition sample_world :: "(string \<Rightarrow> string option) app_world" where
  "sample_world =
     \<lparr>rw_clients = [good_client],
      rw_server = [''inventory:stock:p1'' \<mapsto> show_nat 5], aw_clock = (\<lambda>i. int i), aw_tick = 0, aw_published = []\<rparr>"

lemma sample_world_ok:
  "pool_ready sample_world" "stock_is (InventoryService_new True mq True) ''p1'' 5 (rw_server sample_world)"
  by (simp_all add: sample_world_def good_client_def pool_ready_def RedisClient_IsConnected_def stock_is_def makeStockKey_def
      InventoryService_new_def)

theorem reserve_release_witness:
  "\<exists>rv w1 w2. ReserveForOrder map_redis (InventoryService_new True True True) sample_order sample_world = Returns (Inr rv) w1 \<and>
     stock_is (InventoryService_new True True True) ''p1'' 3 (rw_server w1) \<and>
     ReleaseReservation map_redis (InventoryService_new True True True) rv ''rollback'' w1 = Returns (Inr ()) w2"
  using reserve_release [OF map_redis_serves sample_world_ok(1), of "InventoryService_new True True True" True sample_order 5 "''rollback''"]
    sample_world_ok(2)
  by (auto simp: sample_order_def OrderRecord_new_def)

text \<open>
  C39. The stock can be sold twice. Two requests on two clients that both read the counter before
  either writes it are both granted, although together they ask for more than there is, and the
  counter ends at what the second one left: reading and writing the stock are two commands.
\<close>

theorem oversell:
  assumes "redis_serves api db" and "RedisClient_IsConnected a" and "RedisClient_IsConnected b"
    and "iv = InventoryService_new True mq True" and "order_keys_ok iv x" and "order_keys_ok iv y"
    and "or_productId x = p" and "or_productId y = p" and "stock_is iv p n (db (rw_server w))"
    and "unat (or_quantity x) \<le> n" and "unat (or_quantity y) \<le> n" and "n < unat (or_quantity x) + unat (or_quantity y)"
  shows "\<exists>w1 w2 w3 w4 rx ry.
     reserve_check api iv x (a, w) = Returns (Inr n) (a, w1) \<and> reserve_check api iv y (b, w1) = Returns (Inr n) (b, w2) \<and>
     reserve_apply api iv x n (a, w2) = Returns (Inr rx) (a, w3) \<and> reserve_apply api iv y n (b, w3) = Returns (Inr ry) (b, w4) \<and>
     n < unat (rv_quantity rx) + unat (rv_quantity ry) \<and> stock_is iv p (n - unat (or_quantity y)) (db (rw_server w4))"
proof -
  note sx = assms(9) [folded assms(7)]
  obtain r1 where r1: "reserve_check api iv x (a, w) =
      Returns (if n < unat (or_quantity x) then Inl ''Insufficient stock'' else Inr n) (a, w\<lparr>rw_server := r1\<rparr>)" "db r1 = db (rw_server w)"
    by (rule reserve_check_run [OF assms(1,2,5) sx])
  let ?w1 = "w\<lparr>rw_server := r1\<rparr>"
  have sy: "stock_is iv (or_productId y) n (db (rw_server ?w1))" using assms(8,9) r1(2) by simp
  obtain r2 where r2: "reserve_check api iv y (b, ?w1) =
      Returns (if n < unat (or_quantity y) then Inl ''Insufficient stock'' else Inr n) (b, ?w1\<lparr>rw_server := r2\<rparr>)" "db r2 = db (rw_server ?w1)"
    by (rule reserve_check_run [OF assms(1,3,6) sy])
  let ?w2 = "?w1\<lparr>rw_server := r2\<rparr>"
  obtain w3 where w3: "reserve_apply api iv x n (a, ?w2) = Returns (Inr (reservation_of iv x (aw_clock ?w2 (aw_tick ?w2)))) (a, w3)"
    by (rule reserve_apply_run [OF assms(1,2,5)])
  obtain w4 where w4: "reserve_apply api iv y n (b, w3) = Returns (Inr (reservation_of iv y (aw_clock w3 (aw_tick w3)))) (b, w4)"
      "db (rw_server w4) = reserved iv y n (db (rw_server w3))"
    by (rule reserve_apply_run [OF assms(1,3,6)])
  have "stock_is iv p (n - unat (or_quantity y)) (db (rw_server w4))"
    using w4(2) default_keys_differ [of True mq True] assms(4,8,9) by (simp add: stock_is_def reserved_def less_imp_diff_less)
  moreover have "n < unat (rv_quantity (reservation_of iv x t)) + unat (rv_quantity (reservation_of iv y t'))" for t t'
    using assms(12) by (simp add: reservation_of_def)
  moreover have "reserve_check api iv x (a, w) = Returns (Inr n) (a, ?w1)" "reserve_check api iv y (b, ?w1) = Returns (Inr n) (b, ?w2)"
    using r1 r2 assms(10,11) by simp_all
  ultimately show ?thesis using w3 w4(1) by blast
qed

theorem oversell_witness:
  "\<exists>w1 w2 w3 w4 rx ry.
     reserve_check map_redis (InventoryService_new True True True) (sample_order\<lparr>or_quantity := 4\<rparr>) (good_client, sample_world) = Returns (Inr 5) (good_client, w1) \<and>
     reserve_check map_redis (InventoryService_new True True True) (sample_order\<lparr>or_quantity := 3\<rparr>) (good_client, w1) = Returns (Inr 5) (good_client, w2) \<and>
     reserve_apply map_redis (InventoryService_new True True True) (sample_order\<lparr>or_quantity := 4\<rparr>) 5 (good_client, w2) = Returns (Inr rx) (good_client, w3) \<and>
     reserve_apply map_redis (InventoryService_new True True True) (sample_order\<lparr>or_quantity := 3\<rparr>) 5 (good_client, w3) = Returns (Inr ry) (good_client, w4) \<and>
     5 < unat (rv_quantity rx) + unat (rv_quantity ry) \<and> stock_is (InventoryService_new True True True) ''p1'' 2 (rw_server w4)"
proof -
  let ?iv = "InventoryService_new True True True"
  have "RedisClient_IsConnected good_client" by (simp add: good_client_def RedisClient_IsConnected_def)
  moreover have "order_keys_ok ?iv (sample_order\<lparr>or_quantity := q\<rparr>)" for q
    by (simp add: order_keys_ok_default sample_order_def OrderRecord_new_def)
  moreover have "or_productId (sample_order\<lparr>or_quantity := q\<rparr>) = ''p1''" for q
    by (simp add: sample_order_def)
  ultimately show ?thesis
    using oversell [OF map_redis_serves, of good_client good_client ?iv True "sample_order\<lparr>or_quantity := 4\<rparr>" "sample_order\<lparr>or_quantity := 3\<rparr>" "''p1''" 5 sample_world]
      sample_world_ok(2) by simp
qed

end
