(* ===== verification/Mysql_Pool.thy ===== *)
theory Mysql_Pool
  imports Queues Effects "HOL-Library.Multiset"
begin

text \<open>
  The asynchronous database layer: operations and their promises (\<open>src/db/include/SQLTask.h\<close>,
  \<open>src/db/src/SQLTask.cpp\<close>), one connection and its worker thread (\<open>src/db/src/MySQLConn.cpp\<close>), and
  the pool (\<open>src/db/src/MySQLConnPool.cpp\<close>). The MySQL connector is a parameter: a record of its
  calls over a driver state. The threads of the pool are a step relation; \<open>pool_call\<close> is what one
  caller sees of \<open>Submit...(sql).get()\<close>, and it is shown to be a run of the step relation.
\<close>

section \<open>The driver\<close>

text \<open>
  Every call of the connector gives a value or throws: \<open>SqlException\<close> is \<open>sql::SQLException\<close>. A
  result set is the list of its rows. A null connection or result set is \<open>None\<close>.
\<close>

record ('c, 'd, 'row) sql_api =
  drv_connect :: "string \<Rightarrow> string \<Rightarrow> string \<Rightarrow> 'd \<Rightarrow> (cpp_error + 'c option) \<times> 'd"
  drv_setSchema :: "'c \<Rightarrow> string \<Rightarrow> 'd \<Rightarrow> (cpp_error + unit) \<times> 'd"
  drv_close :: "'c \<Rightarrow> 'd \<Rightarrow> (cpp_error + unit) \<times> 'd"
  drv_executeQuery :: "'c \<Rightarrow> string \<Rightarrow> 'd \<Rightarrow> (cpp_error + 'row list option) \<times> 'd"
  drv_execute :: "'c \<Rightarrow> string \<Rightarrow> 'd \<Rightarrow> (cpp_error + bool) \<times> 'd"
  drv_executeUpdate :: "'c \<Rightarrow> string \<Rightarrow> 'd \<Rightarrow> (cpp_error + int) \<times> 'd"
  drv_isValid :: "'c \<Rightarrow> 'd \<Rightarrow> (cpp_error + bool) \<times> 'd"

section \<open>\<open>MySQLConn\<close>\<close>

record mysql_conn_info =
  mi_url :: string
  mi_user :: string
  mi_password :: string
  mi_database :: string
  mi_timeout_sec :: int

definition MySQLConnInfo_validate :: "mysql_conn_info \<Rightarrow> bool" where
  "MySQLConnInfo_validate i \<longleftrightarrow> mi_url i \<noteq> [] \<and> mi_user i \<noteq> [] \<and> mi_database i \<noteq> [] \<and> 0 < mi_timeout_sec i"

record 'c mysql_conn =
  mc_info :: mysql_conn_info
  mc_conn :: "'c option"
  mc_alive :: bool

definition MySQLConn_new :: "mysql_conn_info \<Rightarrow> 'c mysql_conn" where
  "MySQLConn_new info = \<lparr>mc_info = info, mc_conn = None, mc_alive = True\<rparr>"

text \<open>
  One attempt of \<open>Open\<close>: a null connection leaves the loop body with \<open>continue\<close>; an exception of
  \<open>connect\<close> or \<open>setSchema\<close> is caught. The result is whether the attempt connected, and whether
  it ended in the handler.
\<close>

datatype open_attempt = Connected | NullConnection | Failed | OtherException cpp_error

definition open_once :: "('c, 'd, 'row) sql_api \<Rightarrow> 'c mysql_conn \<times> 'd \<Rightarrow> open_attempt \<times> 'c mysql_conn \<times> 'd" where
  "open_once api cd =
     (let c = fst cd; i = mc_info c
      in case drv_connect api (mi_url i) (mi_user i) (mi_password i) (snd cd) of
           (Inl SqlException, d) \<Rightarrow> (Failed, c\<lparr>mc_alive := False\<rparr>, d)
         | (Inl e, d) \<Rightarrow> (OtherException e, c, d)
         | (Inr None, d) \<Rightarrow> (NullConnection, c\<lparr>mc_conn := None, mc_alive := False\<rparr>, d)
         | (Inr (Some h), d) \<Rightarrow>
             (case drv_setSchema api h (mi_database i) d of
                (Inl SqlException, d1) \<Rightarrow> (Failed, c\<lparr>mc_conn := Some h, mc_alive := False\<rparr>, d1)
              | (Inl e, d1) \<Rightarrow> (OtherException e, c\<lparr>mc_conn := Some h\<rparr>, d1)
              | (Inr _, d1) \<Rightarrow> (Connected, c\<lparr>mc_conn := Some h, mc_alive := True\<rparr>, d1)))"

text \<open>
  \<open>Open(maxRetries, delay)\<close>, with the number of attempts left as argument: the handler of the last
  attempt logs at level \<open>FATAL\<close>, which aborts the process.
\<close>

fun MySQLConn_Open :: "('c, 'd, 'row) sql_api \<Rightarrow> nat \<Rightarrow> (bool, 'c mysql_conn \<times> 'd) prog" where
  "MySQLConn_Open api 0 cd = Returns False cd"
| "MySQLConn_Open api (Suc k) cd =
     (case open_once api cd of
        (Connected, cd1) \<Rightarrow> Returns True cd1
      | (NullConnection, cd1) \<Rightarrow> MySQLConn_Open api k cd1
      | (Failed, cd1) \<Rightarrow> (if k = 0 then Throws LogFatal cd1 else MySQLConn_Open api k cd1)
      | (OtherException e, cd1) \<Rightarrow> Throws e cd1)"

definition MySQLConn_Open3 :: "('c, 'd, 'row) sql_api \<Rightarrow> (bool, 'c mysql_conn \<times> 'd) prog" where
  "MySQLConn_Open3 api = MySQLConn_Open api 3"

definition MySQLConn_Close :: "('c, 'd, 'row) sql_api \<Rightarrow> 'c mysql_conn \<times> 'd \<Rightarrow> 'c mysql_conn \<times> 'd" where
  "MySQLConn_Close api cd =
     (let c = fst cd
      in case mc_conn c of
           None \<Rightarrow> (c\<lparr>mc_alive := False\<rparr>, snd cd)
         | Some h \<Rightarrow> (c\<lparr>mc_conn := None, mc_alive := False\<rparr>, snd (drv_close api h (snd cd))))"

text \<open>What \<open>catch (const sql::SQLException&)\<close> with a default value makes of a result.\<close>

definition catch_sql :: "'a \<Rightarrow> (cpp_error + 'a) \<times> 'd \<Rightarrow> (cpp_error + 'a) \<times> 'd" where
  "catch_sql dflt r = (case r of (Inl SqlException, d) \<Rightarrow> (Inr dflt, d) | _ \<Rightarrow> r)"

definition MySQLConn_ExecuteQuery :: "('c, 'd, 'row) sql_api \<Rightarrow> string \<Rightarrow> 'c mysql_conn \<Rightarrow> 'd \<Rightarrow> (cpp_error + 'row list option) \<times> 'd" where
  "MySQLConn_ExecuteQuery api sql c d =
     (case mc_conn c of None \<Rightarrow> (Inr None, d) | Some h \<Rightarrow> catch_sql None (drv_executeQuery api h sql d))"

definition MySQLConn_ExecuteStatement :: "('c, 'd, 'row) sql_api \<Rightarrow> string \<Rightarrow> 'c mysql_conn \<Rightarrow> 'd \<Rightarrow> (cpp_error + bool) \<times> 'd" where
  "MySQLConn_ExecuteStatement api sql c d =
     (case mc_conn c of
        None \<Rightarrow> (Inr False, d)
      | Some h \<Rightarrow> catch_sql False (case drv_execute api h sql d of (Inr _, d1) \<Rightarrow> (Inr True, d1) | r \<Rightarrow> r))"

definition MySQLConn_ExecuteUpdate :: "('c, 'd, 'row) sql_api \<Rightarrow> string \<Rightarrow> 'c mysql_conn \<Rightarrow> 'd \<Rightarrow> (cpp_error + int) \<times> 'd" where
  "MySQLConn_ExecuteUpdate api sql c d =
     (case mc_conn c of None \<Rightarrow> (Inr (- 1), d) | Some h \<Rightarrow> catch_sql (- 1) (drv_executeUpdate api h sql d))"

definition MySQLConn_Ping :: "('c, 'd, 'row) sql_api \<Rightarrow> 'c mysql_conn \<times> 'd \<Rightarrow> bool \<times> 'c mysql_conn \<times> 'd" where
  "MySQLConn_Ping api cd =
     (let c = fst cd
      in case mc_conn c of
           None \<Rightarrow> (False, cd)
         | Some h \<Rightarrow>
             (case drv_isValid api h (snd cd) of
                (Inr ok, d) \<Rightarrow> (ok, c\<lparr>mc_alive := ok\<rparr>, d)
              | (Inl e, d) \<Rightarrow> (False, c\<lparr>mc_alive := False\<rparr>, d)))"

section \<open>\<open>SQLOperation\<close>\<close>

datatype sql_kind = Query | Exec | Update

record sql_operation =
  so_kind :: sql_kind
  so_sql :: string

text \<open>The value one of the three promises of an operation is set to.\<close>

datatype 'row sql_answer = AnswerQuery "'row list option" | AnswerExec bool | AnswerUpdate int

definition SQLOperation_Execute :: "('c, 'd, 'row) sql_api \<Rightarrow> sql_operation \<Rightarrow> 'c mysql_conn \<Rightarrow> 'd \<Rightarrow> 'row sql_answer \<times> 'd" where
  "SQLOperation_Execute api op c d =
     (case so_kind op of
        Query \<Rightarrow> (case MySQLConn_ExecuteQuery api (so_sql op) c d of
                    (Inr rs, d1) \<Rightarrow> (AnswerQuery rs, d1) | (Inl e, d1) \<Rightarrow> (AnswerQuery None, d1))
      | Exec \<Rightarrow> (case MySQLConn_ExecuteStatement api (so_sql op) c d of
                    (Inr ok, d1) \<Rightarrow> (AnswerExec ok, d1) | (Inl e, d1) \<Rightarrow> (AnswerExec False, d1))
      | Update \<Rightarrow> (case MySQLConn_ExecuteUpdate api (so_sql op) c d of
                    (Inr n, d1) \<Rightarrow> (AnswerUpdate n, d1) | (Inl e, d1) \<Rightarrow> (AnswerUpdate (- 1), d1)))"

text \<open>The body of \<open>MySQLWorker::WorkerLoop\<close> for one task.\<close>

definition worker_task :: "('c, 'd, 'row) sql_api \<Rightarrow> sql_operation \<Rightarrow> ('row sql_answer, 'c mysql_conn \<times> 'd) prog" where
  "worker_task api op =
     andThen (\<lambda>cd. if mc_alive (fst cd) then Returns () cd
                   else andThen (MySQLConn_Open3 api) (\<lambda>_. ret ()) (MySQLConn_Close api cd))
       (\<lambda>_ cd. case SQLOperation_Execute api op (fst cd) (snd cd) of (a, d) \<Rightarrow> Returns a (fst cd, d))"

section \<open>\<open>MySQLConnPool\<close>\<close>

text \<open>
  A worker thread: at the head of its loop; inside \<open>Pop\<close>; holding a task; returned. Connections are
  shared by the pool and the workers, so both hold addresses into \<open>mp_heap\<close>. An operation is
  identified by the number of its submission. \<open>mp_accepted\<close>, \<open>mp_taken\<close> and \<open>mp_answers\<close> record the
  operations that entered the queue, left it, and had their promise set, in that order;
  \<open>mp_stopping\<close> is how far \<open>Shutdown\<close> has come in its loop over the workers.
\<close>

datatype worker_pc = WLoop | WPop | WTask "nat \<times> sql_operation" | WDone

record mysql_worker =
  wk_conn :: nat
  wk_running :: bool
  wk_pc :: worker_pc

record ('c, 'd, 'row) mysql_pool =
  mp_heap :: "'c mysql_conn list"
  mp_conns :: "nat list"
  mp_workers :: "mysql_worker list"
  mp_queue :: "(nat \<times> sql_operation) blocking_queue"
  mp_driver :: 'd
  mp_keepalive :: bool
  mp_stopping :: "nat option"
  mp_next :: nat
  mp_accepted :: "(nat \<times> sql_operation) list"
  mp_taken :: "(nat \<times> sql_operation) list"
  mp_answers :: "((nat \<times> sql_operation) \<times> 'row sql_answer) list"

text \<open>\<open>GetInstance\<close>: the registry holds weak pointers; \<open>alive\<close> tells which pools still exist.\<close>

definition GetInstance :: "string \<Rightarrow> (nat \<Rightarrow> bool) \<Rightarrow> nat \<Rightarrow> (string \<rightharpoonup> nat) \<Rightarrow> nat \<times> (string \<rightharpoonup> nat)" where
  "GetInstance db alive fresh instances =
     (case instances db of
        Some p \<Rightarrow> if alive p then (p, instances) else (fresh, instances(db \<mapsto> fresh))
      | None \<Rightarrow> (fresh, instances(db \<mapsto> fresh)))"

fun CreateInitialConnections :: "('c, 'd, 'row) sql_api \<Rightarrow> mysql_conn_info \<Rightarrow> nat \<Rightarrow> ('c mysql_conn list, 'd) prog" where
  "CreateInitialConnections api info 0 d = Returns [] d"
| "CreateInitialConnections api info (Suc n) d =
     (case MySQLConn_Open api 3 (MySQLConn_new info, d) of
        Returns True (c, d1) \<Rightarrow> andThen (CreateInitialConnections api info n) (\<lambda>cs. ret (c # cs)) d1
      | Returns False cd1 \<Rightarrow> CreateInitialConnections api info n (snd (MySQLConn_Close api cd1))
      | Throws e cd1 \<Rightarrow> Throws e (snd cd1)
      | Blocks \<Rightarrow> Blocks)"

definition SpawnWorkerThreads :: "nat list \<Rightarrow> mysql_worker list" where
  "SpawnWorkerThreads conns = map (\<lambda>i. \<lparr>wk_conn = i, wk_running = True, wk_pc = WLoop\<rparr>) conns"

definition InitPool :: "('c, 'd, 'row) sql_api \<Rightarrow> mysql_conn_info \<Rightarrow> int \<Rightarrow> 'd \<Rightarrow> (('c, 'd, 'row) mysql_pool, 'd) outcome" where
  "InitPool api info initial_size =
     andThen (CreateInitialConnections api info (nat initial_size)) (\<lambda>cs d.
       Returns \<lparr>mp_heap = cs, mp_conns = [0..<length cs], mp_workers = SpawnWorkerThreads [0..<length cs],
                mp_queue = BlockingQueue_new, mp_driver = d, mp_keepalive = True, mp_stopping = None,
                mp_next = 0, mp_accepted = [], mp_taken = [], mp_answers = []\<rparr> d)"

text \<open>
  \<open>SubmitQuery\<close>, \<open>SubmitExec\<close> and \<open>SubmitUpdate\<close> differ in the kind; the result is the number of
  the operation, which stands for the future. A cancelled queue does not take it.
\<close>

definition Submit :: "sql_kind \<Rightarrow> string \<Rightarrow> ('c, 'd, 'row) mysql_pool \<Rightarrow> nat \<times> ('c, 'd, 'row) mysql_pool" where
  "Submit kind sql p =
     (let op = (mp_next p, \<lparr>so_kind = kind, so_sql = sql\<rparr>)
      in (mp_next p,
          p\<lparr>mp_queue := BlockingQueue_Push op (mp_queue p), mp_next := Suc (mp_next p),
            mp_accepted := (if bq_stopped (mp_queue p) then mp_accepted p else mp_accepted p @ [op])\<rparr>))"

definition SubmitQuery :: "string \<Rightarrow> ('c, 'd, 'row) mysql_pool \<Rightarrow> nat \<times> ('c, 'd, 'row) mysql_pool" where
  "SubmitQuery sql = Submit Query sql"

definition SubmitExec :: "string \<Rightarrow> ('c, 'd, 'row) mysql_pool \<Rightarrow> nat \<times> ('c, 'd, 'row) mysql_pool" where
  "SubmitExec sql = Submit Exec sql"

definition SubmitUpdate :: "string \<Rightarrow> ('c, 'd, 'row) mysql_pool \<Rightarrow> nat \<times> ('c, 'd, 'row) mysql_pool" where
  "SubmitUpdate sql = Submit Update sql"

definition set_pc :: "nat \<Rightarrow> worker_pc \<Rightarrow> ('c, 'd, 'row) mysql_pool \<Rightarrow> ('c, 'd, 'row) mysql_pool" where
  "set_pc i pc p = p\<lparr>mp_workers := (mp_workers p)[i := (mp_workers p ! i)\<lparr>wk_pc := pc\<rparr>]\<rparr>"

text \<open>One step of worker \<open>i\<close> in \<open>WorkerLoop\<close>.\<close>

inductive worker_step :: "('c, 'd, 'row) sql_api \<Rightarrow> ('c, 'd, 'row) mysql_pool \<Rightarrow> ('c, 'd, 'row) mysql_pool \<Rightarrow> bool"
  for api :: "('c, 'd, 'row) sql_api" where
  wk_check: "i < length (mp_workers p) \<Longrightarrow> wk_pc (mp_workers p ! i) = WLoop \<Longrightarrow>
     worker_step api p (set_pc i (if wk_running (mp_workers p ! i) then WPop else WDone) p)"
| wk_take: "i < length (mp_workers p) \<Longrightarrow> wk_pc (mp_workers p ! i) = WPop \<Longrightarrow>
     BlockingQueue_Pop (mp_queue p) = (PopValue t, q) \<Longrightarrow>
     worker_step api p (set_pc i (WTask t) (p\<lparr>mp_queue := q, mp_taken := mp_taken p @ [t]\<rparr>))"
| wk_cancelled: "i < length (mp_workers p) \<Longrightarrow> wk_pc (mp_workers p ! i) = WPop \<Longrightarrow>
     fst (BlockingQueue_Pop (mp_queue p)) = PopFalse \<Longrightarrow> worker_step api p (set_pc i WDone p)"
| wk_run: "i < length (mp_workers p) \<Longrightarrow> wk_pc (mp_workers p ! i) = WTask t \<Longrightarrow>
     k = wk_conn (mp_workers p ! i) \<Longrightarrow>
     worker_task api (snd t) (mp_heap p ! k, mp_driver p) = Returns a (c, d) \<Longrightarrow>
     worker_step api p
       (set_pc i WLoop (p\<lparr>mp_heap := (mp_heap p)[k := c], mp_driver := d, mp_answers := mp_answers p @ [(t, a)]\<rparr>))"

text \<open>
  The whole pool: callers submit, workers run, and one thread may run \<open>Shutdown\<close>: cancel the queue,
  then stop and join the workers one after the other, then drop them.
\<close>

inductive pool_step :: "('c, 'd, 'row) sql_api \<Rightarrow> ('c, 'd, 'row) mysql_pool \<Rightarrow> ('c, 'd, 'row) mysql_pool \<Rightarrow> bool"
  for api :: "('c, 'd, 'row) sql_api" where
  ps_submit: "pool_step api p (snd (Submit kind sql p))"
| ps_worker: "worker_step api p q \<Longrightarrow> pool_step api p q"
| ps_shutdown: "mp_workers p \<noteq> [] \<Longrightarrow> mp_stopping p = None \<Longrightarrow>
     pool_step api p (p\<lparr>mp_queue := BlockingQueue_Cancel (mp_queue p), mp_stopping := Some 0\<rparr>)"
| ps_stop: "mp_stopping p = Some i \<Longrightarrow> i < length (mp_workers p) \<Longrightarrow>
     pool_step api p (p\<lparr>mp_workers := (mp_workers p)[i := (mp_workers p ! i)\<lparr>wk_running := False\<rparr>]\<rparr>)"
| ps_join: "mp_stopping p = Some i \<Longrightarrow> i < length (mp_workers p) \<Longrightarrow> \<not> wk_running (mp_workers p ! i) \<Longrightarrow>
     wk_pc (mp_workers p ! i) = WDone \<Longrightarrow> pool_step api p (p\<lparr>mp_stopping := Some (Suc i)\<rparr>)"
| ps_clear: "mp_stopping p = Some (length (mp_workers p)) \<Longrightarrow>
     pool_step api p (p\<lparr>mp_workers := [], mp_conns := [], mp_keepalive := False, mp_stopping := None\<rparr>)"

inductive_cases worker_stepE: "worker_step api p q"
inductive_cases pool_stepE: "pool_step api p q"

text \<open>
  One round of \<open>KeepAliveLoop\<close>: a connection is tested when the pool alone holds it, that is when
  no worker does.
\<close>

definition conn_unique :: "('c, 'd, 'row) mysql_pool \<Rightarrow> nat \<Rightarrow> bool" where
  "conn_unique p k \<longleftrightarrow> length (filter ((=) k) (mp_conns p @ map wk_conn (mp_workers p))) = 1"

definition ping_at :: "('c, 'd, 'row) sql_api \<Rightarrow> nat \<Rightarrow> ('c, 'd, 'row) mysql_pool \<Rightarrow> ('c, 'd, 'row) mysql_pool" where
  "ping_at api k p =
     (if \<not> conn_unique p k then p
      else (case MySQLConn_Ping api (mp_heap p ! k, mp_driver p) of
              (ok, c, d) \<Rightarrow> p\<lparr>mp_heap := (mp_heap p)[k := c], mp_driver := d\<rparr>))"

definition KeepAliveLoop :: "('c, 'd, 'row) sql_api \<Rightarrow> ('c, 'd, 'row) mysql_pool \<Rightarrow> ('c, 'd, 'row) mysql_pool" where
  "KeepAliveLoop api p = fold (ping_at api) (mp_conns p) p"

section \<open>\<open>QueryCallback\<close> and \<open>AsyncProcessor\<close>\<close>

text \<open>
  A pending callback is the number of its operation; the result is the list of callbacks called,
  with the result set each one got.
\<close>

definition future_ready :: "('c, 'd, 'row) mysql_pool \<Rightarrow> nat \<Rightarrow> 'row sql_answer option" where
  "future_ready p n = map_option snd (find (\<lambda>ta. fst (fst ta) = n) (mp_answers p))"

definition AddQueryCallback :: "nat \<Rightarrow> nat list \<Rightarrow> nat list" where
  "AddQueryCallback n pending = pending @ [n]"

fun InvokeIfReady :: "('c, 'd, 'row) mysql_pool \<Rightarrow> nat list \<Rightarrow> (nat \<times> 'row sql_answer) list \<times> nat list" where
  "InvokeIfReady p [] = ([], [])"
| "InvokeIfReady p (n # pending) =
     (case InvokeIfReady p pending of
        (called, rest) \<Rightarrow>
          (case future_ready p n of
             Some a \<Rightarrow> ((n, a) # called, rest)
           | None \<Rightarrow> (called, n # rest)))"

section \<open>One caller\<close>

text \<open>
  \<open>Submit...(sql).get()\<close> by a caller that finds every worker waiting: worker \<open>i\<close> takes the
  operation. The promise of an operation that a cancelled queue refuses is destroyed unset, and
  \<open>get\<close> throws; without a worker \<open>get\<close> does not come back. What a worker thread throws ends the
  process.
\<close>

definition pool_call :: "('c, 'd, 'row) sql_api \<Rightarrow> nat \<Rightarrow> sql_kind \<Rightarrow> string \<Rightarrow> ('row sql_answer, ('c, 'd, 'row) mysql_pool) prog" where
  "pool_call api i kind sql p =
     (let (n, p1) = Submit kind sql p;
          op = (n, \<lparr>so_kind = kind, so_sql = sql\<rparr>)
      in if bq_stopped (mp_queue p) then Throws FutureError p1
         else if \<not> i < length (mp_workers p) then Blocks
         else (let k = wk_conn (mp_workers p ! i)
               in case worker_task api (snd op) (mp_heap p ! k, mp_driver p) of
                    Returns a (c, d) \<Rightarrow>
                      Returns a (p1\<lparr>mp_queue := mp_queue p, mp_taken := mp_taken p @ [op],
                                    mp_heap := (mp_heap p)[k := c], mp_driver := d,
                                    mp_answers := mp_answers p @ [(op, a)]\<rparr>)
                  | Throws e (c, d) \<Rightarrow> Throws LogFatal (p1\<lparr>mp_heap := (mp_heap p)[k := c], mp_driver := d\<rparr>)
                  | Blocks \<Rightarrow> Blocks))"

section \<open>Lemmas: every operation is somewhere\<close>

definition pool_init :: "('c, 'd, 'row) sql_api \<Rightarrow> ('c, 'd, 'row) mysql_pool \<Rightarrow> bool" where
  "pool_init api p \<longleftrightarrow> (\<exists>info n d d'. InitPool api info n d = Returns p d')"

definition task_of :: "mysql_worker \<Rightarrow> (nat \<times> sql_operation) multiset" where
  "task_of w = (case wk_pc w of WTask t \<Rightarrow> {#t#} | _ \<Rightarrow> {#})"

definition held :: "mysql_worker list \<Rightarrow> (nat \<times> sql_operation) multiset" where
  "held ws = sum_list (map task_of ws)"

definition Pool_inv :: "('c, 'd, 'row) sql_api \<Rightarrow> ('c, 'd, 'row) mysql_pool \<Rightarrow> bool" where
  "Pool_inv api p \<longleftrightarrow>
     mp_taken p @ bq_queue (mp_queue p) = mp_accepted p \<and>
     mset (mp_taken p) = held (mp_workers p) + mset (map fst (mp_answers p)) \<and>
     distinct (map fst (mp_accepted p)) \<and> (\<forall>t\<in>set (mp_accepted p). fst t < mp_next p) \<and>
     (\<forall>(t, a)\<in>set (mp_answers p). \<exists>cd cd'. worker_task api (snd t) cd = Returns a cd') \<and>
     mp_conns p = map wk_conn (mp_workers p)"

definition Shutdown_inv :: "('c, 'd, 'row) mysql_pool \<Rightarrow> bool" where
  "Shutdown_inv p \<longleftrightarrow>
     (case mp_stopping p of
        None \<Rightarrow> mp_workers p \<noteq> [] \<longrightarrow>
          \<not> bq_stopped (mp_queue p) \<and> (\<forall>w\<in>set (mp_workers p). wk_running w \<and> wk_pc w \<noteq> WDone)
      | Some i \<Rightarrow> i \<le> length (mp_workers p) \<and> (\<forall>j<i. wk_pc (mp_workers p ! j) = WDone))"

lemma sum_list_update_at:
  "i < length xs \<Longrightarrow> sum_list (map f (xs[i := x])) + f (xs ! i) = sum_list (map f xs) + (f x :: 'b::comm_monoid_add)"
proof (induction xs arbitrary: i)
  case (Cons y ys)
  show ?case
  proof (cases i)
    case (Suc j)
    with Cons.IH [of j] Cons.prems show ?thesis by (simp add: algebra_simps)
  qed (simp add: algebra_simps)
qed simp

lemma held_update: "i < length ws \<Longrightarrow> held (ws[i := w]) + task_of (ws ! i) = held ws + task_of w"
  unfolding held_def by (rule sum_list_update_at)

lemma held_done: "(\<And>w. w \<in> set ws \<Longrightarrow> task_of w = {#}) \<Longrightarrow> held ws = {#}"
  by (induction ws) (auto simp: held_def)

lemma task_of_simps [simp]:
  "wk_pc w = WTask t \<Longrightarrow> task_of w = {#t#}"
  "wk_pc w \<in> {WLoop, WPop, WDone} \<Longrightarrow> task_of w = {#}"
  "task_of (w\<lparr>wk_running := b\<rparr>) = task_of w"
  by (auto simp: task_of_def)

lemma set_pc_simps [simp]:
  "mp_heap (set_pc i pc p) = mp_heap p" "mp_conns (set_pc i pc p) = mp_conns p" "mp_queue (set_pc i pc p) = mp_queue p"
  "mp_driver (set_pc i pc p) = mp_driver p" "mp_stopping (set_pc i pc p) = mp_stopping p" "mp_next (set_pc i pc p) = mp_next p"
  "mp_accepted (set_pc i pc p) = mp_accepted p" "mp_taken (set_pc i pc p) = mp_taken p" "mp_answers (set_pc i pc p) = mp_answers p"
  "mp_workers (set_pc i pc p) = (mp_workers p)[i := (mp_workers p ! i)\<lparr>wk_pc := pc\<rparr>]"
  by (simp_all add: set_pc_def)

lemma conn_update: "i < length ws \<Longrightarrow> wk_conn w = wk_conn (ws ! i) \<Longrightarrow> map wk_conn (ws[i := w]) = map wk_conn ws"
  by (metis list_update_id map_update)

lemma pop_queue:
  "BlockingQueue_Pop q = (PopValue t, q') \<Longrightarrow> bq_queue q = t # bq_queue q' \<and> bq_stopped q' = bq_stopped q"
  by (auto simp: BlockingQueue_Pop_def split: list.splits if_splits)

lemma worker_step_inv: "worker_step api p q \<Longrightarrow> Pool_inv api p \<Longrightarrow> Pool_inv api q"
proof (induction rule: worker_step.induct)
  case (wk_check i p)
  then show ?case
    using held_update [of i "mp_workers p" "(mp_workers p ! i)\<lparr>wk_pc := if wk_running (mp_workers p ! i) then WPop else WDone\<rparr>"]
    by (simp add: Pool_inv_def conn_update)
next
  case (wk_take i p t q)
  then show ?case
    using held_update [of i "mp_workers p" "(mp_workers p ! i)\<lparr>wk_pc := WTask t\<rparr>"] pop_queue [of "mp_queue p" t q]
    by (simp add: Pool_inv_def conn_update)
next
  case (wk_cancelled i p)
  then show ?case
    using held_update [of i "mp_workers p" "(mp_workers p ! i)\<lparr>wk_pc := WDone\<rparr>"]
    by (simp add: Pool_inv_def conn_update)
next
  case (wk_run i p t k a c d)
  have "held ((mp_workers p)[i := (mp_workers p ! i)\<lparr>wk_pc := WLoop\<rparr>]) + {#t#} = held (mp_workers p)"
    using held_update [of i "mp_workers p" "(mp_workers p ! i)\<lparr>wk_pc := WLoop\<rparr>"] wk_run by simp
  with wk_run show ?case
    by (auto simp: Pool_inv_def conn_update)
qed

lemma pool_step_inv:
  assumes "pool_step api p q" and "Pool_inv api p" and "Shutdown_inv p"
  shows "Pool_inv api q"
  using assms
proof (induction rule: pool_step.induct)
  case (ps_submit p kind sql)
  then show ?case
    by (auto simp: Pool_inv_def Submit_def Let_def BlockingQueue_Push_def)
next
  case (ps_worker p q)
  then show ?case using worker_step_inv by blast
next
  case (ps_shutdown p)
  then show ?case by (simp add: Pool_inv_def BlockingQueue_Cancel_def)
next
  case (ps_stop p i)
  then show ?case
    using held_update [of i "mp_workers p" "(mp_workers p ! i)\<lparr>wk_running := False\<rparr>"]
    by (simp add: Pool_inv_def conn_update)
next
  case (ps_join p i)
  then show ?case by (simp add: Pool_inv_def)
next
  case (ps_clear p)
  then have "held (mp_workers p) = {#}"
    by (intro held_done) (auto simp: Shutdown_inv_def in_set_conv_nth)
  with ps_clear show ?case by (simp add: Pool_inv_def held_def)
qed

lemma shutdown_update:
  assumes "Shutdown_inv p" and "mp_stopping q = mp_stopping p" and "bq_stopped (mp_queue q) = bq_stopped (mp_queue p)"
    and "i < length (mp_workers p)" and "mp_workers q = (mp_workers p)[i := w]"
    and "mp_stopping p = None \<Longrightarrow> \<not> bq_stopped (mp_queue p) \<Longrightarrow> wk_running (mp_workers p ! i) \<Longrightarrow> wk_running w \<and> wk_pc w \<noteq> WDone"
    and "wk_pc (mp_workers p ! i) \<noteq> WDone \<or> wk_pc w = WDone"
  shows "Shutdown_inv q"
proof (cases "mp_stopping p")
  case None
  have "mp_workers p ! i \<in> set (mp_workers p)" "mp_workers p \<noteq> []" using assms(4) by auto
  then have "\<not> bq_stopped (mp_queue p)" "\<forall>v\<in>set (mp_workers p). wk_running v \<and> wk_pc v \<noteq> WDone"
      "wk_running w \<and> wk_pc w \<noteq> WDone"
    using assms(1,6) None by (simp_all add: Shutdown_inv_def)
  then show ?thesis
    using None assms(2,3,5) set_update_subset_insert [of "mp_workers p" i w] by (auto simp: Shutdown_inv_def)
next
  case (Some j)
  with assms show ?thesis
    by (auto simp: Shutdown_inv_def nth_list_update)
qed

lemma worker_step_shutdown: "worker_step api p q \<Longrightarrow> Shutdown_inv p \<Longrightarrow> Shutdown_inv q"
proof (induction rule: worker_step.induct)
  case (wk_check i p)
  then show ?case by - (rule shutdown_update [where p = p and i = i and w = "(mp_workers p ! i)\<lparr>wk_pc := if wk_running (mp_workers p ! i) then WPop else WDone\<rparr>"], simp_all)
next
  case (wk_take i p t q)
  then show ?case using pop_queue [of "mp_queue p" t q] by - (rule shutdown_update [where p = p and i = i and w = "(mp_workers p ! i)\<lparr>wk_pc := WTask t\<rparr>"], simp_all)
next
  case (wk_cancelled i p)
  then show ?case by - (rule shutdown_update [where p = p and i = i and w = "(mp_workers p ! i)\<lparr>wk_pc := WDone\<rparr>"], (simp_all add: pop_false_iff))
next
  case (wk_run i p t k a c d)
  then show ?case by - (rule shutdown_update [where p = p and i = i and w = "(mp_workers p ! i)\<lparr>wk_pc := WLoop\<rparr>"], simp_all)
qed

lemma pool_step_shutdown: "pool_step api p q \<Longrightarrow> Shutdown_inv p \<Longrightarrow> Shutdown_inv q"
proof (induction rule: pool_step.induct)
  case (ps_submit p kind sql)
  then show ?case by (auto simp: Shutdown_inv_def Submit_def Let_def BlockingQueue_Push_def split: option.splits)
next
  case (ps_worker p q)
  then show ?case using worker_step_shutdown by blast
next
  case (ps_shutdown p)
  then show ?case by (simp add: Shutdown_inv_def)
next
  case (ps_stop p i)
  then show ?case by (auto simp: Shutdown_inv_def nth_list_update)
next
  case (ps_join p i)
  then show ?case by (auto simp: Shutdown_inv_def less_Suc_eq)
next
  case (ps_clear p)
  then show ?case by (simp add: Shutdown_inv_def)
qed

lemma pool_init_inv: "pool_init api p \<Longrightarrow> Pool_inv api p \<and> Shutdown_inv p"
proof -
  assume "pool_init api p"
  then obtain cs d where "p = \<lparr>mp_heap = cs, mp_conns = [0..<length cs], mp_workers = SpawnWorkerThreads [0..<length cs],
                mp_queue = BlockingQueue_new, mp_driver = d, mp_keepalive = True, mp_stopping = None,
                mp_next = 0, mp_accepted = [], mp_taken = [], mp_answers = []\<rparr>"
    unfolding pool_init_def InitPool_def andThen_Returns by auto
  moreover have "held (SpawnWorkerThreads ks) = {#}" for ks
    by (rule held_done) (auto simp: SpawnWorkerThreads_def task_of_def)
  ultimately show ?thesis
    by (auto simp: Pool_inv_def Shutdown_inv_def SpawnWorkerThreads_def BlockingQueue_new_def comp_def)
qed

interpretation pool: inductive_invariant "pool_init api" "pool_step api" "\<lambda>p. Pool_inv api p \<and> Shutdown_inv p"
  by unfold_locales (auto simp: pool_init_inv pool_step_inv pool_step_shutdown)

section \<open>Lemmas: workers make progress\<close>

definition pc_work :: "mysql_worker \<Rightarrow> nat" where
  "pc_work w = (case wk_pc w of WLoop \<Rightarrow> 1 | WPop \<Rightarrow> 0 | WTask t \<Rightarrow> 2 | WDone \<Rightarrow> 0)"

definition pool_work :: "('c, 'd, 'row) mysql_pool \<Rightarrow> nat" where
  "pool_work p = 3 * length (bq_queue (mp_queue p)) + sum_list (map pc_work (mp_workers p))"

definition serving :: "('c, 'd, 'row) mysql_pool \<Rightarrow> bool" where
  "serving p \<longleftrightarrow> mp_workers p \<noteq> [] \<and> mp_stopping p = None"

lemma work_update:
  "i < length ws \<Longrightarrow> sum_list (map pc_work (ws[i := w])) + pc_work (ws ! i) = sum_list (map pc_work ws) + pc_work w"
  by (rule sum_list_update_at)

lemma serving_step:
  "worker_step api p q \<Longrightarrow> Shutdown_inv p \<Longrightarrow> serving p \<Longrightarrow>
   pool_work p = Suc (pool_work q) \<and> serving q \<and> mp_accepted q = mp_accepted p"
proof (induction rule: worker_step.induct)
  case (wk_check i p)
  then have "wk_running (mp_workers p ! i)" by (simp add: Shutdown_inv_def serving_def)
  with wk_check show ?case
    using work_update [of i "mp_workers p" "(mp_workers p ! i)\<lparr>wk_pc := WPop\<rparr>"]
    by (simp add: pool_work_def pc_work_def serving_def)
next
  case (wk_take i p t q)
  then show ?case
    using work_update [of i "mp_workers p" "(mp_workers p ! i)\<lparr>wk_pc := WTask t\<rparr>"] pop_queue [of "mp_queue p" t q]
    by (simp add: pool_work_def pc_work_def serving_def)
next
  case (wk_cancelled i p)
  then show ?case by (simp add: Shutdown_inv_def serving_def pop_false_iff)
next
  case (wk_run i p t k a c d)
  then show ?case
    using work_update [of i "mp_workers p" "(mp_workers p ! i)\<lparr>wk_pc := WLoop\<rparr>"]
    by (simp add: pool_work_def pc_work_def serving_def)
qed

lemma serving_run:
  assumes "(worker_step api ^^ n) p q" and "Pool_inv api p" and "Shutdown_inv p" and "serving p"
  shows "Pool_inv api q \<and> Shutdown_inv q \<and> serving q \<and> mp_accepted q = mp_accepted p \<and> pool_work q + n = pool_work p"
  using assms
proof (induction n arbitrary: q)
  case (Suc n)
  then obtain r where "(worker_step api ^^ n) p r" "worker_step api r q" by auto
  with Suc.IH [of r] Suc.prems serving_step [of api r q] worker_step_inv [of api r q] worker_step_shutdown [of api r q]
  show ?case by simp
qed simp

definition driver_returns :: "('c, 'd, 'row) sql_api \<Rightarrow> bool" where
  "driver_returns api \<longleftrightarrow> (\<forall>op cd. \<exists>a cd'. worker_task api op cd = Returns a cd')"

lemma stuck_answered:
  assumes "Pool_inv api q" and "Shutdown_inv q" and "serving q" and "driver_returns api" and "\<And>r. \<not> worker_step api q r"
  shows "mset (map fst (mp_answers q)) = mset (mp_accepted q)"
proof -
  have pcs: "wk_pc (mp_workers q ! i) = WPop" if i: "i < length (mp_workers q)" for i
  proof (cases "wk_pc (mp_workers q ! i)")
    case WLoop
    with wk_check [OF i] assms(5) show ?thesis by blast
  next
    case (WTask t)
    obtain a cd where "worker_task api (snd t) (mp_heap q ! wk_conn (mp_workers q ! i), mp_driver q) = Returns a cd"
      using assms(4) unfolding driver_returns_def by blast
    with wk_run [OF i WTask refl, of api a "fst cd" "snd cd"] assms(5) show ?thesis by simp
  next
    case WDone
    with i assms(2,3) show ?thesis by (auto simp: Shutdown_inv_def serving_def)
  qed
  then have "held (mp_workers q) = {#}"
    by (intro held_done) (auto simp: in_set_conv_nth)
  moreover have "bq_queue (mp_queue q) = []"
  proof (rule ccontr)
    assume "bq_queue (mp_queue q) \<noteq> []"
    then obtain t q' where "BlockingQueue_Pop (mp_queue q) = (PopValue t, q')"
      by (cases "bq_queue (mp_queue q)") (auto simp: BlockingQueue_Pop_def)
    moreover have "0 < length (mp_workers q)" using assms(3) by (simp add: serving_def)
    ultimately show False using wk_take [of 0 q t q' api] pcs assms(5) by blast
  qed
  ultimately show ?thesis using assms(1) unfolding Pool_inv_def by (metis append_Nil2 empty_neutral(1))
qed

section \<open>Lemmas: one call is a run of the pool\<close>

definition pool_idle :: "('c, 'd, 'row) mysql_pool \<Rightarrow> bool" where
  "pool_idle p \<longleftrightarrow> mp_queue p = BlockingQueue_new \<and> (\<forall>w\<in>set (mp_workers p). wk_running w \<and> wk_pc w = WPop)"

lemma set_pc_set_pc: "i < length (mp_workers p) \<Longrightarrow> set_pc i pc (set_pc i pc' p) = set_pc i pc p"
  by (simp add: set_pc_def)

lemma set_pc_same:
  assumes "wk_pc (mp_workers p ! i) = pc"
  shows "set_pc i pc p = p"
proof -
  have "(mp_workers p ! i)\<lparr>wk_pc := pc\<rparr> = mp_workers p ! i" using assms by (cases "mp_workers p ! i") simp
  then show ?thesis by (simp add: set_pc_def)
qed

lemma idle_stuck: "pool_idle p \<Longrightarrow> \<not> worker_step api p q"
  by (auto elim!: worker_stepE simp: pool_idle_def BlockingQueue_Pop_def BlockingQueue_new_def)

lemma pool_call_run:
  assumes "pool_idle p" and "pool_call api i kind sql p = Returns a p'"
  shows "(worker_step api ^^ 3) (snd (Submit kind sql p)) p' \<and> pool_idle p'"
proof -
  define op where "op = (mp_next p, \<lparr>so_kind = kind, so_sql = sql\<rparr>)"
  define p1 where "p1 = snd (Submit kind sql p)"
  define k where "k = wk_conn (mp_workers p ! i)"
  have i: "i < length (mp_workers p)" and open_queue: "\<not> bq_stopped (mp_queue p)"
    using assms by (auto simp: pool_call_def Submit_def Let_def pool_idle_def BlockingQueue_new_def split: if_splits)
  then have w: "wk_pc (mp_workers p ! i) = WPop" "wk_running (mp_workers p ! i)" "mp_queue p = BlockingQueue_new"
    using assms(1) by (simp_all add: pool_idle_def)
  have p1: "p1 = p\<lparr>mp_queue := \<lparr>bq_queue = [op], bq_stopped = False\<rparr>, mp_next := Suc (mp_next p), mp_accepted := mp_accepted p @ [op]\<rparr>"
    using w(3) by (simp add: p1_def op_def Submit_def Let_def BlockingQueue_Push_def BlockingQueue_new_def)
  obtain c d where run: "worker_task api (snd op) (mp_heap p ! k, mp_driver p) = Returns a (c, d)"
      and p': "p' = p1\<lparr>mp_queue := BlockingQueue_new, mp_taken := mp_taken p @ [op], mp_heap := (mp_heap p)[k := c], mp_driver := d,
                       mp_answers := mp_answers p @ [(op, a)]\<rparr>"
    using assms(2) i open_queue w(3)
    by (auto simp: pool_call_def op_def p1_def k_def Submit_def Let_def split: outcome.splits)
  define p2 where "p2 = set_pc i (WTask op) (p1\<lparr>mp_queue := BlockingQueue_new, mp_taken := mp_taken p1 @ [op]\<rparr>)"
  have "BlockingQueue_Pop (mp_queue p1) = (PopValue op, BlockingQueue_new)"
    by (simp add: p1 BlockingQueue_Pop_def BlockingQueue_new_def)
  then have s1: "worker_step api p1 p2"
    unfolding p2_def using i w by (intro wk_take) (simp_all add: p1)
  have "worker_step api p2 (set_pc i WLoop (p2\<lparr>mp_heap := (mp_heap p2)[k := c], mp_driver := d, mp_answers := mp_answers p2 @ [(op, a)]\<rparr>))"
    using i run by (intro wk_run) (simp_all add: p2_def p1 k_def)
  also have "set_pc i WLoop (p2\<lparr>mp_heap := (mp_heap p2)[k := c], mp_driver := d, mp_answers := mp_answers p2 @ [(op, a)]\<rparr>) =
      set_pc i WLoop p'"
    using i by (simp add: p2_def p' p1 set_pc_def)
  finally have s2: "worker_step api p2 (set_pc i WLoop p')" .
  have "worker_step api (set_pc i WLoop p') (set_pc i WPop (set_pc i WLoop p'))"
    using wk_check [of i "set_pc i WLoop p'" api] i w by (simp add: p' p1)
  also have "set_pc i WPop (set_pc i WLoop p') = p'"
    using i w by (simp add: set_pc_set_pc set_pc_same p' p1)
  finally have s3: "worker_step api (set_pc i WLoop p') p'" .
  have "(worker_step api ^^ 3) p1 p'"
    using s1 s2 s3 by (auto simp: numeral_3_eq_3)
  moreover have "pool_idle p'" using assms(1) by (simp add: pool_idle_def p' p1)
  ultimately show ?thesis by (simp add: p1_def)
qed

lemma InvokeIfReady_split:
  "map fst (fst (InvokeIfReady p ns)) = filter (\<lambda>n. future_ready p n \<noteq> None) ns"
  "snd (InvokeIfReady p ns) = filter (\<lambda>n. future_ready p n = None) ns"
  "(n, a) \<in> set (fst (InvokeIfReady p ns)) \<Longrightarrow> future_ready p n = Some a"
  by (induction ns) (auto split: prod.splits option.splits)

section \<open>A small driver\<close>

text \<open>
  A driver for examples: it accepts every connection, its state is the list of statements it was
  given, and every statement changes one row and finds none.
\<close>

definition list_sql :: "(unit, string list, string) sql_api" where
  "list_sql =
     \<lparr>drv_connect = (\<lambda>url user password d. (Inr (Some ()), d)),
      drv_setSchema = (\<lambda>h db d. (Inr (), d)),
      drv_close = (\<lambda>h d. (Inr (), d)),
      drv_executeQuery = (\<lambda>h sql d. (Inr (Some []), d @ [sql])),
      drv_execute = (\<lambda>h sql d. (Inr True, d @ [sql])),
      drv_executeUpdate = (\<lambda>h sql d. (Inr 1, d @ [sql])),
      drv_isValid = (\<lambda>h d. (Inr True, d))\<rparr>"

lemma list_sql_open: "MySQLConn_Open list_sql (Suc k) (c, d) = Returns True (c\<lparr>mc_conn := Some (), mc_alive := True\<rparr>, d)"
  by (simp add: list_sql_def open_once_def Let_def)

lemma list_sql_returns: "driver_returns list_sql"
proof -
  have "\<exists>a cd'. worker_task list_sql op cd = Returns a cd'" for op cd
  proof (cases "mc_alive (fst cd)")
    case True
    then show ?thesis
      by (simp add: worker_task_def andThen_def split: prod.split)
  next
    case False
    obtain c d where "MySQLConn_Close list_sql cd = (c, d)" by fastforce
    then have "andThen (MySQLConn_Open3 list_sql) (\<lambda>_. ret ()) (MySQLConn_Close list_sql cd) =
        Returns () (c\<lparr>mc_conn := Some (), mc_alive := True\<rparr>, d)"
      by (simp add: MySQLConn_Open3_def andThen_def ret_def numeral_3_eq_3 list_sql_open del: MySQLConn_Open.simps)
    with False show ?thesis
      by (simp add: worker_task_def andThen_def split: prod.split)
  qed
  then show ?thesis by (simp add: driver_returns_def)
qed

definition sample_info :: mysql_conn_info where
  "sample_info = \<lparr>mi_url = ''u'', mi_user = ''root'', mi_password = [], mi_database = ''shop'', mi_timeout_sec = 5\<rparr>"

definition sample_conn :: "unit mysql_conn" where
  "sample_conn = (MySQLConn_new sample_info)\<lparr>mc_conn := Some (), mc_alive := True\<rparr>"

text \<open>A pool with one connection, just started; with its worker waiting; with one operation submitted.\<close>

definition sample_pool :: "worker_pc \<Rightarrow> (unit, string list, string) mysql_pool" where
  "sample_pool pc =
     \<lparr>mp_heap = [sample_conn], mp_conns = [0], mp_workers = [\<lparr>wk_conn = 0, wk_running = True, wk_pc = pc\<rparr>],
      mp_queue = BlockingQueue_new, mp_driver = [], mp_keepalive = True, mp_stopping = None,
      mp_next = 0, mp_accepted = [], mp_taken = [], mp_answers = []\<rparr>"

definition sample_submitted :: "(unit, string list, string) mysql_pool" where
  "sample_submitted = snd (Submit Update ''DELETE'' (sample_pool WPop))"

lemma sample_pool_init: "pool_init list_sql (sample_pool WLoop)"
proof -
  have "InitPool list_sql sample_info 1 [] = Returns (sample_pool WLoop) []"
    by (simp add: InitPool_def andThen_def ret_def numeral_3_eq_3 list_sql_open sample_pool_def sample_conn_def SpawnWorkerThreads_def
        del: MySQLConn_Open.simps)
  then show ?thesis unfolding pool_init_def by blast
qed

lemma sample_reachable:
  "reachable (pool_init list_sql) (pool_step list_sql) (sample_pool WLoop)"
  "reachable (pool_init list_sql) (pool_step list_sql) sample_submitted"
proof -
  show start: "reachable (pool_init list_sql) (pool_step list_sql) (sample_pool WLoop)"
    using sample_pool_init by (rule reach_init)
  have "worker_step list_sql (sample_pool WLoop) (sample_pool WPop)"
    using wk_check [of 0 "sample_pool WLoop" list_sql] by (simp add: sample_pool_def set_pc_def)
  then have "reachable (pool_init list_sql) (pool_step list_sql) (sample_pool WPop)"
    using start by (blast intro: reach_step ps_worker)
  then show "reachable (pool_init list_sql) (pool_step list_sql) sample_submitted"
    unfolding sample_submitted_def by (rule reach_step) (rule ps_submit)
qed

lemma sample_call:
  "\<exists>p'. (worker_step list_sql ^^ 3) sample_submitted p' \<and> pool_idle p'"
proof -
  have "pool_idle (sample_pool WPop)" by (simp add: pool_idle_def sample_pool_def)
  moreover obtain a p' where "pool_call list_sql 0 Update ''DELETE'' (sample_pool WPop) = Returns a p'"
    by (simp add: pool_call_def Submit_def sample_pool_def worker_task_def andThen_def sample_conn_def SQLOperation_Execute_def
        MySQLConn_ExecuteUpdate_def list_sql_def catch_sql_def BlockingQueue_new_def MySQLConn_new_def Let_def)
  ultimately show ?thesis using pool_call_run unfolding sample_submitted_def by blast
qed

lemma sample_serving: "serving sample_submitted" and sample_accepted: "map fst (mp_accepted sample_submitted) = [0]"
  by (simp_all add: serving_def sample_submitted_def Submit_def Let_def sample_pool_def BlockingQueue_new_def)

section \<open>Properties\<close>

text \<open>
  C15. The pool executes what it accepts once, in order. In every state the threads can reach,
  under every interleaving of callers, workers and \<open>Shutdown\<close>: workers have taken a prefix of the
  accepted operations, in the order of submission; no promise was set twice; and the value set
  is what executing that very operation gave.
\<close>

theorem pool_fifo_once:
  assumes "reachable (pool_init api) (pool_step api) p"
  shows "(\<exists>rest. mp_accepted p = mp_taken p @ rest) \<and>
     distinct (map fst (mp_answers p)) \<and> set (map fst (mp_answers p)) \<subseteq> set (mp_taken p) \<and>
     (\<forall>(t, a)\<in>set (mp_answers p). \<exists>cd cd'. worker_task api (snd t) cd = Returns a cd')"
proof (intro conjI)
  have inv: "Pool_inv api p" using pool.reachable_inv [OF assms] by simp
  then have sub: "mset (map fst (mp_answers p)) \<subseteq># mset (mp_taken p)"
      and taken: "mp_taken p @ bq_queue (mp_queue p) = mp_accepted p" and dist: "distinct (map fst (mp_accepted p))"
    by (simp_all add: Pool_inv_def)
  from taken show "\<exists>rest. mp_accepted p = mp_taken p @ rest" by metis
  have "distinct (mp_taken p)"
    using dist unfolding taken [symmetric] by (simp add: distinct_map)
  moreover obtain hs where "mset hs = held (mp_workers p)" using ex_mset by blast
  then have "mset (hs @ map fst (mp_answers p)) = mset (mp_taken p)" using inv by (simp add: Pool_inv_def)
  ultimately have "distinct (hs @ map fst (mp_answers p))" using mset_eq_imp_distinct_iff by blast
  then show "distinct (map fst (mp_answers p))" by simp
  from sub show "set (map fst (mp_answers p)) \<subseteq> set (mp_taken p)"
    using set_mset_mono [OF sub] by simp
  from inv show "\<forall>(t, a)\<in>set (mp_answers p). \<exists>cd cd'. worker_task api (snd t) cd = Returns a cd'"
    by (simp add: Pool_inv_def)
qed

theorem pool_fifo_once_witness:
  "(\<exists>rest. mp_accepted sample_submitted = mp_taken sample_submitted @ rest) \<and> distinct (map fst (mp_answers sample_submitted))"
  using pool_fifo_once [OF sample_reachable(2)] by blast

text \<open>
  C16. Every accepted operation is answered. While the pool is not shut down and has a worker, and
  the driver returns from its calls, the workers can take only \<open>pool_work\<close> steps without a new
  submission, whatever the interleaving, and when they can take no more every accepted operation
  has its promise set.
\<close>

theorem pool_answers_all:
  assumes "reachable (pool_init api) (pool_step api) p" and "serving p" and "driver_returns api"
    and "(worker_step api ^^ n) p q"
  shows "n \<le> pool_work p \<and> ((\<forall>r. \<not> worker_step api q r) \<longrightarrow> mset (map fst (mp_answers q)) = mset (mp_accepted p))"
proof -
  have "Pool_inv api p \<and> Shutdown_inv p" using pool.reachable_inv [OF assms(1)] .
  with serving_run [OF assms(4)] assms(2)
  have q: "Pool_inv api q" "Shutdown_inv q" "serving q" "mp_accepted q = mp_accepted p" "pool_work q + n = pool_work p" by simp_all
  from stuck_answered [OF q(1-3) assms(3)] q(4,5) show ?thesis by auto
qed

theorem pool_answers_all_witness:
  "\<exists>p'. (worker_step list_sql ^^ 3) sample_submitted p' \<and> image_mset fst (mset (map fst (mp_answers p'))) = {#0#}"
proof -
  obtain p' where p': "(worker_step list_sql ^^ 3) sample_submitted p'" "pool_idle p'" using sample_call by blast
  have "mset (map fst (mp_answers p')) = mset (mp_accepted sample_submitted)"
    using pool_answers_all [OF sample_reachable(2) sample_serving list_sql_returns p'(1)] idle_stuck [OF p'(2)] by blast
  then have "image_mset fst (mset (map fst (mp_answers p'))) = mset (map fst (mp_accepted sample_submitted))" by simp
  then have "image_mset fst (mset (map fst (mp_answers p'))) = {#0#}" unfolding sample_accepted by simp
  with p'(1) show ?thesis by blast
qed

text \<open>
  \<open>Shutdown\<close> drops operations. There is a run in which the pool is shut down completely while an
  operation it accepted waits in the queue; from then on its promise is never set, in any
  continuation, so a thread in \<open>get\<close> waits as long as the pool exists.
\<close>

theorem shutdown_drops:
  "\<exists>p t. reachable (pool_init list_sql) (pool_step list_sql) p \<and> mp_workers p = [] \<and> mp_stopping p = None \<and>
     t \<in> set (mp_accepted p) \<and> {q. (pool_step list_sql)\<^sup>*\<^sup>* p q} \<subseteq> {q. t \<notin> set (map fst (mp_answers q))}"
proof -
  let ?reach = "reachable (pool_init list_sql) (pool_step list_sql)"
  define p1 where "p1 = snd (Submit Update ''DELETE'' (sample_pool WLoop))"
  define p2 where "p2 = p1\<lparr>mp_queue := BlockingQueue_Cancel (mp_queue p1), mp_stopping := Some 0\<rparr>"
  define p3 where "p3 = p2\<lparr>mp_workers := (mp_workers p2)[0 := (mp_workers p2 ! 0)\<lparr>wk_running := False\<rparr>]\<rparr>"
  define p4 where "p4 = set_pc 0 WDone p3"
  define p5 where "p5 = p4\<lparr>mp_stopping := Some (Suc 0)\<rparr>"
  define p6 where "p6 = p5\<lparr>mp_workers := [], mp_conns := [], mp_keepalive := False, mp_stopping := None\<rparr>"
  note defs = p1_def p2_def p3_def p4_def p5_def p6_def sample_pool_def Submit_def Let_def set_pc_def BlockingQueue_new_def
  have r1: "?reach p1" unfolding p1_def using sample_reachable(1) ps_submit by (rule reach_step)
  have r2: "?reach p2" unfolding p2_def by (rule reach_step [OF r1], rule ps_shutdown) (simp_all add: defs)
  have r3: "?reach p3" unfolding p3_def by (rule reach_step [OF r2], rule ps_stop) (simp_all add: defs)
  have "worker_step list_sql p3 (set_pc 0 (if wk_running (mp_workers p3 ! 0) then WPop else WDone) p3)"
    by (rule wk_check) (simp_all add: defs)
  moreover have "\<not> wk_running (mp_workers p3 ! 0)" by (simp add: defs)
  ultimately have "worker_step list_sql p3 p4" unfolding p4_def by simp
  then have r4: "?reach p4" using r3 ps_worker reach_step by metis
  have r5: "?reach p5" unfolding p5_def by (rule reach_step [OF r4], rule ps_join) (simp_all add: defs)
  have reach: "?reach p6" unfolding p6_def by (rule reach_step [OF r5], rule ps_clear) (simp add: defs)
  have "mp_workers q = [] \<and> mp_stopping q = None \<and> mp_answers q = []" if "(pool_step list_sql)\<^sup>*\<^sup>* p6 q" for q
    using that
  proof (induction rule: rtranclp_induct)
    case (step q r)
    then show ?case by (auto elim!: pool_stepE worker_stepE simp: Submit_def Let_def)
  qed (simp add: defs)
  then have "{q. (pool_step list_sql)\<^sup>*\<^sup>* p6 q} \<subseteq> {q. (0, \<lparr>so_kind = Update, so_sql = ''DELETE''\<rparr>) \<notin> set (map fst (mp_answers q))}"
    by auto
  moreover have "(0, \<lparr>so_kind = Update, so_sql = ''DELETE''\<rparr>) \<in> set (mp_accepted p6)" by (simp add: defs)
  moreover have "mp_workers p6 = [] \<and> mp_stopping p6 = None" by (simp add: p6_def)
  ultimately show ?thesis using reach by blast
qed

text \<open>
  The keep-alive thread never tests a connection. In every reachable state each connection of the
  pool is also held by its worker, \<open>conn.unique()\<close> is false for all of them, and a round of
  \<open>KeepAliveLoop\<close> changes nothing.
\<close>

theorem keepalive_never_pings:
  assumes "reachable (pool_init api) (pool_step api) p"
  shows "KeepAliveLoop api p = p"
proof -
  have conns: "mp_conns p = map wk_conn (mp_workers p)"
    using pool.reachable_inv [OF assms] by (simp add: Pool_inv_def)
  have "\<not> conn_unique p k" if k: "k \<in> set (mp_conns p)" for k
  proof -
    have "0 < length (filter ((=) k) (mp_conns p))" using k by (auto simp: filter_empty_conv)
    then have "length (filter ((=) k) (mp_conns p @ mp_conns p)) \<noteq> 1" by (simp only: filter_append length_append)
    then show ?thesis unfolding conn_unique_def conns [symmetric] .
  qed
  then have "ping_at api k p = p" if "k \<in> set (mp_conns p)" for k using that by (simp add: ping_at_def)
  then have "fold (ping_at api) ks p = p" if "set ks \<subseteq> set (mp_conns p)" for ks
    using that by (induction ks) simp_all
  then show ?thesis by (simp add: KeepAliveLoop_def)
qed

theorem keepalive_never_pings_witness: "KeepAliveLoop list_sql sample_submitted = sample_submitted"
  by (rule keepalive_never_pings [OF sample_reachable(2)])

end
