(* ===== verification/Order_Repository.thy ===== *)
theory Order_Repository
  imports Inventory Mysql_Pool
begin

text \<open>
  Orders in MySQL: \<open>src/apps/order_server/infra/db/OrderRepository.cpp\<close>. The statements are built as
  text, as the code builds them; the rows of a result set are read through accessors that are a
  parameter, as the rest of the connector is. The world of the application gets the connection pool.
\<close>

section \<open>The world\<close>

text \<open>\<open>ow_pick\<close> tells which worker takes the next operation: any of them may.\<close>

record ('r, 'c, 'd, 'row) order_world = "'r app_world" +
  ow_pool :: "('c, 'd, 'row) mysql_pool"
  ow_pick :: "nat \<Rightarrow> nat"
  ow_turn :: nat

definition db_call :: "('c, 'd, 'row) sql_api \<Rightarrow> sql_kind \<Rightarrow> string \<Rightarrow> ('row sql_answer, ('r, 'c, 'd, 'row, 'z) order_world_scheme) prog" where
  "db_call api kind sql w =
     (let set_pool = (\<lambda>p. w\<lparr>ow_pool := p, ow_turn := Suc (ow_turn w)\<rparr>)
      in case pool_call api (ow_pick w (ow_turn w) mod length (mp_workers (ow_pool w))) kind sql (ow_pool w) of
           Returns a p \<Rightarrow> Returns a (set_pool p)
         | Throws e p \<Rightarrow> Throws e (set_pool p)
         | Blocks \<Rightarrow> Blocks)"

text \<open>The accessors of a row of a result set; each may throw, for a column that is not there.\<close>

record 'row row_api =
  row_isNull :: "'row \<Rightarrow> string \<Rightarrow> cpp_error + bool"
  row_getString :: "'row \<Rightarrow> string \<Rightarrow> cpp_error + string"
  row_getInt :: "'row \<Rightarrow> string \<Rightarrow> cpp_error + int"
  row_getDouble :: "'row \<Rightarrow> string \<Rightarrow> cpp_error + rat"

record ('c, 'd, 'row) db_api =
  da_sql :: "('c, 'd, 'row) sql_api"
  da_row :: "'row row_api"

section \<open>Time\<close>

text \<open>
  \<open>gmtime\<close>: the civil date of a day number, counted in eras of 400 years from the first of March of
  the year 0, and the time of day.
\<close>

definition civil_of_days :: "int \<Rightarrow> int \<times> int \<times> int" where
  "civil_of_days days =
     (let z = days + 719468;
          era = z div 146097;
          doe = z mod 146097;
          yoe = (doe - doe div 1460 + doe div 36524 - doe div 146096) div 365;
          doy = doe - (365 * yoe + yoe div 4 - yoe div 100);
          mp = (5 * doy + 2) div 153;
          d = doy - (153 * mp + 2) div 5 + 1;
          m = (if mp < 10 then mp + 3 else mp - 9);
          y = yoe + era * 400 + (if m \<le> 2 then 1 else 0)
      in (y, m, d))"

definition show_pad2 :: "int \<Rightarrow> string" where
  "show_pad2 i = (if i < 10 then CHR ''0'' # show_int i else show_int i)"

definition TimeToSQL :: "int \<Rightarrow> string" where
  "TimeToSQL tp =
     (let tt = to_seconds tp;
          (y, m, d) = civil_of_days (tt div 86400);
          s = tt mod 86400
      in [CHR 0x27] @ show_int y @ ''-'' @ show_pad2 m @ ''-'' @ show_pad2 d @ '' '' @
         show_pad2 (s div 3600) @ '':'' @ show_pad2 (s div 60 mod 60) @ '':'' @ show_pad2 (s mod 60) @ [CHR 0x27])"

section \<open>Statements\<close>

record order_repo =
  rp_tableName :: string
  rp_schemaEnsured :: bool

definition OrderRepository_new :: "bool \<Rightarrow> string \<Rightarrow> cpp_error + order_repo" where
  "OrderRepository_new pool tableName =
     (if \<not> pool then Inl InvalidArgument else Inr \<lparr>rp_tableName = tableName, rp_schemaEnsured = False\<rparr>)"

text \<open>A text between the quotes the code writes.\<close>

definition quoted :: "string \<Rightarrow> string" where
  "quoted s = CHR 0x27 # s @ [CHR 0x27]"

definition schema_sql :: "order_repo \<Rightarrow> string" where
  "schema_sql rp =
     ''CREATE TABLE IF NOT EXISTS '' @ rp_tableName rp @ '' ('' @
     ''order_id VARCHAR(64) PRIMARY KEY,'' @
     ''user_id VARCHAR(64) NOT NULL,'' @
     ''product_id VARCHAR(64) NOT NULL,'' @
     ''quantity INT NOT NULL,'' @
     ''total_amount DOUBLE NOT NULL,'' @
     ''currency VARCHAR(16) NOT NULL,'' @
     ''status VARCHAR(32) NOT NULL,'' @
     ''status_reason VARCHAR(255),'' @
     ''payload_json TEXT,'' @
     ''created_at DATETIME NOT NULL,'' @
     ''updated_at DATETIME NOT NULL)''"

definition insert_head :: "order_repo \<Rightarrow> string" where
  "insert_head rp =
     ''INSERT INTO '' @ rp_tableName rp @
     '' (order_id,user_id,product_id,quantity,total_amount,currency,status,status_reason,payload_json,created_at,updated_at)'' @
     '' VALUES (''"

definition BuildInsertSQL :: "order_repo \<Rightarrow> order_record \<Rightarrow> string" where
  "BuildInsertSQL rp r =
     insert_head rp @ quoted (or_orderId r) @ '','' @ quoted (or_userId r) @ '','' @ quoted (or_productId r) @ '','' @
     show_nat (unat (or_quantity r)) @ '','' @ show_general6 (or_totalAmount r) @ '','' @ quoted (or_currency r) @ '','' @
     quoted (ToString (or_status r)) @ '','' @ quoted (or_statusReason r) @ '','' @ quoted (or_payloadJson r) @ '','' @
     TimeToSQL (or_createdAt r) @ '','' @ TimeToSQL (or_updatedAt r) @ '')''"

definition BuildUpsertSQL :: "order_repo \<Rightarrow> order_record \<Rightarrow> string" where
  "BuildUpsertSQL rp r =
     BuildInsertSQL rp r @ '' ON DUPLICATE KEY UPDATE '' @
     ''status=VALUES(status),status_reason=VALUES(status_reason),payload_json=VALUES(payload_json),updated_at=VALUES(updated_at)''"

definition BuildUpdateStatusSQL :: "order_repo \<Rightarrow> string \<Rightarrow> order_status \<Rightarrow> string \<Rightarrow> string" where
  "BuildUpdateStatusSQL rp i s reason =
     ''UPDATE '' @ rp_tableName rp @ '' SET status='' @ quoted (ToString s) @ '', status_reason='' @ quoted reason @
     '', updated_at=NOW() WHERE order_id='' @ quoted i"

definition BuildUpdatePaymentSQL :: "order_repo \<Rightarrow> string \<Rightarrow> double \<Rightarrow> int \<Rightarrow> string" where
  "BuildUpdatePaymentSQL rp i paid paidAt =
     ''UPDATE '' @ rp_tableName rp @ '' SET status='' @ quoted ''Paid'' @ '', total_amount='' @ show_general6 paid @
     '', updated_at='' @ TimeToSQL paidAt @ '' WHERE order_id='' @ quoted i"

definition BuildUpdatePayloadSQL :: "order_repo \<Rightarrow> string \<Rightarrow> string \<Rightarrow> string" where
  "BuildUpdatePayloadSQL rp i payload =
     ''UPDATE '' @ rp_tableName rp @ '' SET payload_json='' @ quoted payload @ '', updated_at=NOW() WHERE order_id='' @ quoted i"

definition BuildTouchSQL :: "order_repo \<Rightarrow> string \<Rightarrow> int \<Rightarrow> string" where
  "BuildTouchSQL rp i ts = ''UPDATE '' @ rp_tableName rp @ '' SET updated_at='' @ TimeToSQL ts @ '' WHERE order_id='' @ quoted i"

definition BuildDeleteSQL :: "order_repo \<Rightarrow> string \<Rightarrow> string" where
  "BuildDeleteSQL rp i = ''DELETE FROM '' @ rp_tableName rp @ '' WHERE order_id='' @ quoted i"

definition BuildSelectByIdSQL :: "order_repo \<Rightarrow> string \<Rightarrow> string" where
  "BuildSelectByIdSQL rp i = ''SELECT * FROM '' @ rp_tableName rp @ '' WHERE order_id='' @ quoted i"

definition BuildSelectByUserSQL :: "order_repo \<Rightarrow> string \<Rightarrow> nat \<Rightarrow> nat \<Rightarrow> string" where
  "BuildSelectByUserSQL rp uid limit offset =
     ''SELECT * FROM '' @ rp_tableName rp @ '' WHERE user_id='' @ quoted uid @ '' ORDER BY created_at DESC '' @
     ''LIMIT '' @ show_nat limit @ '' OFFSET '' @ show_nat offset"

definition BuildSelectRecentSQL :: "order_repo \<Rightarrow> nat \<Rightarrow> string" where
  "BuildSelectRecentSQL rp limit =
     ''SELECT * FROM '' @ rp_tableName rp @ '' ORDER BY created_at DESC LIMIT '' @ show_nat limit"

section \<open>Rows\<close>

definition safeString :: "'row row_api \<Rightarrow> 'row \<Rightarrow> string \<Rightarrow> cpp_error + string" where
  "safeString ra row column =
     sum_bind (row_isNull ra row column) (\<lambda>null. if null then Inr [] else row_getString ra row column)"

text \<open>\<open>ParseSingle\<close>: the two times keep their default, the start of the epoch.\<close>

definition ParseSingle :: "'row row_api \<Rightarrow> 'row \<Rightarrow> cpp_error + order_record" where
  "ParseSingle ra row =
     sum_bind (safeString ra row ''order_id'') (\<lambda>orderId.
     sum_bind (safeString ra row ''user_id'') (\<lambda>userId.
     sum_bind (safeString ra row ''product_id'') (\<lambda>productId.
     sum_bind (row_getInt ra row ''quantity'') (\<lambda>quantity.
     sum_bind (row_getDouble ra row ''total_amount'') (\<lambda>totalAmount.
     sum_bind (safeString ra row ''currency'') (\<lambda>currency.
     sum_bind (safeString ra row ''status'') (\<lambda>status.
     sum_bind (safeString ra row ''status_reason'') (\<lambda>statusReason.
     sum_bind (safeString ra row ''payload_json'') (\<lambda>payloadJson.
     Inr (OrderRecord_new\<lparr>or_orderId := orderId, or_userId := userId, or_productId := productId,
            or_quantity := word_of_int quantity, or_totalAmount := to_double totalAmount, or_currency := currency,
            or_status := OrderStatusFromString status, or_statusReason := statusReason, or_payloadJson := payloadJson\<rparr>))))))))))"

fun ParseMany :: "'row row_api \<Rightarrow> 'row list \<Rightarrow> cpp_error + order_record list" where
  "ParseMany ra [] = Inr []"
| "ParseMany ra (row # rows) = sum_bind (ParseSingle ra row) (\<lambda>r. sum_bind (ParseMany ra rows) (\<lambda>rs. Inr (r # rs)))"

section \<open>Operations\<close>

text \<open>\<open>SubmitUpdate(sql).get()\<close> and \<open>SubmitQuery(sql).get()\<close>.\<close>

definition update_count :: "'row sql_answer \<Rightarrow> int" where
  "update_count a = (case a of AnswerUpdate n \<Rightarrow> n | _ \<Rightarrow> - 1)"

definition query_rows :: "'row sql_answer \<Rightarrow> 'row list option" where
  "query_rows a = (case a of AnswerQuery rs \<Rightarrow> rs | _ \<Rightarrow> None)"

definition db_update :: "('c, 'd, 'row) db_api \<Rightarrow> string \<Rightarrow> (bool, ('r, 'c, 'd, 'row, 'z) order_world_scheme) prog" where
  "db_update api sql = andThen (db_call (da_sql api) Update sql) (\<lambda>a. ret (0 < update_count a))"

definition db_query :: "('c, 'd, 'row) db_api \<Rightarrow> string \<Rightarrow> ('row list option, ('r, 'c, 'd, 'row, 'z) order_world_scheme) prog" where
  "db_query api sql = andThen (db_call (da_sql api) Query sql) (\<lambda>a. ret (query_rows a))"

definition EnsureSchema :: "('c, 'd, 'row) db_api \<Rightarrow> order_repo \<Rightarrow> (order_repo, ('r, 'c, 'd, 'row, 'z) order_world_scheme) prog" where
  "EnsureSchema api rp =
     (if rp_schemaEnsured rp then ret rp
      else andThen (db_update api (schema_sql rp)) (\<lambda>_. ret (rp\<lparr>rp_schemaEnsured := True\<rparr>)))"

definition Insert :: "('c, 'd, 'row) db_api \<Rightarrow> order_repo \<Rightarrow> order_record \<Rightarrow> (bool, ('r, 'c, 'd, 'row, 'z) order_world_scheme) prog" where
  "Insert api rp record = db_update api (BuildInsertSQL rp record)"

definition Upsert :: "('c, 'd, 'row) db_api \<Rightarrow> order_repo \<Rightarrow> order_record \<Rightarrow> (bool, ('r, 'c, 'd, 'row, 'z) order_world_scheme) prog" where
  "Upsert api rp record = db_update api (BuildUpsertSQL rp record)"

definition Repo_UpdateStatus :: "('c, 'd, 'row) db_api \<Rightarrow> order_repo \<Rightarrow> string \<Rightarrow> order_status \<Rightarrow> string \<Rightarrow> (bool, ('r, 'c, 'd, 'row, 'z) order_world_scheme) prog" where
  "Repo_UpdateStatus api rp orderId status reason = db_update api (BuildUpdateStatusSQL rp orderId status reason)"

definition UpdatePayment :: "('c, 'd, 'row) db_api \<Rightarrow> order_repo \<Rightarrow> string \<Rightarrow> double \<Rightarrow> int \<Rightarrow> (bool, ('r, 'c, 'd, 'row, 'z) order_world_scheme) prog" where
  "UpdatePayment api rp orderId paidAmount paidAt = db_update api (BuildUpdatePaymentSQL rp orderId paidAmount paidAt)"

definition UpdatePayload :: "('c, 'd, 'row) db_api \<Rightarrow> order_repo \<Rightarrow> string \<Rightarrow> string \<Rightarrow> (bool, ('r, 'c, 'd, 'row, 'z) order_world_scheme) prog" where
  "UpdatePayload api rp orderId payloadJson = db_update api (BuildUpdatePayloadSQL rp orderId payloadJson)"

definition Repo_Touch :: "('c, 'd, 'row) db_api \<Rightarrow> order_repo \<Rightarrow> string \<Rightarrow> int \<Rightarrow> (bool, ('r, 'c, 'd, 'row, 'z) order_world_scheme) prog" where
  "Repo_Touch api rp orderId ts = db_update api (BuildTouchSQL rp orderId ts)"

definition Repo_Remove :: "('c, 'd, 'row) db_api \<Rightarrow> order_repo \<Rightarrow> string \<Rightarrow> (bool, ('r, 'c, 'd, 'row, 'z) order_world_scheme) prog" where
  "Repo_Remove api rp orderId = db_update api (BuildDeleteSQL rp orderId)"

definition GetById :: "('c, 'd, 'row) db_api \<Rightarrow> order_repo \<Rightarrow> string \<Rightarrow> (order_record option, ('r, 'c, 'd, 'row, 'z) order_world_scheme) prog" where
  "GetById api rp orderId =
     andThen (db_query api (BuildSelectByIdSQL rp orderId)) (\<lambda>rs.
       case rs of
         None \<Rightarrow> ret None
       | Some [] \<Rightarrow> ret None
       | Some (row # _) \<Rightarrow> andThen (from_sum (ParseSingle (da_row api) row)) (\<lambda>r. ret (Some r)))"

definition parse_list :: "('c, 'd, 'row) db_api \<Rightarrow> string \<Rightarrow> (order_record list, ('r, 'c, 'd, 'row, 'z) order_world_scheme) prog" where
  "parse_list api sql =
     andThen (db_query api sql) (\<lambda>rs. case rs of None \<Rightarrow> ret [] | Some rows \<Rightarrow> from_sum (ParseMany (da_row api) rows))"

definition ListByUser :: "('c, 'd, 'row) db_api \<Rightarrow> order_repo \<Rightarrow> string \<Rightarrow> nat \<Rightarrow> nat \<Rightarrow> (order_record list, ('r, 'c, 'd, 'row, 'z) order_world_scheme) prog" where
  "ListByUser api rp userId limit offset = parse_list api (BuildSelectByUserSQL rp userId limit offset)"

definition ListRecent :: "('c, 'd, 'row) db_api \<Rightarrow> order_repo \<Rightarrow> nat \<Rightarrow> (order_record list, ('r, 'c, 'd, 'row, 'z) order_world_scheme) prog" where
  "ListRecent api rp limit = parse_list api (BuildSelectRecentSQL rp limit)"

text \<open>
  The asynchronous writes hand an operation of kind \<open>Exec\<close> to the pool; the result is the number that
  stands for the future.
\<close>

definition InsertAsync :: "order_repo \<Rightarrow> order_record \<Rightarrow> ('c, 'd, 'row) mysql_pool \<Rightarrow> nat \<times> ('c, 'd, 'row) mysql_pool" where
  "InsertAsync rp record = SubmitExec (BuildInsertSQL rp record)"

definition UpsertAsync :: "order_repo \<Rightarrow> order_record \<Rightarrow> ('c, 'd, 'row) mysql_pool \<Rightarrow> nat \<times> ('c, 'd, 'row) mysql_pool" where
  "UpsertAsync rp record = SubmitExec (BuildUpsertSQL rp record)"

definition UpdateStatusAsync :: "order_repo \<Rightarrow> string \<Rightarrow> order_status \<Rightarrow> string \<Rightarrow> ('c, 'd, 'row) mysql_pool \<Rightarrow> nat \<times> ('c, 'd, 'row) mysql_pool" where
  "UpdateStatusAsync rp orderId status reason = SubmitExec (BuildUpdateStatusSQL rp orderId status reason)"

section \<open>A server that stores orders\<close>

text \<open>
  What MySQL does with the statements above, on the texts that need no escape: printable characters
  other than the quote and the backslash, within the widths of the columns. \<open>stored\<close> is the part of
  a row that \<open>ParseSingle\<close> reads; the amount is the value of the literal in the statement. The id
  column is compared exactly. An update that changes nothing is left open: the count it returns
  depends on the clock of the server.
\<close>

definition sql_char :: "char \<Rightarrow> bool" where
  "sql_char c \<longleftrightarrow> 32 \<le> (of_char c :: nat) \<and> (of_char c :: nat) < 127 \<and> c \<noteq> CHR 0x27 \<and> c \<noteq> CHR 0x5C"

definition sql_text :: "nat \<Rightarrow> string \<Rightarrow> bool" where
  "sql_text n s \<longleftrightarrow> length s \<le> n \<and> (\<forall>c\<in>set s. sql_char c)"

definition insertable :: "order_record \<Rightarrow> bool" where
  "insertable r \<longleftrightarrow>
     sql_text 64 (or_orderId r) \<and> sql_text 64 (or_userId r) \<and> sql_text 64 (or_productId r) \<and> sql_text 16 (or_currency r) \<and>
     sql_text 255 (or_statusReason r) \<and> sql_text 65535 (or_payloadJson r) \<and> status_named (or_status r) \<and>
     unat (or_quantity r) < 2 ^ 31"

definition stored_amount :: "double \<Rightarrow> double" where
  "stored_amount a = (case std_stod (show_general6 a) of Inr x \<Rightarrow> x | Inl _ \<Rightarrow> 0)"

definition stored :: "order_record \<Rightarrow> order_record" where
  "stored r = r\<lparr>or_totalAmount := stored_amount (or_totalAmount r), or_createdAt := 0, or_updatedAt := 0\<rparr>"

definition row_holds :: "'row row_api \<Rightarrow> 'row \<Rightarrow> order_record \<Rightarrow> bool" where
  "row_holds ra row r \<longleftrightarrow>
     (\<forall>(column, text) \<in> {(''order_id'', or_orderId r), (''user_id'', or_userId r), (''product_id'', or_productId r),
        (''currency'', or_currency r), (''status'', ToString (or_status r)), (''status_reason'', or_statusReason r),
        (''payload_json'', or_payloadJson r)}.
        row_isNull ra row column = Inr False \<and> row_getString ra row column = Inr text) \<and>
     row_getInt ra row ''quantity'' = Inr (int (unat (or_quantity r))) \<and>
     row_getDouble ra row ''total_amount'' = Inr (or_totalAmount r)"

definition serves_insert :: "('c, 'd, 'row) db_api \<Rightarrow> order_repo \<Rightarrow> ('d \<Rightarrow> string \<Rightarrow> order_record option) \<Rightarrow> bool" where
  "serves_insert api rp db \<longleftrightarrow>
     (\<forall>h d r. insertable r \<longrightarrow>
        (\<exists>d'. drv_executeUpdate (da_sql api) h (BuildInsertSQL rp r) d =
                ((if db d (or_orderId r) = None then Inr 1 else Inl SqlException), d') \<and>
              db d' = (if db d (or_orderId r) = None then (db d)(or_orderId r \<mapsto> stored r) else db d)))"

definition serves_select :: "('c, 'd, 'row) db_api \<Rightarrow> order_repo \<Rightarrow> ('d \<Rightarrow> string \<Rightarrow> order_record option) \<Rightarrow> bool" where
  "serves_select api rp db \<longleftrightarrow>
     (\<forall>h d i. sql_text 64 i \<longrightarrow>
        (\<exists>rows d'. drv_executeQuery (da_sql api) h (BuildSelectByIdSQL rp i) d = (Inr (Some rows), d') \<and> db d' = db d \<and>
           (case db d i of None \<Rightarrow> rows = [] | Some r \<Rightarrow> \<exists>row. rows = [row] \<and> row_holds (da_row api) row r)))"

definition serves_status :: "('c, 'd, 'row) db_api \<Rightarrow> order_repo \<Rightarrow> ('d \<Rightarrow> string \<Rightarrow> order_record option) \<Rightarrow> bool" where
  "serves_status api rp db \<longleftrightarrow>
     (\<forall>h d i s reason r. sql_text 64 i \<longrightarrow> sql_text 255 reason \<longrightarrow> status_named s \<longrightarrow> db d i = Some r \<longrightarrow> or_status r \<noteq> s \<longrightarrow>
        (\<exists>d'. drv_executeUpdate (da_sql api) h (BuildUpdateStatusSQL rp i s reason) d = (Inr 1, d') \<and>
              db d' = (db d)(i \<mapsto> r\<lparr>or_status := s, or_statusReason := reason\<rparr>)))"

definition sql_serves :: "('c, 'd, 'row) db_api \<Rightarrow> order_repo \<Rightarrow> ('d \<Rightarrow> string \<Rightarrow> order_record option) \<Rightarrow> bool" where
  "sql_serves api rp db \<longleftrightarrow> serves_insert api rp db \<and> serves_select api rp db \<and> serves_status api rp db"

text \<open>A pool all of whose workers have a live connection.\<close>

definition pool_good :: "('c, 'd, 'row) mysql_pool \<Rightarrow> bool" where
  "pool_good p \<longleftrightarrow>
     \<not> bq_stopped (mp_queue p) \<and> mp_workers p \<noteq> [] \<and>
     (\<forall>w\<in>set (mp_workers p). wk_conn w < length (mp_heap p)) \<and>
     (\<forall>c\<in>set (mp_heap p). mc_alive c \<and> mc_conn c \<noteq> None)"

section \<open>Lemmas: one statement\<close>

lemma db_call_run:
  assumes "pool_good (ow_pool w)"
  obtains c h p where "mc_conn c = Some h" and "mp_driver p = snd (SQLOperation_Execute api \<lparr>so_kind = kind, so_sql = sql\<rparr> c (mp_driver (ow_pool w)))"
    and "pool_good p"
    and "db_call api kind sql w = Returns (fst (SQLOperation_Execute api \<lparr>so_kind = kind, so_sql = sql\<rparr> c (mp_driver (ow_pool w))))
           (w\<lparr>ow_pool := p, ow_turn := Suc (ow_turn w)\<rparr>)"
proof -
  let ?p = "ow_pool w"
  define i where "i = ow_pick w (ow_turn w) mod length (mp_workers ?p)"
  define k where "k = wk_conn (mp_workers ?p ! i)"
  define c where "c = mp_heap ?p ! k"
  obtain a d where ad: "SQLOperation_Execute api \<lparr>so_kind = kind, so_sql = sql\<rparr> c (mp_driver ?p) = (a, d)" by fastforce
  have i: "i < length (mp_workers ?p)" and q: "\<not> bq_stopped (mp_queue ?p)"
    using assms by (simp_all add: pool_good_def i_def)
  then have k: "k < length (mp_heap ?p)" using assms by (simp add: pool_good_def k_def)
  then have c: "mc_alive c" "mc_conn c \<noteq> None" using assms by (simp_all add: pool_good_def c_def)
  have run: "worker_task api \<lparr>so_kind = kind, so_sql = sql\<rparr> (mp_heap ?p ! wk_conn (mp_workers ?p ! i), mp_driver ?p) = Returns a (c, d)"
    using c ad unfolding k_def [symmetric] c_def [symmetric] by (simp add: worker_task_def andThen_def)
  define op where "op = (mp_next ?p, \<lparr>so_kind = kind, so_sql = sql\<rparr>)"
  define p where "p = (snd (Submit kind sql ?p))\<lparr>mp_queue := mp_queue ?p, mp_taken := mp_taken ?p @ [op],
      mp_heap := (mp_heap ?p)[k := c], mp_driver := d, mp_answers := mp_answers ?p @ [(op, a)]\<rparr>"
  have "pool_call api i kind sql ?p = Returns a p"
    using i q run by (simp add: pool_call_def Submit_def Let_def p_def op_def k_def)
  then have "db_call api kind sql w = Returns a (w\<lparr>ow_pool := p, ow_turn := Suc (ow_turn w)\<rparr>)"
    by (simp add: db_call_def i_def [symmetric])
  moreover have "pool_good p" using assms by (simp add: pool_good_def p_def c_def Submit_def Let_def)
  moreover obtain h where "mc_conn c = Some h" using c(2) by blast
  ultimately show thesis using that [of c h p] ad by (simp add: p_def)
qed

lemma db_update_run:
  assumes "pool_good (ow_pool w)" and "\<And>h. \<exists>d'. drv_executeUpdate (da_sql api) h sql (mp_driver (ow_pool w)) = (r, d') \<and> P d'"
    and "r = Inl SqlException \<or> (\<exists>n. r = Inr n)"
  obtains p where "pool_good p" and "P (mp_driver p)"
    and "db_update api sql w = Returns (0 < (case r of Inr n \<Rightarrow> n | Inl _ \<Rightarrow> - 1)) (w\<lparr>ow_pool := p, ow_turn := Suc (ow_turn w)\<rparr>)"
proof -
  let ?op = "\<lparr>so_kind = Update, so_sql = sql\<rparr>"
  obtain c h p where c: "mc_conn c = Some h" and p: "mp_driver p = snd (SQLOperation_Execute (da_sql api) ?op c (mp_driver (ow_pool w)))" "pool_good p"
      and run: "db_call (da_sql api) Update sql w = Returns (fst (SQLOperation_Execute (da_sql api) ?op c (mp_driver (ow_pool w))))
        (w\<lparr>ow_pool := p, ow_turn := Suc (ow_turn w)\<rparr>)"
    by (rule db_call_run [OF assms(1), of "da_sql api" Update sql])
  from assms(2) [of h] obtain d' where d': "drv_executeUpdate (da_sql api) h sql (mp_driver (ow_pool w)) = (r, d')" "P d'" by blast
  have "SQLOperation_Execute (da_sql api) ?op c (mp_driver (ow_pool w)) = (AnswerUpdate (case r of Inr n \<Rightarrow> n | Inl _ \<Rightarrow> - 1), d')"
    using c d'(1) assms(3) by (auto simp: SQLOperation_Execute_def MySQLConn_ExecuteUpdate_def catch_sql_def)
  with that [of p] p run d'(2) show thesis
    by (simp add: db_update_def andThen_run(1) ret_run update_count_def)
qed

lemma db_query_run:
  assumes "pool_good (ow_pool w)"
    and "\<And>h. \<exists>rows d'. drv_executeQuery (da_sql api) h sql (mp_driver (ow_pool w)) = (Inr (Some rows), d') \<and> P rows d'"
  obtains p rows where "pool_good p" and "P rows (mp_driver p)"
    and "db_query api sql w = Returns (Some rows) (w\<lparr>ow_pool := p, ow_turn := Suc (ow_turn w)\<rparr>)"
proof -
  let ?op = "\<lparr>so_kind = Query, so_sql = sql\<rparr>"
  obtain c h p where c: "mc_conn c = Some h" and p: "mp_driver p = snd (SQLOperation_Execute (da_sql api) ?op c (mp_driver (ow_pool w)))" "pool_good p"
      and run: "db_call (da_sql api) Query sql w = Returns (fst (SQLOperation_Execute (da_sql api) ?op c (mp_driver (ow_pool w))))
        (w\<lparr>ow_pool := p, ow_turn := Suc (ow_turn w)\<rparr>)"
    by (rule db_call_run [OF assms(1), of "da_sql api" Query sql])
  from assms(2) [of h] obtain rows d' where d': "drv_executeQuery (da_sql api) h sql (mp_driver (ow_pool w)) = (Inr (Some rows), d')" "P rows d'"
    by blast
  have "SQLOperation_Execute (da_sql api) ?op c (mp_driver (ow_pool w)) = (AnswerQuery (Some rows), d')"
    using c d'(1) by (simp add: SQLOperation_Execute_def MySQLConn_ExecuteQuery_def catch_sql_def)
  with that [of p rows] p run d'(2) show thesis
    by (simp add: db_query_def andThen_run(1) ret_run query_rows_def)
qed

section \<open>Lemmas: inserting and reading\<close>

definition parsed :: "order_record \<Rightarrow> order_record" where
  "parsed r = r\<lparr>or_status := OrderStatusFromString (ToString (or_status r)), or_totalAmount := to_double (or_totalAmount r),
     or_createdAt := 0, or_updatedAt := 0\<rparr>"

lemma ParseSingle_holds: "row_holds ra row r \<Longrightarrow> ParseSingle ra row = Inr (parsed r)"
  by (simp add: row_holds_def ParseSingle_def safeString_def parsed_def OrderRecord_new_def)

lemma Insert_run:
  assumes "sql_serves api rp db" and "pool_good (ow_pool w)" and "insertable r"
  obtains p where "pool_good p"
    and "Insert api rp r w = Returns (db (mp_driver (ow_pool w)) (or_orderId r) = None) (w\<lparr>ow_pool := p, ow_turn := Suc (ow_turn w)\<rparr>)"
    and "db (mp_driver p) = (if db (mp_driver (ow_pool w)) (or_orderId r) = None
           then (db (mp_driver (ow_pool w)))(or_orderId r \<mapsto> stored r) else db (mp_driver (ow_pool w)))"
proof -
  let ?d = "mp_driver (ow_pool w)"
  let ?r = "if db ?d (or_orderId r) = None then Inr 1 else Inl SqlException :: cpp_error + int"
  let ?P = "\<lambda>d'. db d' = (if db ?d (or_orderId r) = None then (db ?d)(or_orderId r \<mapsto> stored r) else db ?d)"
  have st: "\<exists>d'. drv_executeUpdate (da_sql api) h (BuildInsertSQL rp r) ?d = (?r, d') \<and> ?P d'" for h
    using assms(1,3) unfolding sql_serves_def serves_insert_def by blast
  have kind: "?r = Inl SqlException \<or> (\<exists>n. ?r = Inr n)" by simp
  obtain p where p: "pool_good p" "?P (mp_driver p)"
      and run: "db_update api (BuildInsertSQL rp r) w = Returns (0 < (case ?r of Inr n \<Rightarrow> n | Inl _ \<Rightarrow> - 1)) (w\<lparr>ow_pool := p, ow_turn := Suc (ow_turn w)\<rparr>)"
    by (rule db_update_run [OF assms(2), where P = ?P, OF st kind])
  from run have "Insert api rp r w = Returns (db ?d (or_orderId r) = None) (w\<lparr>ow_pool := p, ow_turn := Suc (ow_turn w)\<rparr>)"
    by (simp add: Insert_def split: if_splits)
  with p show thesis by (intro that)
qed

lemma GetById_run:
  assumes "sql_serves api rp db" and "pool_good (ow_pool w)" and "sql_text 64 i"
  obtains p where "pool_good p" and "db (mp_driver p) = db (mp_driver (ow_pool w))"
    and "GetById api rp i w = Returns (map_option parsed (db (mp_driver (ow_pool w)) i)) (w\<lparr>ow_pool := p, ow_turn := Suc (ow_turn w)\<rparr>)"
proof -
  let ?d = "mp_driver (ow_pool w)"
  let ?P = "\<lambda>rows d'. db d' = db ?d \<and> (case db ?d i of None \<Rightarrow> rows = [] | Some r \<Rightarrow> \<exists>row. rows = [row] \<and> row_holds (da_row api) row r)"
  have st: "\<exists>rows d'. drv_executeQuery (da_sql api) h (BuildSelectByIdSQL rp i) ?d = (Inr (Some rows), d') \<and> ?P rows d'" for h
    using assms(1,3) unfolding sql_serves_def serves_select_def by blast
  obtain p rows where p: "pool_good p" "?P rows (mp_driver p)"
      and run: "db_query api (BuildSelectByIdSQL rp i) w = Returns (Some rows) (w\<lparr>ow_pool := p, ow_turn := Suc (ow_turn w)\<rparr>)"
    by (rule db_query_run [OF assms(2), where P = ?P, OF st])
  have "GetById api rp i w = Returns (map_option parsed (db ?d i)) (w\<lparr>ow_pool := p, ow_turn := Suc (ow_turn w)\<rparr>)"
    using p(2) run ParseSingle_holds [of "da_row api"]
    by (auto simp: GetById_def andThen_def ret_def from_sum_def split: option.splits)
  with p show thesis by (intro that) simp_all
qed

lemma status_update_run:
  assumes "sql_serves api rp db" and "pool_good (ow_pool w)" and "sql_text 64 i" and "sql_text 255 reason" and "status_named s"
    and "db (mp_driver (ow_pool w)) i = Some r" and "or_status r \<noteq> s"
  obtains p where "pool_good p" and "Repo_UpdateStatus api rp i s reason w = Returns True (w\<lparr>ow_pool := p, ow_turn := Suc (ow_turn w)\<rparr>)"
    and "db (mp_driver p) = (db (mp_driver (ow_pool w)))(i \<mapsto> r\<lparr>or_status := s, or_statusReason := reason\<rparr>)"
proof -
  let ?d = "mp_driver (ow_pool w)"
  let ?P = "\<lambda>d'. db d' = (db ?d)(i \<mapsto> r\<lparr>or_status := s, or_statusReason := reason\<rparr>)"
  have st: "\<exists>d'. drv_executeUpdate (da_sql api) h (BuildUpdateStatusSQL rp i s reason) ?d = (Inr 1, d') \<and> ?P d'" for h
    using assms unfolding sql_serves_def serves_status_def by blast
  have kind: "(Inr 1 :: cpp_error + int) = Inl SqlException \<or> (\<exists>n. (Inr 1 :: cpp_error + int) = Inr n)" by simp
  obtain p where "pool_good p" "?P (mp_driver p)"
      and "db_update api (BuildUpdateStatusSQL rp i s reason) w =
        Returns (0 < (case Inr 1 :: cpp_error + int of Inr n \<Rightarrow> n | Inl _ \<Rightarrow> - 1)) (w\<lparr>ow_pool := p, ow_turn := Suc (ow_turn w)\<rparr>)"
    by (rule db_update_run [OF assms(2), where P = ?P, OF st kind])
  then show thesis by (intro that) (simp_all add: Repo_UpdateStatus_def)
qed

lemma stored_amount_whole: "n < 10 ^ 6 \<Longrightarrow> 0 < n \<Longrightarrow> stored_amount (of_nat n) = of_nat n \<and> to_double (of_nat n) = of_nat n"
  by (simp add: stored_amount_def show_general6_nat std_stod_show_nat to_double_nat)

lemma parsed_stored:
  assumes "status_named (or_status r)" and "or_totalAmount r = of_nat n" and "0 < n" and "n < 10 ^ 6"
  shows "parsed (stored r) = r\<lparr>or_createdAt := 0, or_updatedAt := 0\<rparr>"
  using stored_amount_whole [OF assms(4,3)] assms(1,2) by (simp add: parsed_def stored_def)

section \<open>A small server\<close>

text \<open>
  A driver that stores orders by id: it splits a statement at its quotes and recognises the three
  statements above by the text around them.
\<close>

fun split_on :: "char \<Rightarrow> string \<Rightarrow> string list" where
  "split_on d [] = [[]]"
| "split_on d (c # s) = (if c = d then [] # split_on d s else (case split_on d s of t # ts \<Rightarrow> (c # t) # ts | [] \<Rightarrow> [[c]]))"

definition the_repo :: order_repo where
  "the_repo = \<lparr>rp_tableName = ''orders'', rp_schemaEnsured = True\<rparr>"

definition read_insert :: "string list \<Rightarrow> order_record" where
  "read_insert ts =
     (let nums = split_on (CHR '','') (ts ! 6)
      in \<lparr>or_orderId = ts ! 1, or_userId = ts ! 3, or_productId = ts ! 5,
          or_quantity = (case std_stoul (nums ! 1) of Inr q \<Rightarrow> of_nat q | Inl _ \<Rightarrow> 0),
          or_totalAmount = (case std_stod (nums ! 2) of Inr x \<Rightarrow> x | Inl _ \<Rightarrow> 0),
          or_currency = ts ! 7, or_status = OrderStatusFromString (ts ! 9), or_statusReason = ts ! 11,
          or_payloadJson = ts ! 13, or_createdAt = 0, or_updatedAt = 0\<rparr>)"

definition map_update :: "string \<Rightarrow> (string \<rightharpoonup> order_record) \<Rightarrow> (cpp_error + int) \<times> (string \<rightharpoonup> order_record)" where
  "map_update sql d =
     (let ts = split_on (CHR 0x27) sql
      in if ts ! 0 = insert_head the_repo
         then (let r = read_insert ts
               in if d (or_orderId r) = None then (Inr 1, d(or_orderId r \<mapsto> r)) else (Inl SqlException, d))
         else if ts ! 0 = ''UPDATE orders SET status=''
         then (case d (ts ! 5) of
                 None \<Rightarrow> (Inr 0, d)
               | Some r \<Rightarrow> (Inr 1, d(ts ! 5 \<mapsto> r\<lparr>or_status := OrderStatusFromString (ts ! 1), or_statusReason := ts ! 3\<rparr>)))
         else (Inl SqlException, d))"

definition map_query :: "string \<Rightarrow> (string \<rightharpoonup> order_record) \<Rightarrow> (cpp_error + order_record list option) \<times> (string \<rightharpoonup> order_record)" where
  "map_query sql d =
     (let ts = split_on (CHR 0x27) sql
      in if ts ! 0 = ''SELECT * FROM orders WHERE order_id=''
         then (Inr (Some (case d (ts ! 1) of None \<Rightarrow> [] | Some r \<Rightarrow> [r])), d)
         else (Inl SqlException, d))"

definition map_column :: "order_record \<Rightarrow> string \<Rightarrow> cpp_error + string" where
  "map_column r column =
     (if column = ''order_id'' then Inr (or_orderId r) else if column = ''user_id'' then Inr (or_userId r)
      else if column = ''product_id'' then Inr (or_productId r) else if column = ''currency'' then Inr (or_currency r)
      else if column = ''status'' then Inr (ToString (or_status r)) else if column = ''status_reason'' then Inr (or_statusReason r)
      else if column = ''payload_json'' then Inr (or_payloadJson r) else Inl SqlException)"

definition map_sql :: "(unit, string \<rightharpoonup> order_record, order_record) db_api" where
  "map_sql =
     \<lparr>da_sql = \<lparr>drv_connect = (\<lambda>url user password d. (Inr (Some ()), d)),
         drv_setSchema = (\<lambda>h db d. (Inr (), d)), drv_close = (\<lambda>h d. (Inr (), d)),
         drv_executeQuery = (\<lambda>h. map_query), drv_execute = (\<lambda>h sql d. (Inr False, snd (map_update sql d))),
         drv_executeUpdate = (\<lambda>h. map_update), drv_isValid = (\<lambda>h d. (Inr True, d))\<rparr>,
      da_row = \<lparr>row_isNull = (\<lambda>r column. Inr False), row_getString = map_column,
         row_getInt = (\<lambda>r column. Inr (int (unat (or_quantity r)))), row_getDouble = (\<lambda>r column. Inr (or_totalAmount r))\<rparr>\<rparr>"

lemma split_on_sep: "d \<notin> set t \<Longrightarrow> split_on d (t @ d # r) = t # split_on d r"
  by (induction t) auto

lemma split_on_one: "d \<notin> set t \<Longrightarrow> split_on d t = [t]"
  by (induction t) auto

lemma split_on_char: "c \<noteq> d \<Longrightarrow> split_on d (c # d # r) = [c] # split_on d r"
  by simp

lemma sql_text_quote: "sql_text n s \<Longrightarrow> CHR 0x27 \<notin> set s"
  by (auto simp: sql_text_def sql_char_def)

lemma number_chars: "c \<in> set (show_nat n) \<Longrightarrow> c \<noteq> CHR 0x27 \<and> c \<noteq> CHR '',''"
  by (auto dest!: show_nat_digits simp: isdigit_def)

lemma int_chars: "c \<in> set (show_int n) \<Longrightarrow> c \<noteq> CHR 0x27 \<and> c \<noteq> CHR '',''"
  by (auto dest!: show_int_chars simp: isdigit_def)

lemma strip_zeros_chars: "set (strip_zeros s) \<subseteq> set s"
proof -
  define r where "r = rev (dropWhile (\<lambda>c. c = CHR ''0'') (rev s))"
  have "set r \<subseteq> set s" unfolding r_def using set_dropWhileD [of _ _ "rev s"] by (metis set_rev subsetI)
  moreover have "set (butlast r) \<subseteq> set r" using in_set_butlastD [of _ r] by blast
  ultimately show ?thesis unfolding strip_zeros_def Let_def r_def [symmetric] by (auto split: if_split)
qed

lemma general6_chars: "c \<in> set (show_general6 x) \<Longrightarrow> c \<noteq> CHR 0x27 \<and> c \<noteq> CHR '',''"
proof -
  define ok where "ok s \<longleftrightarrow> CHR 0x27 \<notin> set s \<and> CHR '','' \<notin> set s" for s :: string
  have nat: "ok (show_nat n)" for n using number_chars [of _ n] by (auto simp: ok_def)
  have strip: "ok (strip_zeros s)" if "ok s" for s using that strip_zeros_chars [of s] by (auto simp: ok_def)
  have app: "ok (s @ t) \<longleftrightarrow> ok s \<and> ok t" for s t by (auto simp: ok_def)
  have cons: "ok (c # s) \<longleftrightarrow> c \<noteq> CHR 0x27 \<and> c \<noteq> CHR '','' \<and> ok s" for c s by (auto simp: ok_def)
  have nil: "ok []" by (simp add: ok_def)
  have td: "ok (take i (show_nat n))" "ok (drop i (show_nat n))" for i n
    using nat [of n] by (auto simp: ok_def dest: in_set_takeD in_set_dropD)
  have rep: "ok (replicate k (CHR ''0''))" for k by (auto simp: ok_def)
  have expo: "ok (show_exponent e)" for e by (simp add: show_exponent_def Let_def app cons nil nat)
  have "ok (show_general6 x)"
    unfolding show_general6_def Let_def by (simp add: app cons nil nat td rep expo strip)
  then show "c \<in> set (show_general6 x) \<Longrightarrow> c \<noteq> CHR 0x27 \<and> c \<noteq> CHR '',''" by (auto simp: ok_def)
qed

lemma TimeToSQL_quoted: obtains b where "TimeToSQL tp = quoted b" and "CHR 0x27 \<notin> set b"
proof -
  have pad: "c \<in> set (show_pad2 i) \<Longrightarrow> c \<noteq> CHR 0x27" for c i
    by (auto simp: show_pad2_def dest!: int_chars split: if_splits)
  obtain y m d where "civil_of_days (to_seconds tp div 86400) = (y, m, d)" by (cases "civil_of_days (to_seconds tp div 86400)") auto
  then show thesis
    by (intro that [of "show_int y @ ''-'' @ show_pad2 m @ ''-'' @ show_pad2 d @ '' '' @ show_pad2 (to_seconds tp mod 86400 div 3600) @ '':'' @
          show_pad2 (to_seconds tp mod 86400 div 60 mod 60) @ '':'' @ show_pad2 (to_seconds tp mod 86400 mod 60)"])
      (auto simp: TimeToSQL_def quoted_def Let_def dest: pad int_chars)
qed

lemma head_quote: "CHR 0x27 \<notin> set (insert_head the_repo)"
  by (simp add: insert_head_def the_repo_def)

lemma insert_tokens:
  assumes "insertable r"
  obtains b1 b2 where "split_on (CHR 0x27) (BuildInsertSQL the_repo r) =
    [insert_head the_repo, or_orderId r, '','', or_userId r, '','', or_productId r,
     '','' @ show_nat (unat (or_quantity r)) @ '','' @ show_general6 (or_totalAmount r) @ '','', or_currency r, '','',
     ToString (or_status r), '','', or_statusReason r, '','', or_payloadJson r, '','', b1, '','', b2, '')'']"
proof -
  obtain b1 where b1: "TimeToSQL (or_createdAt r) = quoted b1" "CHR 0x27 \<notin> set b1" by (rule TimeToSQL_quoted)
  obtain b2 where b2: "TimeToSQL (or_updatedAt r) = quoted b2" "CHR 0x27 \<notin> set b2" by (rule TimeToSQL_quoted)
  let ?m = "'','' @ show_nat (unat (or_quantity r)) @ '','' @ show_general6 (or_totalAmount r) @ '',''"
  have m: "CHR 0x27 \<notin> set ?m" by (auto dest: number_chars general6_chars)
  have st: "CHR 0x27 \<notin> set (ToString (or_status r))" using assms by (cases "or_status r") (auto simp: ToString_def)
  have "BuildInsertSQL the_repo r =
      insert_head the_repo @ CHR 0x27 # or_orderId r @ CHR 0x27 # '','' @ CHR 0x27 # or_userId r @ CHR 0x27 # '','' @
      CHR 0x27 # or_productId r @ CHR 0x27 # ?m @ CHR 0x27 # or_currency r @ CHR 0x27 # '','' @ CHR 0x27 # ToString (or_status r) @
      CHR 0x27 # '','' @ CHR 0x27 # or_statusReason r @ CHR 0x27 # '','' @ CHR 0x27 # or_payloadJson r @ CHR 0x27 # '','' @
      CHR 0x27 # b1 @ CHR 0x27 # '','' @ CHR 0x27 # b2 @ CHR 0x27 # '')''"
    by (simp add: BuildInsertSQL_def quoted_def b1(1) b2(1))
  moreover have "CHR 0x27 \<notin> set (or_orderId r)" "CHR 0x27 \<notin> set (or_userId r)" "CHR 0x27 \<notin> set (or_productId r)"
      "CHR 0x27 \<notin> set (or_currency r)" "CHR 0x27 \<notin> set (or_statusReason r)" "CHR 0x27 \<notin> set (or_payloadJson r)"
    using assms unfolding insertable_def by (auto dest: sql_text_quote)
  moreover have "CHR 0x27 \<notin> set '',''" "CHR 0x27 \<notin> set '')''" by simp_all
  ultimately show thesis using that [of b1 b2]
    by (simp only: split_on_sep split_on_one head_quote m st b1(2) b2(2) not_False_eq_True)
qed

lemma map_update_insert:
  assumes "insertable r"
  shows "map_update (BuildInsertSQL the_repo r) d =
    (if d (or_orderId r) = None then (Inr 1, d(or_orderId r \<mapsto> stored r)) else (Inl SqlException, d))"
proof -
  obtain b1 b2 where ts: "split_on (CHR 0x27) (BuildInsertSQL the_repo r) =
    [insert_head the_repo, or_orderId r, '','', or_userId r, '','', or_productId r,
     '','' @ show_nat (unat (or_quantity r)) @ '','' @ show_general6 (or_totalAmount r) @ '','', or_currency r, '','',
     ToString (or_status r), '','', or_statusReason r, '','', or_payloadJson r, '','', b1, '','', b2, '')'']"
    by (rule insert_tokens [OF assms])
  have "split_on (CHR '','') ('','' @ show_nat (unat (or_quantity r)) @ '','' @ show_general6 (or_totalAmount r) @ '','') =
      [[], show_nat (unat (or_quantity r)), show_general6 (or_totalAmount r), []]"
    using number_chars [of "CHR '',''" "unat (or_quantity r)"] general6_chars [of "CHR '',''" "or_totalAmount r"]
    by (simp add: split_on_sep) (metis append_Nil2 split_on_sep split_on.simps(1))
  moreover have "std_stoul (show_nat (unat (or_quantity r))) = Inr (unat (or_quantity r))" by (rule stoul_quantity)
  ultimately have "read_insert (split_on (CHR 0x27) (BuildInsertSQL the_repo r)) = stored r"
    unfolding ts using assms by (simp add: read_insert_def Let_def stored_def stored_amount_def insertable_def)
  moreover have "or_orderId (stored r) = or_orderId r" by (simp add: stored_def)
  moreover have "split_on (CHR 0x27) (BuildInsertSQL the_repo r) ! 0 = insert_head the_repo" unfolding ts by simp
  ultimately show ?thesis unfolding map_update_def Let_def by simp
qed

lemma map_query_select:
  assumes "sql_text 64 i"
  shows "map_query (BuildSelectByIdSQL the_repo i) d = (Inr (Some (case d i of None \<Rightarrow> [] | Some r \<Rightarrow> [r])), d)"
proof -
  have "BuildSelectByIdSQL the_repo i = ''SELECT * FROM orders WHERE order_id='' @ CHR 0x27 # i @ [CHR 0x27]"
    by (simp add: BuildSelectByIdSQL_def the_repo_def quoted_def)
  moreover have "CHR 0x27 \<notin> set ''SELECT * FROM orders WHERE order_id=''" by simp
  ultimately have "split_on (CHR 0x27) (BuildSelectByIdSQL the_repo i) = [''SELECT * FROM orders WHERE order_id='', i, []]"
    using sql_text_quote [OF assms] by (simp only: split_on_sep split_on.simps(1) not_False_eq_True)
  then show ?thesis by (simp add: map_query_def Let_def)
qed

lemma map_update_status:
  assumes "sql_text 64 i" and "sql_text 255 reason" and "status_named s" and "d i = Some r"
  shows "map_update (BuildUpdateStatusSQL the_repo i s reason) d = (Inr 1, d(i \<mapsto> r\<lparr>or_status := s, or_statusReason := reason\<rparr>))"
proof -
  have "BuildUpdateStatusSQL the_repo i s reason = ''UPDATE orders SET status='' @ CHR 0x27 # ToString s @ CHR 0x27 # '', status_reason='' @
      CHR 0x27 # reason @ CHR 0x27 # '', updated_at=NOW() WHERE order_id='' @ CHR 0x27 # i @ [CHR 0x27]"
    by (simp add: BuildUpdateStatusSQL_def the_repo_def quoted_def)
  moreover have "CHR 0x27 \<notin> set ''UPDATE orders SET status=''" "CHR 0x27 \<notin> set '', status_reason=''"
      "CHR 0x27 \<notin> set '', updated_at=NOW() WHERE order_id=''" by simp_all
  moreover have "CHR 0x27 \<notin> set (ToString s)" using assms(3) by (cases s) (simp_all add: ToString_def)
  ultimately have "split_on (CHR 0x27) (BuildUpdateStatusSQL the_repo i s reason) =
      [''UPDATE orders SET status='', ToString s, '', status_reason='', reason, '', updated_at=NOW() WHERE order_id='', i, []]"
    using sql_text_quote [OF assms(1)] sql_text_quote [OF assms(2)]
    by (simp only: split_on_sep split_on.simps(1) not_False_eq_True)
  moreover have "insert_head the_repo \<noteq> ''UPDATE orders SET status=''" by (simp add: insert_head_def)
  ultimately show ?thesis using assms(3,4) by (simp add: map_update_def Let_def)
qed

lemma map_sql_serves: "sql_serves map_sql the_repo (\<lambda>d. d)"
proof -
  have "serves_insert map_sql the_repo (\<lambda>d. d)"
    by (auto simp: serves_insert_def map_sql_def map_update_insert)
  moreover have "serves_select map_sql the_repo (\<lambda>d. d)"
    by (auto simp: serves_select_def map_sql_def map_query_select row_holds_def map_column_def split: option.split)
  moreover have "serves_status map_sql the_repo (\<lambda>d. d)"
    by (auto simp: serves_status_def map_sql_def map_update_status)
  ultimately show ?thesis by (simp add: sql_serves_def)
qed

lemma stod_example: "std_stod ''1.23457e+06'' = Inr 1234570"
proof -
  have lex: "dropWhile isspace ''1.23457e+06'' = ''1.23457e+06''" "takeWhile isdigit ''1.23457e+06'' = ''1''"
      "dropWhile isdigit ''1.23457e+06'' = ''.23457e+06''" "takeWhile isdigit ''23457e+06'' = ''23457''"
      "dropWhile isdigit ''23457e+06'' = ''e+06''" "exponent_part ''e+06'' = 6" "digits_val 0 (''1'' @ ''23457'') = 123457"
    by (simp_all add: isspace_def isdigit_def digit_val_def exponent_part_def)
  have x: "of_nat 123457 * pow10 (6 - int (length ''23457'')) = (of_nat 1234570 :: rat)" by (simp add: pow10_def)
  have d: "to_double (of_nat 1234570) = of_nat 1234570" by (rule to_double_nat) simp
  have "(of_nat 1234570 :: rat) < 2 ^ 53" by simp
  also have "\<dots> = pow2 (int 53)" by (simp only: pow2_of_nat)
  also have "\<dots> \<le> pow2 1024" by (rule pow2_mono) simp
  finally have big: "(pow2 1024 \<le> (of_nat 1234570 :: rat)) = False" by simp
  show ?thesis
    unfolding std_stod_def Let_def lex list.case char.inject
    by (simp only: lex x d big list.case simp_thms if_False if_True char.inject list.distinct refl) simp
qed

section \<open>Properties\<close>

text \<open>A world of example: an idle pool with one live connection to an empty table, and one order.\<close>

definition sample_db_world :: "(string \<Rightarrow> string option, unit, string \<rightharpoonup> order_record, order_record) order_world" where
  "sample_db_world =
     \<lparr>rw_clients = [good_client], rw_server = [''inventory:stock:p1'' \<mapsto> show_nat 5], aw_clock = (\<lambda>i. int i), aw_tick = 0,
      aw_published = [],
      ow_pool = \<lparr>mp_heap = [sample_conn], mp_conns = [0], mp_workers = [\<lparr>wk_conn = 0, wk_running = True, wk_pc = WPop\<rparr>],
         mp_queue = BlockingQueue_new, mp_driver = Map.empty, mp_keepalive = True, mp_stopping = None,
         mp_next = 0, mp_accepted = [], mp_taken = [], mp_answers = []\<rparr>,
      ow_pick = (\<lambda>i. 0), ow_turn = 0\<rparr>"

lemma sample_pool_good: "pool_good (ow_pool sample_db_world)"
  by (simp add: pool_good_def sample_db_world_def sample_conn_def BlockingQueue_new_def MySQLConn_new_def)

definition sample_row :: order_record where
  "sample_row = OrderRecord_new\<lparr>or_orderId := ''ORD-1'', or_userId := ''u1'', or_productId := ''p1'', or_quantity := 2,
     or_totalAmount := 250\<rparr>"

lemma sample_row_ok: "insertable sample_row" "status_named (or_status sample_row)" "or_totalAmount sample_row = of_nat 250"
  by (simp_all add: sample_row_def OrderRecord_new_def insertable_def sql_text_def sql_char_def)



text \<open>
  Amounts are stored with six digits. The amount goes into the statement in the default format of
  a stream; 1234567.89 is written as 1.23457e+06 and read back as 1234570.
\<close>

theorem amount_rounded:
  "(\<exists>rest. BuildInsertSQL rp (r\<lparr>or_totalAmount := cents 123456789\<rparr>) =
      insert_head rp @ quoted (or_orderId r) @ '','' @ quoted (or_userId r) @ '','' @ quoted (or_productId r) @ '','' @
      show_nat (unat (or_quantity r)) @ '',1.23457e+06,'' @ rest) \<and>
   stored_amount (cents 123456789) = 1234570 \<and> std_stod (show_fixed2 (cents 123456789)) = Inr (cents 123456789)"
proof -
  define x where "x = cents 123456789"
  have "\<bar>100 * x - 123456789\<bar> < 1 / 2" using cents_close [of 123456789] unfolding x_def by (simp add: max_cents_def)
  then have x: "1234567 < x" "x < 1234568" "\<bar>x / 10 - of_int 123457\<bar> < 1 / 2" by linarith+
  have "\<lfloor>x\<rfloor> = 1234567" using x by (intro floor_unique) auto
  moreover have digits: "digit_char 1 = CHR ''1''" "digit_char 2 = CHR ''2''" "digit_char 3 = CHR ''3''" "digit_char 4 = CHR ''4''"
      "digit_char 5 = CHR ''5''" "digit_char 6 = CHR ''6''" "digit_char 7 = CHR ''7''" by code_simp+
  then have texts: "show_nat 1234567 = ''1234567''" "show_nat 123457 = ''123457''" "show_nat 6 = ''6''"
    by (simp_all add: show_nat.simps)
  ultimately have e: "decimal_exponent x = 6" using x by (simp add: decimal_exponent_def)
  have "pow10 1 = 10" by (simp add: pow10_def)
  then have m: "round_even (x / pow10 1) = 123457" using round_even_close [OF x(3)] by simp
  have "show_general6 x = ''1.23457e+06''"
    using x by (simp add: show_general6_def Let_def e m texts show_exponent_def) (simp add: strip_zeros_def)
  moreover have "std_stod ''1.23457e+06'' = Inr 1234570" by (rule stod_example)
  moreover have "std_stod (show_fixed2 (cents 123456789)) = Inr (cents 123456789)"
    by (rule std_stod_show_fixed2) (simp add: max_cents_def)
  ultimately show ?thesis unfolding x_def by (simp add: stored_amount_def BuildInsertSQL_def)
qed

end
