(* ===== verification/Order_Service.thy ===== *)
theory Order_Service
  imports Order_Repository
begin

text \<open>
  The order service: \<open>src/apps/order_server/domain/OrderService.cpp\<close>. It reads orders through the
  cache, creates them with a reservation of stock, changes their status, and tells the message
  queue. The third-party libraries are one argument.
\<close>

section \<open>State\<close>

record ('r, 'c, 'd, 'row) libs =
  lb_redis :: "'r redis_api"
  lb_db :: "('c, 'd, 'row) db_api"

text \<open>The dependencies of the service, each possibly a null pointer, and its options.\<close>

record order_service =
  os_database :: "order_repo option"
  os_cache :: "order_cache option"
  os_inventory :: "inventory_service option"
  os_producer :: bool
  os_useCache :: bool
  os_useMessageQueue :: bool
  os_requireInventoryReservation :: bool
  os_defaultPageSize :: nat
  os_maxPageSize :: nat

definition OrderService_new :: "order_repo option \<Rightarrow> order_cache option \<Rightarrow> inventory_service option \<Rightarrow> bool \<Rightarrow> order_service" where
  "OrderService_new database cache inventory mq =
     \<lparr>os_database = database, os_cache = cache, os_inventory = inventory, os_producer = mq, os_useCache = True,
      os_useMessageQueue = True, os_requireInventoryReservation = True, os_defaultPageSize = 20, os_maxPageSize = 100\<rparr>"

record create_context =
  cc_entity :: order_entity
  cc_rawPayload :: string
  cc_skipReservation :: bool

text \<open>\<open>options_.useCache && deps_.cache\<close>, with the cache that is then used.\<close>

definition used_cache :: "order_service \<Rightarrow> order_cache option" where
  "used_cache s = (if os_useCache s then os_cache s else None)"

text \<open>A call on the cache whose result is not used.\<close>

definition cache_put :: "('r, 'c, 'd, 'row) libs \<Rightarrow> order_service \<Rightarrow> order_record \<Rightarrow> (unit, ('r, 'c, 'd, 'row, 'z) order_world_scheme) prog" where
  "cache_put L s r =
     (case used_cache s of
        None \<Rightarrow> ret ()
      | Some oc \<Rightarrow> andThen (PutOrder (lb_redis L) oc r) (\<lambda>_. ret ()))"

section \<open>Tools\<close>

definition hydrate :: "order_record \<Rightarrow> order_entity" where
  "hydrate r = FromRecord r"

definition dehydrate :: "order_entity \<Rightarrow> order_record" where
  "dehydrate e = ToRecord e"

definition order_event :: "string \<Rightarrow> order_entity \<Rightarrow> string \<Rightarrow> string" where
  \<open>order_event event e payload =
     ''{"event":"'' @ event @ ''","orderId":"'' @ oe_orderId e @ ''","userId":"'' @ oe_userId e @
     ''","productId":"'' @ oe_productId e @ ''","status":"'' @ show_int (status_int (oe_status e)) @ ''"'' @
     (if payload \<noteq> [] then '',"payload":"'' @ payload @ ''"'' else []) @ ''}''\<close>

definition publishEvent :: "order_service \<Rightarrow> string \<Rightarrow> order_entity \<Rightarrow> string \<Rightarrow> (unit, ('r, 'z) app_world_scheme) prog" where
  "publishEvent s event e payload =
     (if \<not> os_producer s then ret () else mq_publish [] ''order.events'' (order_event event e payload))"

definition Service_fetchFromCache :: "('r, 'c, 'd, 'row) libs \<Rightarrow> order_service \<Rightarrow> string \<Rightarrow> (order_entity option, ('r, 'c, 'd, 'row, 'z) order_world_scheme) prog" where
  "Service_fetchFromCache L s orderId =
     (case os_cache s of
        None \<Rightarrow> ret None
      | Some oc \<Rightarrow> andThen (GetOrder (lb_redis L) oc orderId) (\<lambda>r. ret (map_option hydrate r)))"

definition Service_fetchFromDatabase :: "('r, 'c, 'd, 'row) libs \<Rightarrow> order_service \<Rightarrow> string \<Rightarrow> (order_entity option, ('r, 'c, 'd, 'row, 'z) order_world_scheme) prog" where
  "Service_fetchFromDatabase L s orderId =
     (case os_database s of
        None \<Rightarrow> ret None
      | Some rp \<Rightarrow> andThen (GetById (lb_db L) rp orderId) (\<lambda>r. ret (map_option hydrate r)))"

definition WarmupCache :: "('r, 'c, 'd, 'row) libs \<Rightarrow> order_service \<Rightarrow> order_entity list \<Rightarrow> (unit, ('r, 'c, 'd, 'row, 'z) order_world_scheme) prog" where
  "WarmupCache L s entities =
     (case used_cache s of
        None \<Rightarrow> ret ()
      | Some oc \<Rightarrow> andThen (PutOrders (lb_redis L) oc (map ToRecord entities)) (\<lambda>_. ret ()))"

text \<open>\<open>RefreshCache\<close> does not test the database pointer.\<close>

definition RefreshCache :: "('r, 'c, 'd, 'row) libs \<Rightarrow> order_service \<Rightarrow> string \<Rightarrow> (unit, ('r, 'c, 'd, 'row, 'z) order_world_scheme) prog" where
  "RefreshCache L s orderId =
     (case used_cache s of
        None \<Rightarrow> ret ()
      | Some oc \<Rightarrow>
          (case os_database s of
             None \<Rightarrow> throw NullDeref
           | Some rp \<Rightarrow>
               andThen (GetById (lb_db L) rp orderId) (\<lambda>record.
                 case record of
                   None \<Rightarrow> ret ()
                 | Some r \<Rightarrow> andThen (PutOrder (lb_redis L) oc r) (\<lambda>_. ret ()))))"

section \<open>Queries\<close>

definition GetOrderById :: "('r, 'c, 'd, 'row) libs \<Rightarrow> order_service \<Rightarrow> string \<Rightarrow> bool \<Rightarrow> (order_entity option, ('r, 'c, 'd, 'row, 'z) order_world_scheme) prog" where
  "GetOrderById L s orderId preferCache =
     (let from_db = andThen (Service_fetchFromDatabase L s orderId) (\<lambda>db.
            case db of
              None \<Rightarrow> ret None
            | Some e \<Rightarrow> andThen (cache_put L s (dehydrate e)) (\<lambda>_. ret (Some e)))
      in if preferCache \<and> used_cache s \<noteq> None
         then andThen (Service_fetchFromCache L s orderId) (\<lambda>cached.
                case cached of Some e \<Rightarrow> ret (Some e) | None \<Rightarrow> from_db)
         else from_db)"

definition ListOrdersByUser :: "('r, 'c, 'd, 'row) libs \<Rightarrow> order_service \<Rightarrow> string \<Rightarrow> nat \<Rightarrow> nat \<Rightarrow> bool \<Rightarrow> (order_entity list, ('r, 'c, 'd, 'row, 'z) order_world_scheme) prog" where
  "ListOrdersByUser L s userId limit0 offset preferCache =
     (let limit = min limit0 (os_maxPageSize s);
          from_db = (case os_database s of
            None \<Rightarrow> ret []
          | Some rp \<Rightarrow>
              andThen (ListByUser (lb_db L) rp userId limit offset) (\<lambda>records.
                case used_cache s of
                  None \<Rightarrow> ret (map hydrate records)
                | Some oc \<Rightarrow> andThen (PutUserOrders (lb_redis L) oc userId records) (\<lambda>_. ret (map hydrate records))))
      in if limit0 = 0 then ret []
         else case (if preferCache then used_cache s else None) of
                None \<Rightarrow> from_db
              | Some oc \<Rightarrow>
                  andThen (GetUserOrders (lb_redis L) oc userId) (\<lambda>cached.
                    case cached of Some records \<Rightarrow> ret (map hydrate records) | None \<Rightarrow> from_db))"

section \<open>Creating an order\<close>

definition CreateOrder :: "('r, 'c, 'd, 'row) libs \<Rightarrow> order_service \<Rightarrow> create_context \<Rightarrow>
    (string + order_entity \<times> reservation option, ('r, 'c, 'd, 'row, 'z) order_world_scheme) prog" where
  "CreateOrder L s ctx =
     (case os_database s of
        None \<Rightarrow> ret (Inl ''Missing database dependency'')
      | Some rp \<Rightarrow>
          andThen clock_now (\<lambda>t1. andThen clock_now (\<lambda>t2. andThen clock_now (\<lambda>t3.
          let entity = MarkPending t3 ''order created'' (SetCreatedAt t2 (SetPayload t1 (cc_rawPayload ctx) (cc_entity ctx)));
              store = (\<lambda>reservation.
                andThen (Insert (lb_db L) rp (ToRecord entity)) (\<lambda>ok.
                if \<not> ok
                then (case (reservation, os_inventory s) of
                        (Some rv, Some iv) \<Rightarrow>
                          andThen (ReleaseReservation (lb_redis L) iv rv ''rollback'') (\<lambda>_. ret (Inl ''Failed to insert order record''))
                      | _ \<Rightarrow> ret (Inl ''Failed to insert order record''))
                else andThen (cache_put L s (ToRecord entity)) (\<lambda>_.
                     andThen (if os_useMessageQueue s then publishEvent s ''order.created'' entity (cc_rawPayload ctx) else ret ()) (\<lambda>_.
                     ret (Inr (entity, reservation))))))
          in case (if os_requireInventoryReservation s \<and> \<not> cc_skipReservation ctx then os_inventory s else None) of
               None \<Rightarrow> store None
             | Some iv \<Rightarrow>
                 andThen (ReserveForOrder (lb_redis L) iv (ToRecord entity)) (\<lambda>r.
                   case r of
                     Inl msg \<Rightarrow>
                       andThen clock_now (\<lambda>t4.
                       let failed = MarkFailed t4 ''inventory reservation failed'' entity
                       in andThen (Insert (lb_db L) rp (ToRecord failed)) (\<lambda>_.
                          andThen (cache_put L s (ToRecord failed)) (\<lambda>_. ret (Inl msg))))
                   | Inr rv \<Rightarrow> store (Some rv))))))"

section \<open>Changing an order\<close>

definition tell :: "order_service \<Rightarrow> (unit, ('r, 'z) app_world_scheme) prog \<Rightarrow> (unit, ('r, 'z) app_world_scheme) prog" where
  "tell s message = (if os_useMessageQueue s \<and> os_producer s then message else ret ())"

definition Service_UpdateStatus :: "('r, 'c, 'd, 'row) libs \<Rightarrow> order_service \<Rightarrow> string \<Rightarrow> order_status \<Rightarrow> string \<Rightarrow> (bool, ('r, 'c, 'd, 'row, 'z) order_world_scheme) prog" where
  "Service_UpdateStatus L s orderId status reason =
     (case os_database s of
        None \<Rightarrow> ret False
      | Some rp \<Rightarrow>
          andThen (Repo_UpdateStatus (lb_db L) rp orderId status reason) (\<lambda>ok.
          if \<not> ok then ret False
          else andThen (RefreshCache L s orderId) (\<lambda>_.
               andThen (tell s (andThen (GetOrderById L s orderId True) (\<lambda>e.
                  publishEvent s ''order.status_updated'' (case e of Some x \<Rightarrow> x | None \<Rightarrow> OrderEntity_new) reason))) (\<lambda>_. ret True))))"

definition Service_MarkPaid :: "('r, 'c, 'd, 'row) libs \<Rightarrow> order_service \<Rightarrow> string \<Rightarrow> double \<Rightarrow> int \<Rightarrow> (bool, ('r, 'c, 'd, 'row, 'z) order_world_scheme) prog" where
  "Service_MarkPaid L s orderId paidAmount paidAt =
     (case os_database s of
        None \<Rightarrow> ret False
      | Some rp \<Rightarrow>
          andThen (UpdatePayment (lb_db L) rp orderId paidAmount paidAt) (\<lambda>ok.
          if \<not> ok then ret False
          else andThen (RefreshCache L s orderId) (\<lambda>_.
               andThen (tell s (andThen (GetOrderById L s orderId True) (\<lambda>e.
                  case e of Some x \<Rightarrow> publishEvent s ''order.paid'' x [] | None \<Rightarrow> ret ()))) (\<lambda>_. ret True))))"

text \<open>The reservation that \<open>CancelOrder\<close> releases: only three of its fields are set.\<close>

definition cancel_reservation :: "order_record \<Rightarrow> reservation" where
  "cancel_reservation r =
     \<lparr>rv_reservationId = [], rv_orderId = or_orderId r, rv_productId = or_productId r, rv_quantity = or_quantity r, rv_expiresAt = 0\<rparr>"

definition CancelOrder :: "('r, 'c, 'd, 'row) libs \<Rightarrow> order_service \<Rightarrow> string \<Rightarrow> string \<Rightarrow> bool \<Rightarrow> (bool, ('r, 'c, 'd, 'row, 'z) order_world_scheme) prog" where
  "CancelOrder L s orderId reason releaseReservation =
     (case os_database s of
        None \<Rightarrow> ret False
      | Some rp \<Rightarrow>
          andThen (GetById (lb_db L) rp orderId) (\<lambda>record.
          case record of
            None \<Rightarrow> ret False
          | Some r \<Rightarrow>
              andThen (Repo_UpdateStatus (lb_db L) rp orderId kCancelled reason) (\<lambda>ok.
              if \<not> ok then ret False
              else andThen (case (if releaseReservation then os_inventory s else None) of
                              None \<Rightarrow> ret ()
                            | Some iv \<Rightarrow> andThen (ReleaseReservation (lb_redis L) iv (cancel_reservation r) ''order cancelled'') (\<lambda>_. ret ())) (\<lambda>_.
                   andThen (RefreshCache L s orderId) (\<lambda>_.
                   andThen (tell s (publishEvent s ''order.cancelled'' (hydrate r) reason)) (\<lambda>_. ret True))))))"

section \<open>Lemmas: what the calls do to the stores\<close>

text \<open>
  A world in which both servers answer and both pools have a live connection, seen as the three
  things that last: the keys in Redis, the rows of the table, the messages sent.
\<close>

definition world_ok ::
  "('r, 'c, 'd, 'row) libs \<Rightarrow> order_repo \<Rightarrow> ('r \<Rightarrow> string \<Rightarrow> string option) \<Rightarrow> ('d \<Rightarrow> string \<Rightarrow> order_record option) \<Rightarrow>
   ('r, 'c, 'd, 'row, 'z) order_world_scheme \<Rightarrow> bool" where
  "world_ok L rp rdb sdb w \<longleftrightarrow>
     redis_serves (lb_redis L) rdb \<and> sql_serves (lb_db L) rp sdb \<and> pool_ready w \<and> pool_good (ow_pool w)"

definition stores ::
  "('r \<Rightarrow> string \<Rightarrow> string option) \<Rightarrow> ('d \<Rightarrow> string \<Rightarrow> order_record option) \<Rightarrow> ('r, 'c, 'd, 'row, 'z) order_world_scheme \<Rightarrow>
   (string \<Rightarrow> string option) \<times> (string \<Rightarrow> order_record option) \<times> (string \<times> string \<times> string) list" where
  "stores rdb sdb w = (rdb (rw_server w), sdb (mp_driver (ow_pool w)), aw_published w)"

definition same_clock :: "('r, 'z) app_world_scheme \<Rightarrow> ('r, 'z) app_world_scheme \<Rightarrow> bool" where
  "same_clock w v \<longleftrightarrow> aw_clock w = aw_clock v \<and> aw_tick w = aw_tick v"

lemma same_order_more:
  "app_world.more w = app_world.more v \<longleftrightarrow> ow_pool w = ow_pool v \<and> ow_pick w = ow_pick v \<and> ow_turn w = ow_turn v \<and> order_world.more w = order_world.more v"
  by (cases w, cases v) simp

lemma sv_insert:
  assumes "world_ok L rp rdb sdb w" and "stores rdb sdb w = (kv, rows, msgs)" and "insertable r"
  obtains w' where "Insert (lb_db L) rp r w = Returns (rows (or_orderId r) = None) w'" and "world_ok L rp rdb sdb w'" and "same_clock w' w"
    and "stores rdb sdb w' = (kv, if rows (or_orderId r) = None then rows(or_orderId r \<mapsto> stored r) else rows, msgs)"
proof -
  have ok: "sql_serves (lb_db L) rp sdb" "pool_good (ow_pool w)" using assms(1) by (simp_all add: world_ok_def)
  have d: "sdb (mp_driver (ow_pool w)) = rows" using assms(2) by (simp add: stores_def)
  obtain p where "pool_good p"
      "Insert (lb_db L) rp r w = Returns (sdb (mp_driver (ow_pool w)) (or_orderId r) = None) (w\<lparr>ow_pool := p, ow_turn := Suc (ow_turn w)\<rparr>)"
      "sdb (mp_driver p) = (if sdb (mp_driver (ow_pool w)) (or_orderId r) = None
           then (sdb (mp_driver (ow_pool w)))(or_orderId r \<mapsto> stored r) else sdb (mp_driver (ow_pool w)))"
    by (rule Insert_run [OF ok assms(3)])
  then show thesis using assms(1,2) unfolding d
    by (intro that [of "w\<lparr>ow_pool := p, ow_turn := Suc (ow_turn w)\<rparr>"]) (auto simp: world_ok_def stores_def same_clock_def pool_ready_def)
qed

lemma sv_get:
  assumes "world_ok L rp rdb sdb w" and "stores rdb sdb w = (kv, rows, msgs)" and "sql_text 64 i"
  obtains w' where "GetById (lb_db L) rp i w = Returns (map_option parsed (rows i)) w'" and "world_ok L rp rdb sdb w'" and "same_clock w' w"
    and "stores rdb sdb w' = (kv, rows, msgs)"
proof -
  have ok: "sql_serves (lb_db L) rp sdb" "pool_good (ow_pool w)" using assms(1) by (simp_all add: world_ok_def)
  have d: "sdb (mp_driver (ow_pool w)) = rows" using assms(2) by (simp add: stores_def)
  obtain p where "pool_good p" "sdb (mp_driver p) = sdb (mp_driver (ow_pool w))"
      "GetById (lb_db L) rp i w = Returns (map_option parsed (sdb (mp_driver (ow_pool w)) i)) (w\<lparr>ow_pool := p, ow_turn := Suc (ow_turn w)\<rparr>)"
    by (rule GetById_run [OF ok assms(3)])
  then show thesis using assms(1,2) unfolding d
    by (intro that [of "w\<lparr>ow_pool := p, ow_turn := Suc (ow_turn w)\<rparr>"]) (auto simp: world_ok_def stores_def same_clock_def pool_ready_def)
qed

lemma sv_status:
  assumes "world_ok L rp rdb sdb w" and "stores rdb sdb w = (kv, rows, msgs)" and "sql_text 64 i" and "sql_text 255 reason" and "status_named s"
    and "rows i = Some r" and "or_status r \<noteq> s"
  obtains w' where "Repo_UpdateStatus (lb_db L) rp i s reason w = Returns True w'" and "world_ok L rp rdb sdb w'" and "same_clock w' w"
    and "stores rdb sdb w' = (kv, rows(i \<mapsto> r\<lparr>or_status := s, or_statusReason := reason\<rparr>), msgs)"
proof -
  have ok: "sql_serves (lb_db L) rp sdb" "pool_good (ow_pool w)" using assms(1) by (simp_all add: world_ok_def)
  have d: "sdb (mp_driver (ow_pool w)) i = Some r" "sdb (mp_driver (ow_pool w)) = rows" using assms(2,6) by (simp_all add: stores_def)
  obtain p where "pool_good p" "Repo_UpdateStatus (lb_db L) rp i s reason w = Returns True (w\<lparr>ow_pool := p, ow_turn := Suc (ow_turn w)\<rparr>)"
      "sdb (mp_driver p) = (sdb (mp_driver (ow_pool w)))(i \<mapsto> r\<lparr>or_status := s, or_statusReason := reason\<rparr>)"
    by (rule status_update_run [OF ok assms(3-5) d(1) assms(7)])
  then show thesis using assms(1,2) unfolding d(2)
    by (intro that [of "w\<lparr>ow_pool := p, ow_turn := Suc (ow_turn w)\<rparr>"]) (auto simp: world_ok_def stores_def same_clock_def pool_ready_def)
qed

lemma sv_more:
  assumes "world_ok L rp rdb sdb w" and "pool_ready w'" and "redis_world.more w' = redis_world.more w"
  shows "world_ok L rp rdb sdb w' \<and> same_clock w' w \<and> snd (stores rdb sdb w') = snd (stores rdb sdb w)"
  using assms unfolding same_more same_order_more by (simp add: world_ok_def stores_def same_clock_def)

lemma sv_put:
  assumes "world_ok L rp rdb sdb w" and "stores rdb sdb w = (kv, rows, msgs)" and "oc_pool oc"
  obtains w' where "PutOrder (lb_redis L) oc r w = Returns True w'" and "world_ok L rp rdb sdb w'" and "same_clock w' w"
    and "stores rdb sdb w' = (kv(c_str (buildOrderKey oc (or_orderId r)) \<mapsto> c_str (serializeOrder r)), rows, msgs)"
proof -
  have ok: "redis_serves (lb_redis L) rdb" "pool_ready w" using assms(1) by (simp_all add: world_ok_def)
  obtain w' where w': "PutOrder (lb_redis L) oc r w = Returns True w'" "pool_ready w'"
      "rdb (rw_server w') = (rdb (rw_server w))(c_str (buildOrderKey oc (or_orderId r)) \<mapsto> c_str (serializeOrder r))"
      "redis_world.more w' = redis_world.more w"
    by (rule PutOrder_run [OF ok assms(3)])
  from sv_more [OF assms(1) w'(2,4)] w' assms(2) show thesis
    by (intro that [of w']) (auto simp: stores_def)
qed

lemma sv_release:
  assumes "world_ok L rp rdb sdb w" and "stores rdb sdb w = (kv, rows, msgs)" and "iv_redis iv"
    and "nul_free (makeStockKey iv (rv_productId rv))" and "nul_free (makeReservationKey iv (rv_reservationId rv))"
    and "stock_is iv (rv_productId rv) n kv" and "n + unat (rv_quantity rv) < 2 ^ 64"
  obtains w' where "ReleaseReservation (lb_redis L) iv rv reason w = Returns (Inr ()) w'" and "world_ok L rp rdb sdb w'" and "same_clock w' w"
    and "stores rdb sdb w' = (released iv rv n kv, rows, msgs @ published_events iv rv (''released:'' @ reason))"
proof -
  have ok: "redis_serves (lb_redis L) rdb" "pool_ready w" using assms(1) by (simp_all add: world_ok_def)
  have st: "stock_is iv (rv_productId rv) n (rdb (rw_server w))" using assms(2,6) by (simp add: stores_def)
  let ?v = "w\<lparr>aw_published := aw_published w @ published_events iv rv (''released:'' @ reason)\<rparr>"
  obtain w' where w': "ReleaseReservation (lb_redis L) iv rv reason w = Returns (Inr ()) w'" "pool_ready w'"
      "rdb (rw_server w') = released iv rv n (rdb (rw_server w))" "redis_world.more w' = redis_world.more ?v"
    by (rule ReleaseReservation_run [OF ok assms(3-5) st assms(7)])
  have "world_ok L rp rdb sdb ?v" using assms(1) by (simp add: world_ok_def pool_ready_def)
  from sv_more [OF this w'(2,4)] w' assms(2) show thesis
    by (intro that [of w']) (auto simp: stores_def same_clock_def)
qed

lemma sv_reserve:
  assumes "world_ok L rp rdb sdb w" and "stores rdb sdb w = (kv, rows, msgs)" and "iv_redis iv" and "iv_orders iv" and "order_keys_ok iv order"
    and "stock_is iv (or_productId order) n kv" and "unat (or_quantity order) \<le> n"
  obtains w' rv where "ReserveForOrder (lb_redis L) iv order w = Returns (Inr rv) w'" and "world_ok L rp rdb sdb w'"
    and "rv = reservation_of iv order (aw_clock w (aw_tick w))"
    and "aw_clock w' = aw_clock w" and "aw_tick w' = Suc (aw_tick w)"
    and "stores rdb sdb w' = (reserved iv order n kv, rows, msgs @ published_events iv rv ''created'')"
proof -
  have ok: "redis_serves (lb_redis L) rdb" "pool_ready w" using assms(1) by (simp_all add: world_ok_def)
  have st: "stock_is iv (or_productId order) n (rdb (rw_server w))" using assms(2,6) by (simp add: stores_def)
  let ?rv = "reservation_of iv order (aw_clock w (aw_tick w))"
  let ?v = "w\<lparr>aw_tick := Suc (aw_tick w), aw_published := aw_published w @ published_events iv ?rv ''created''\<rparr>"
  obtain w' where w': "ReserveForOrder (lb_redis L) iv order w = Returns (Inr ?rv) w'" "pool_ready w'"
      "rdb (rw_server w') = reserved iv order n (rdb (rw_server w))" "redis_world.more w' = redis_world.more ?v"
    by (rule ReserveForOrder_ok [OF ok assms(3-5) st assms(7)])
  have "world_ok L rp rdb sdb ?v" using assms(1) by (simp add: world_ok_def pool_ready_def)
  from sv_more [OF this w'(2,4)] w' assms(2) show thesis
    by (intro that [of ?rv w']) (auto simp: stores_def same_clock_def)
qed

lemma sql_text_nul_free:
  assumes "sql_text n s"
  shows "nul_free s"
proof -
  have "\<not> sql_char (CHR 0x00)" by (simp add: sql_char_def)
  with assms show ?thesis unfolding sql_text_def nul_free_def by blast
qed

lemma default_cache_key: "nul_free i \<Longrightarrow> c_str (buildOrderKey (OrderCache_new a) i) = ''order:'' @ i"
  by (simp add: buildOrderKey_def OrderCache_new_def nul_free_def)

lemma default_inventory_keys:
  "makeStockKey (InventoryService_new a b c) p = ''inventory:stock:'' @ p"
  "makeReservationKey (InventoryService_new a b c) q = ''inventory:reservation:'' @ q"
  by (simp_all add: makeStockKey_def makeReservationKey_def InventoryService_new_def)

section \<open>Properties\<close>

text \<open>
  C33. Cancelling an order. With both servers answering and the order stored and not cancelled yet,
  \<open>CancelOrder\<close> returns true; the row is cancelled with the reason, the quantity is back in stock,
  and the cache has the new row. Two things stay behind: the key of the order's reservation, since
  the reservation is released with an empty id, and the status in the message, which is that of
  the record read before the change.
\<close>

theorem cancel_order:
  assumes "world_ok L rp rdb sdb w" and "stores rdb sdb w = (kv, rows, msgs)"
    and "iv = InventoryService_new True mq True" and "s = OrderService_new (Some rp) (Some (OrderCache_new True)) (Some iv) mq"
    and "rows i = Some r" and "or_orderId r = i" and "or_status r \<noteq> kCancelled" and "sql_text 64 i" and "sql_text 255 reason"
    and "nul_free (or_productId r)" and "stock_is iv (or_productId r) n kv" and "n + unat (or_quantity r) < 2 ^ 64"
  shows "\<exists>w' kv' msgs'. CancelOrder L s i reason True w = Returns True w' \<and>
     stores rdb sdb w' = (kv', rows(i \<mapsto> r\<lparr>or_status := kCancelled, or_statusReason := reason\<rparr>), msgs') \<and>
     stock_is iv (or_productId r) (n + unat (or_quantity r)) kv' \<and>
     kv' (''order:'' @ i) = Some (c_str (serializeOrder (parsed (r\<lparr>or_status := kCancelled, or_statusReason := reason\<rparr>)))) \<and>
     kv' (makeReservationKey iv (makeReservationId r)) = kv (makeReservationKey iv (makeReservationId r)) \<and>
     (mq \<longrightarrow> last msgs' = ([], ''order.events'', order_event ''order.cancelled'' (hydrate (parsed r)) reason))"
proof -
  let ?oc = "OrderCache_new True" and ?r' = "r\<lparr>or_status := kCancelled, or_statusReason := reason\<rparr>"
  let ?rv = "cancel_reservation (parsed r)"
  have rv: "rv_productId ?rv = or_productId r" "rv_quantity ?rv = or_quantity r" "rv_reservationId ?rv = []"
    by (simp_all add: cancel_reservation_def parsed_def)
  obtain w1 where w1: "GetById (lb_db L) rp i w = Returns (map_option parsed (rows i)) w1" "world_ok L rp rdb sdb w1" "stores rdb sdb w1 = (kv, rows, msgs)"
    by (rule sv_get [OF assms(1,2,8)])
  obtain w2 where w2: "Repo_UpdateStatus (lb_db L) rp i kCancelled reason w1 = Returns True w2" "world_ok L rp rdb sdb w2"
      "stores rdb sdb w2 = (kv, rows(i \<mapsto> ?r'), msgs)"
    by (rule sv_status [OF w1(2,3) assms(8,9) _ assms(5,7)]) simp_all
  have iv: "iv_redis iv" "nul_free (makeStockKey iv (rv_productId ?rv))" "nul_free (makeReservationKey iv (rv_reservationId ?rv))"
    using assms(3,10) unfolding rv by (simp_all add: default_inventory_keys) (simp_all add: InventoryService_new_def)
  have st: "stock_is iv (rv_productId ?rv) n kv" "n + unat (rv_quantity ?rv) < 2 ^ 64" using assms(11,12) unfolding rv .
  obtain w3 where w3: "ReleaseReservation (lb_redis L) iv ?rv ''order cancelled'' w2 = Returns (Inr ()) w3" "world_ok L rp rdb sdb w3"
      "stores rdb sdb w3 = (released iv ?rv n kv, rows(i \<mapsto> ?r'), msgs @ published_events iv ?rv (''released:'' @ ''order cancelled''))"
    by (rule sv_release [OF w2(2,3) iv st])
  obtain w4 where w4: "GetById (lb_db L) rp i w3 = Returns (map_option parsed ((rows(i \<mapsto> ?r')) i)) w4" "world_ok L rp rdb sdb w4"
      "stores rdb sdb w4 = (released iv ?rv n kv, rows(i \<mapsto> ?r'), msgs @ published_events iv ?rv (''released:'' @ ''order cancelled''))"
    by (rule sv_get [OF w3(2,3) assms(8)])
  have oc: "oc_pool ?oc" by (simp add: OrderCache_new_def)
  let ?kv = "(released iv ?rv n kv)(c_str (buildOrderKey ?oc (or_orderId (parsed ?r'))) \<mapsto> c_str (serializeOrder (parsed ?r')))"
  obtain w5 where w5: "PutOrder (lb_redis L) ?oc (parsed ?r') w4 = Returns True w5"
      "stores rdb sdb w5 = (?kv, rows(i \<mapsto> ?r'), msgs @ published_events iv ?rv (''released:'' @ ''order cancelled''))"
    by (rule sv_put [OF w4(2,3) oc])
  define msg where "msg = (if mq then [([] :: string, ''order.events'', order_event ''order.cancelled'' (hydrate (parsed r)) reason)] else [])"
  define w6 where "w6 = w5\<lparr>aw_published := aw_published w5 @ msg\<rparr>"
  have refresh: "RefreshCache L s i w3 = Returns () w5"
    using w4(1) w5(1) by (simp add: RefreshCache_def assms(4) OrderService_new_def used_cache_def andThen_def ret_def)
  have told: "tell s (publishEvent s ''order.cancelled'' (hydrate (parsed r)) reason) w5 = Returns () w6"
    by (simp add: tell_def publishEvent_def assms(4) OrderService_new_def mq_publish_def ret_def w6_def msg_def)
  have "CancelOrder L s i reason True w = Returns True w6"
    using w1(1) w2(1) w3(1) refresh told assms(5)
    by (simp add: CancelOrder_def assms(4) OrderService_new_def andThen_def ret_def)
  moreover have "stores rdb sdb w6 = (?kv, rows(i \<mapsto> ?r'), msgs @ published_events iv ?rv (''released:'' @ ''order cancelled'') @ msg)"
    using w5(2) by (simp add: stores_def w6_def)
  moreover have key: "c_str (buildOrderKey ?oc (or_orderId (parsed ?r'))) = ''order:'' @ i"
    using default_cache_key [OF sql_text_nul_free [OF assms(8)]] assms(6) by (simp add: parsed_def)
  moreover have "stock_is iv (or_productId r) (n + unat (or_quantity r)) ?kv"
    using assms(12) unfolding key assms(3) stock_is_def released_def rv default_inventory_keys by simp
  moreover have "?kv (makeReservationKey iv (makeReservationId r)) = kv (makeReservationKey iv (makeReservationId r))"
    unfolding key assms(3) released_def rv default_inventory_keys by (simp add: makeReservationId_def)
  ultimately show ?thesis by (intro exI [of _ w6] exI) (auto simp: msg_def)
qed

definition sample_libs :: "(string \<Rightarrow> string option, unit, string \<rightharpoonup> order_record, order_record) libs" where
  "sample_libs = \<lparr>lb_redis = map_redis, lb_db = map_sql\<rparr>"

definition sample_shop :: "(string \<rightharpoonup> order_record) \<Rightarrow> (string \<Rightarrow> string option, unit, string \<rightharpoonup> order_record, order_record) order_world" where
  "sample_shop rows = sample_db_world\<lparr>ow_pool := (ow_pool sample_db_world)\<lparr>mp_driver := rows\<rparr>\<rparr>"

lemma sample_shop_ok:
  "world_ok sample_libs the_repo (\<lambda>d. d) (\<lambda>d. d) (sample_shop rows)"
  "stores (\<lambda>d. d) (\<lambda>d. d) (sample_shop rows) = ([''inventory:stock:p1'' \<mapsto> show_nat 5], rows, [])"
  using sample_pool_good map_redis_serves map_sql_serves
  by (simp_all add: world_ok_def stores_def sample_libs_def sample_shop_def pool_good_def)
    (simp_all add: sample_db_world_def pool_ready_def good_client_def RedisClient_IsConnected_def)

theorem cancel_order_witness:
  "\<exists>w' kv' msgs'. CancelOrder sample_libs (OrderService_new (Some the_repo) (Some (OrderCache_new True)) (Some (InventoryService_new True True True)) True)
       ''ORD-1'' ''changed my mind'' True (sample_shop [''ORD-1'' \<mapsto> sample_row]) = Returns True w' \<and>
     stores (\<lambda>d. d) (\<lambda>d. d) w' = (kv', [''ORD-1'' \<mapsto> sample_row\<lparr>or_status := kCancelled, or_statusReason := ''changed my mind''\<rparr>], msgs') \<and>
     stock_is (InventoryService_new True True True) ''p1'' 7 kv'"
proof -
  let ?iv = "InventoryService_new True True True"
  have row: "or_orderId sample_row = ''ORD-1''" "or_status sample_row \<noteq> kCancelled" "or_productId sample_row = ''p1''" "unat (or_quantity sample_row) = 2"
    by (simp_all add: sample_row_def OrderRecord_new_def)
  have texts: "sql_text 64 ''ORD-1''" "sql_text 255 ''changed my mind''" by (simp_all add: sql_text_def sql_char_def)
  have st: "stock_is ?iv (or_productId sample_row) 5 [''inventory:stock:p1'' \<mapsto> show_nat 5]"
    by (simp add: stock_is_def default_inventory_keys row)
  have some: "([''ORD-1'' \<mapsto> sample_row] :: string \<rightharpoonup> order_record) ''ORD-1'' = Some sample_row" by simp
  have "nul_free (or_productId sample_row)" "5 + unat (or_quantity sample_row) < 2 ^ 64" by (simp_all add: row)
  from cancel_order [where rows = "[''ORD-1'' \<mapsto> sample_row]" and i = "''ORD-1''" and r = sample_row and iv = ?iv and mq = True,
      OF sample_shop_ok(1) sample_shop_ok(2) refl refl some row(1,2) texts this(1) st this(2)]
  show ?thesis unfolding row by auto
qed

end
