(* ===== verification/Order_Handlers.thy ===== *)
theory Order_Handlers
  imports Order_Service Http_Router
begin

text \<open>
  The HTTP handlers of the order server: \<open>src/apps/order_server/interface/http/\<close>. The JSON library
  is an argument: parsing, the three typed \<open>value(key, default)\<close> reads, and \<open>dump\<close>. Objects are
  built with \<open>operator[]\<close> on a sorted map, as the library's default object type is.
\<close>

section \<open>JSON\<close>

datatype json_value =
    JString string
  | JUnsigned nat
  | JInteger int
  | JFloat double
  | JArray "json_value list"
  | JObject "(string \<times> json_value) list"

text \<open>\<open>js_parse\<close> is \<open>None\<close> for a discarded value; the reads throw on a value of another type.\<close>

record 'j json_api =
  js_parse :: "string \<Rightarrow> 'j option"
  js_string :: "'j \<Rightarrow> string \<Rightarrow> string \<Rightarrow> cpp_error + string"
  js_unsigned :: "'j \<Rightarrow> string \<Rightarrow> 32 word \<Rightarrow> cpp_error + 32 word"
  js_double :: "'j \<Rightarrow> string \<Rightarrow> double \<Rightarrow> cpp_error + double"
  js_dump :: "json_value \<Rightarrow> cpp_error + string"

fun json_object :: "(string \<times> json_value) list \<Rightarrow> (string \<times> json_value) list \<Rightarrow> json_value" where
  "json_object [] m = JObject m"
| "json_object ((k, v) # kvs) m = json_object kvs (map_put k v m)"

text \<open>Status, content type and dumped body, set in this order on the response.\<close>

definition respond_json :: "'j json_api \<Rightarrow> http_status \<Rightarrow> json_value \<Rightarrow> http_response \<Rightarrow> cpp_error + http_response" where
  "respond_json J code j resp =
     map_sum id (\<lambda>text. Response_setBody text (setContentType ''application/json'' (setStatusCode code resp))) (js_dump J j)"

definition respondError :: "'j json_api \<Rightarrow> http_status \<Rightarrow> string \<Rightarrow> http_response \<Rightarrow> cpp_error + http_response" where
  "respondError J code message resp = respond_json J code (json_object [(''error'', JString message)] []) resp"

section \<open>\<open>OrderCreateHandler\<close>\<close>

text \<open>The dependencies, each possibly null, the options, and the id generator, possibly empty.\<close>

record 'w create_handler =
  ch_database :: "order_repo option"
  ch_cache :: "order_cache option"
  ch_inventory :: "inventory_service option"
  ch_producer :: bool
  ch_mqExchange :: string
  ch_mqRoutingKey :: string
  ch_enableCache :: bool
  ch_enableMqPublish :: bool
  ch_requireInventoryReservation :: bool
  ch_idGenerator :: "(string, 'w) prog option"

definition OrderCreateHandler_new ::
  "order_repo option \<Rightarrow> order_cache option \<Rightarrow> inventory_service option \<Rightarrow> bool \<Rightarrow> string \<Rightarrow> string \<Rightarrow> bool \<Rightarrow> bool \<Rightarrow> bool \<Rightarrow> 'w create_handler" where
  "OrderCreateHandler_new database cache inventory mq exchange routingKey enableCache enableMqPublish requireReservation =
     \<lparr>ch_database = database, ch_cache = cache, ch_inventory = inventory, ch_producer = mq, ch_mqExchange = exchange,
      ch_mqRoutingKey = routingKey, ch_enableCache = enableCache, ch_enableMqPublish = enableMqPublish,
      ch_requireInventoryReservation = requireReservation, ch_idGenerator = None\<rparr>"

definition setIdGenerator :: "(string, 'w) prog \<Rightarrow> 'w create_handler \<Rightarrow> 'w create_handler" where
  "setIdGenerator generator h = h\<lparr>ch_idGenerator := Some generator\<rparr>"

text \<open>A step of a handler: \<open>None\<close> goes on, \<open>Some resp\<close> is a \<open>return false\<close> after the response is set.\<close>

definition ensureDependencies :: "'j json_api \<Rightarrow> 'w create_handler \<Rightarrow> http_response \<Rightarrow> cpp_error + http_response option" where
  "ensureDependencies J h resp =
     (if ch_database h = None \<or> ch_inventory h = None
      then map_sum id Some (respondError J k500InternalServerError ''Internal dependency missing (database/inventory)'' resp)
      else Inr None)"

definition read_order :: "'j json_api \<Rightarrow> 'j \<Rightarrow> string \<Rightarrow> cpp_error + order_record" where
  "read_order J j body =
     sum_bind (js_string J j ''userId'' []) (\<lambda>userId.
     sum_bind (js_string J j ''productId'' []) (\<lambda>productId.
     sum_bind (js_unsigned J j ''quantity'' 1) (\<lambda>quantity.
     sum_bind (js_double J j ''amount'' 0) (\<lambda>amount.
     sum_bind (js_string J j ''currency'' ''CNY'') (\<lambda>currency.
     Inr (OrderRecord_new\<lparr>or_userId := userId, or_productId := productId, or_quantity := quantity,
            or_totalAmount := amount, or_currency := currency, or_payloadJson := body\<rparr>))))))"

text \<open>Left of the inner sum: the request is answered; right: the record and the raw payload.\<close>

definition Create_parseRequest :: "'j json_api \<Rightarrow> http_request \<Rightarrow> http_response \<Rightarrow> cpp_error + (http_response + order_record \<times> string)" where
  "Create_parseRequest J req resp =
     (let malformed = map_sum id Inl (respondError J k400BadRequest ''Malformed request body'' resp);
          body = rq_content req;
          attempt = (case js_parse J body of
             None \<Rightarrow> map_sum id Inl (respondError J k400BadRequest ''Invalid JSON payload'' resp)
           | Some j \<Rightarrow> map_sum id (\<lambda>r. Inr (r, body)) (read_order J j body))
      in case attempt of
           Inl e \<Rightarrow> if is_exception e then malformed else Inl e
         | Inr x \<Rightarrow> Inr x)"

definition validateRecord :: "'j json_api \<Rightarrow> order_record \<Rightarrow> http_response \<Rightarrow> cpp_error + http_response option" where
  "validateRecord J r resp =
     (if or_userId r = [] \<or> or_productId r = []
      then map_sum id Some (respondError J k400BadRequest ''Missing userId or productId'' resp)
      else if or_quantity r = 0 \<or> or_totalAmount r \<le> 0
      then map_sum id Some (respondError J k400BadRequest ''Invalid quantity or amount'' resp)
      else Inr None)"

definition reserveInventory :: "('r, 'c, 'd, 'row) libs \<Rightarrow> 'j json_api \<Rightarrow> ('r, 'c, 'd, 'row, 'z) order_world_scheme create_handler \<Rightarrow> order_record \<Rightarrow> http_response \<Rightarrow>
    (http_response option, ('r, 'c, 'd, 'row, 'z) order_world_scheme) prog" where
  "reserveInventory L J h r resp =
     (case ch_inventory h of
        None \<Rightarrow> from_sum (map_sum id Some (respondError J k500InternalServerError ''Inventory unavailable'' resp))
      | Some iv \<Rightarrow>
          andThen (ReserveForOrder (lb_redis L) iv r) (\<lambda>res.
            case res of
              Inl errMsg \<Rightarrow> from_sum (map_sum id Some (respondError J k503ServiceUnavailable ''Inventory not enough or temporarily unavailable'' resp))
            | Inr _ \<Rightarrow> ret None))"

text \<open>An id made of one reading of the clock; without a generator, the ticks of the clock as they are.\<close>

definition clock_id :: "(int \<Rightarrow> string) \<Rightarrow> (string, ('r, 'z) app_world_scheme) prog" where
  "clock_id mk = andThen clock_now (\<lambda>t. ret (mk t))"

definition default_order_id :: "(string, ('r, 'z) app_world_scheme) prog" where
  "default_order_id = clock_id (\<lambda>t. ''ORD-'' @ show_int t)"

text \<open>
  \<open>persistOrder\<close>: the record with its id on success. An exception is answered with 500; the three
  fields of the response that an earlier, interrupted answer set are overwritten by this one.
\<close>

definition persistOrder :: "('r, 'c, 'd, 'row) libs \<Rightarrow> 'j json_api \<Rightarrow> ('r, 'c, 'd, 'row, 'z) order_world_scheme create_handler \<Rightarrow> order_record \<Rightarrow> string \<Rightarrow> http_response \<Rightarrow>
    (http_response + order_record, ('r, 'c, 'd, 'row, 'z) order_world_scheme) prog" where
  "persistOrder L J h r rawPayload resp =
     tryCatch
       (andThen (case ch_idGenerator h of Some g \<Rightarrow> g | None \<Rightarrow> default_order_id) (\<lambda>orderId.
        andThen clock_now (\<lambda>t.
        let record = r\<lparr>or_orderId := orderId, or_createdAt := t, or_updatedAt := t, or_status := kPending, or_payloadJson := rawPayload\<rparr>
        in case ch_database h of
             None \<Rightarrow> throw NullDeref
           | Some rp \<Rightarrow>
               andThen (Insert (lb_db L) rp record) (\<lambda>ok.
               if ok then ret (Inr record)
               else andThen (case (if ch_requireInventoryReservation h then ch_inventory h else None) of
                               None \<Rightarrow> ret ()
                             | Some iv \<Rightarrow> andThen (ReleaseReservation (lb_redis L) iv (cancel_reservation record) ''DB insert failed'') (\<lambda>_. ret ())) (\<lambda>_.
                    from_sum (map_sum id Inl (respondError J k500InternalServerError ''Failed to persist order'' resp)))))))
       (from_sum (map_sum id Inl (respondError J k500InternalServerError ''Unexpected server error'' resp)))"

definition updateCache :: "('r, 'c, 'd, 'row) libs \<Rightarrow> ('r, 'c, 'd, 'row, 'z) order_world_scheme create_handler \<Rightarrow> order_record \<Rightarrow> (unit, ('r, 'c, 'd, 'row, 'z) order_world_scheme) prog" where
  "updateCache L h r =
     (case (if ch_enableCache h then ch_cache h else None) of
        None \<Rightarrow> ret ()
      | Some oc \<Rightarrow> tryCatch (andThen (PutOrder (lb_redis L) oc r) (\<lambda>_. ret ())) (ret ()))"

definition publishOrderEvent :: "('r, 'z) app_world_scheme create_handler \<Rightarrow> string \<Rightarrow> (unit, ('r, 'z) app_world_scheme) prog" where
  "publishOrderEvent h rawPayload =
     (if \<not> ch_enableMqPublish h \<or> \<not> ch_producer h then ret ()
      else tryCatch (mq_publish (ch_mqExchange h) (ch_mqRoutingKey h) rawPayload) (ret ()))"

definition created_json :: "order_record \<Rightarrow> json_value" where
  "created_json r =
     json_object [(''orderId'', JString (or_orderId r)), (''status'', JString (ToString (or_status r))),
       (''message'', JString ''order created successfully'')] []"

definition respondSuccess :: "'j json_api \<Rightarrow> order_record \<Rightarrow> http_response \<Rightarrow> cpp_error + http_response" where
  "respondSuccess J r resp = respond_json J k200Ok (created_json r) resp"

text \<open>The early returns of a handler.\<close>

definition unless_answered :: "('a option, 'w) prog \<Rightarrow> ('a, 'w) prog \<Rightarrow> ('a, 'w) prog" where
  "unless_answered m k = andThen m (\<lambda>answer. case answer of Some resp \<Rightarrow> ret resp | None \<Rightarrow> k)"

definition Create_handle :: "('r, 'c, 'd, 'row) libs \<Rightarrow> 'j json_api \<Rightarrow> ('r, 'c, 'd, 'row, 'z) order_world_scheme create_handler \<Rightarrow> http_request \<Rightarrow> http_response \<Rightarrow>
    (http_response, ('r, 'c, 'd, 'row, 'z) order_world_scheme) prog" where
  "Create_handle L J h req resp =
     unless_answered (from_sum (ensureDependencies J h resp))
       (andThen (from_sum (Create_parseRequest J req resp)) (\<lambda>parsed.
          case parsed of
            Inl answer \<Rightarrow> ret answer
          | Inr (r, rawPayload) \<Rightarrow>
              unless_answered (from_sum (validateRecord J r resp))
                (unless_answered (if ch_requireInventoryReservation h then reserveInventory L J h r resp else ret None)
                  (andThen (persistOrder L J h r rawPayload resp) (\<lambda>stored.
                     case stored of
                       Inl answer \<Rightarrow> ret answer
                     | Inr record \<Rightarrow>
                         andThen (updateCache L h record) (\<lambda>_.
                         andThen (publishOrderEvent h rawPayload) (\<lambda>_.
                         from_sum (respondSuccess J record resp))))))))"

section \<open>\<open>OrderQueryHandler\<close>\<close>

record query_handler =
  qh_database :: "order_repo option"
  qh_cache :: "order_cache option"
  qh_preferCache :: bool
  qh_maxPageSize :: nat

definition Query_ensureDependencies :: "'j json_api \<Rightarrow> query_handler \<Rightarrow> http_response \<Rightarrow> cpp_error + http_response option" where
  "Query_ensureDependencies J h resp =
     (if qh_database h = None
      then map_sum id Some (respondError J k500InternalServerError ''Database dependency missing'' resp)
      else Inr None)"

definition extractOrderId :: "http_request \<Rightarrow> string option" where
  "extractOrderId req = (let i = getQueryParameter ''id'' req in if i = [] then None else Some i)"

definition extractUserId :: "http_request \<Rightarrow> string option" where
  "extractUserId req = (let uid = getQueryParameter ''userId'' req in if uid = [] then None else Some uid)"

definition parameter_or :: "nat \<Rightarrow> string \<Rightarrow> nat" where
  "parameter_or fallback l = (if l = [] then fallback else case std_stoul l of Inl e \<Rightarrow> fallback | Inr n \<Rightarrow> n)"

definition extractLimit :: "query_handler \<Rightarrow> http_request \<Rightarrow> nat" where
  "extractLimit h req = min (parameter_or 20 (getQueryParameter ''limit'' req)) (qh_maxPageSize h)"

definition extractOffset :: "http_request \<Rightarrow> nat" where
  "extractOffset req = parameter_or 0 (getQueryParameter ''offset'' req)"

definition record_json :: "order_record \<Rightarrow> json_value" where
  "record_json r =
     json_object [(''orderId'', JString (or_orderId r)), (''userId'', JString (or_userId r)), (''productId'', JString (or_productId r)),
       (''quantity'', JUnsigned (unat (or_quantity r))), (''totalAmount'', JFloat (or_totalAmount r)), (''currency'', JString (or_currency r)),
       (''status'', JString (ToString (or_status r))), (''statusReason'', JString (or_statusReason r)),
       (''createdAt'', JInteger (to_seconds (or_createdAt r))), (''updatedAt'', JInteger (to_seconds (or_updatedAt r)))] []"

definition respondRecord :: "'j json_api \<Rightarrow> order_record \<Rightarrow> http_response \<Rightarrow> cpp_error + http_response" where
  "respondRecord J r resp = respond_json J k200Ok (record_json r) resp"

definition brief_json :: "order_record \<Rightarrow> json_value" where
  "brief_json r =
     json_object [(''orderId'', JString (or_orderId r)), (''productId'', JString (or_productId r)), (''quantity'', JUnsigned (unat (or_quantity r))),
       (''totalAmount'', JFloat (or_totalAmount r)), (''status'', JString (ToString (or_status r)))] []"

definition respondRecords :: "'j json_api \<Rightarrow> order_record list \<Rightarrow> http_response \<Rightarrow> cpp_error + http_response" where
  "respondRecords J records resp =
     respond_json J k200Ok (json_object [(''total'', JUnsigned (length records)), (''orders'', JArray (map brief_json records))] []) resp"

definition respondNotFound :: "'j json_api \<Rightarrow> http_response \<Rightarrow> cpp_error + http_response" where
  "respondNotFound J resp = respondError J k404NotFound ''Record not found'' resp"

definition respondBadRequest :: "'j json_api \<Rightarrow> string \<Rightarrow> http_response \<Rightarrow> cpp_error + http_response" where
  "respondBadRequest J message resp = respondError J k400BadRequest message resp"

definition Query_fetchFromCache :: "('r, 'c, 'd, 'row) libs \<Rightarrow> query_handler \<Rightarrow> string \<Rightarrow> (order_record option, ('r, 'c, 'd, 'row, 'z) order_world_scheme) prog" where
  "Query_fetchFromCache L h orderId =
     tryCatch (case qh_cache h of None \<Rightarrow> ret None | Some oc \<Rightarrow> GetOrder (lb_redis L) oc orderId) (ret None)"

definition Query_fetchFromDatabase :: "('r, 'c, 'd, 'row) libs \<Rightarrow> query_handler \<Rightarrow> string \<Rightarrow> (order_record option, ('r, 'c, 'd, 'row, 'z) order_world_scheme) prog" where
  "Query_fetchFromDatabase L h orderId =
     tryCatch (case qh_database h of None \<Rightarrow> throw NullDeref | Some rp \<Rightarrow> GetById (lb_db L) rp orderId) (ret None)"

definition fetchListFromCache :: "('r, 'c, 'd, 'row) libs \<Rightarrow> query_handler \<Rightarrow> string \<Rightarrow> (order_record list, ('r, 'c, 'd, 'row, 'z) order_world_scheme) prog" where
  "fetchListFromCache L h userId =
     tryCatch
       (case qh_cache h of
          None \<Rightarrow> ret []
        | Some oc \<Rightarrow> andThen (GetUserOrders (lb_redis L) oc userId) (\<lambda>listOpt. ret (case listOpt of Some records \<Rightarrow> records | None \<Rightarrow> [])))
       (ret [])"

definition fetchListFromDatabase :: "('r, 'c, 'd, 'row) libs \<Rightarrow> query_handler \<Rightarrow> string \<Rightarrow> nat \<Rightarrow> nat \<Rightarrow> (order_record list, ('r, 'c, 'd, 'row, 'z) order_world_scheme) prog" where
  "fetchListFromDatabase L h userId limit offset =
     tryCatch (case qh_database h of None \<Rightarrow> throw NullDeref | Some rp \<Rightarrow> ListByUser (lb_db L) rp userId limit offset) (ret [])"

definition warmupOrderCache :: "('r, 'c, 'd, 'row) libs \<Rightarrow> query_handler \<Rightarrow> order_record \<Rightarrow> (unit, ('r, 'c, 'd, 'row, 'z) order_world_scheme) prog" where
  "warmupOrderCache L h r =
     (case qh_cache h of None \<Rightarrow> ret () | Some oc \<Rightarrow> tryCatch (andThen (PutOrder (lb_redis L) oc r) (\<lambda>_. ret ())) (ret ()))"

definition warmupUserCache :: "('r, 'c, 'd, 'row) libs \<Rightarrow> query_handler \<Rightarrow> string \<Rightarrow> order_record list \<Rightarrow> (unit, ('r, 'c, 'd, 'row, 'z) order_world_scheme) prog" where
  "warmupUserCache L h userId records =
     (case qh_cache h of None \<Rightarrow> ret () | Some oc \<Rightarrow> tryCatch (andThen (PutUserOrders (lb_redis L) oc userId records) (\<lambda>_. ret ())) (ret ()))"

definition handleGetById :: "('r, 'c, 'd, 'row) libs \<Rightarrow> 'j json_api \<Rightarrow> query_handler \<Rightarrow> http_request \<Rightarrow> http_response \<Rightarrow>
    (bool \<times> http_response, ('r, 'c, 'd, 'row, 'z) order_world_scheme) prog" where
  "handleGetById L J h req resp =
     (case extractOrderId req of
        None \<Rightarrow> from_sum (map_sum id (Pair False) (respondBadRequest J ''Missing order id'' resp))
      | Some orderId \<Rightarrow>
          andThen (if qh_preferCache h \<and> qh_cache h \<noteq> None then Query_fetchFromCache L h orderId else ret None) (\<lambda>cached.
          case cached of
            Some r \<Rightarrow> from_sum (map_sum id (Pair True) (respondRecord J r resp))
          | None \<Rightarrow>
              andThen (Query_fetchFromDatabase L h orderId) (\<lambda>record.
              case record of
                None \<Rightarrow> from_sum (map_sum id (Pair False) (respondNotFound J resp))
              | Some r \<Rightarrow> andThen (warmupOrderCache L h r) (\<lambda>_. from_sum (map_sum id (Pair True) (respondRecord J r resp))))))"

definition handleListByUser :: "('r, 'c, 'd, 'row) libs \<Rightarrow> 'j json_api \<Rightarrow> query_handler \<Rightarrow> http_request \<Rightarrow> http_response \<Rightarrow>
    (bool \<times> http_response, ('r, 'c, 'd, 'row, 'z) order_world_scheme) prog" where
  "handleListByUser L J h req resp =
     (case extractUserId req of
        None \<Rightarrow> from_sum (map_sum id (Pair False) (respondBadRequest J ''Missing userId'' resp))
      | Some userId \<Rightarrow>
          andThen (if qh_preferCache h \<and> qh_cache h \<noteq> None then fetchListFromCache L h userId else ret []) (\<lambda>cached.
          if cached \<noteq> [] then from_sum (map_sum id (Pair True) (respondRecords J cached resp))
          else andThen (fetchListFromDatabase L h userId (extractLimit h req) (extractOffset req)) (\<lambda>records.
               if records = [] then from_sum (map_sum id (Pair False) (respondNotFound J resp))
               else andThen (warmupUserCache L h userId records) (\<lambda>_. from_sum (map_sum id (Pair True) (respondRecords J records resp))))))"

definition Query_handle :: "('r, 'c, 'd, 'row) libs \<Rightarrow> 'j json_api \<Rightarrow> query_handler \<Rightarrow> http_request \<Rightarrow> http_response \<Rightarrow>
    (http_response, ('r, 'c, 'd, 'row, 'z) order_world_scheme) prog" where
  "Query_handle L J h req resp =
     unless_answered (from_sum (Query_ensureDependencies J h resp))
       (if extractOrderId req \<noteq> None then andThen (handleGetById L J h req resp) (\<lambda>(ok, resp'). ret resp')
        else if extractUserId req \<noteq> None then andThen (handleListByUser L J h req resp) (\<lambda>(ok, resp'). ret resp')
        else from_sum (respondBadRequest J ''Missing query parameter: id or userId'' resp))"

section \<open>Lemmas: the steps of the create handler\<close>

definition answered :: "http_status \<Rightarrow> string \<Rightarrow> http_response \<Rightarrow> http_response" where
  "answered code body resp = Response_setBody body (setContentType ''application/json'' (setStatusCode code resp))"

text \<open>A JSON library that dumps every error object, and whose reads throw exceptions only.\<close>

definition json_sane :: "'j json_api \<Rightarrow> bool" where
  "json_sane J \<longleftrightarrow>
     (\<forall>m. \<exists>s. js_dump J (json_object [(''error'', JString m)] []) = Inr s) \<and>
     (\<forall>j k d e. js_string J j k d = Inl e \<longrightarrow> is_exception e) \<and> (\<forall>j k d e. js_unsigned J j k d = Inl e \<longrightarrow> is_exception e) \<and>
     (\<forall>j k d e. js_double J j k d = Inl e \<longrightarrow> is_exception e)"

definition valid_order :: "order_record \<Rightarrow> bool" where
  "valid_order r \<longleftrightarrow> or_userId r \<noteq> [] \<and> or_productId r \<noteq> [] \<and> or_quantity r \<noteq> 0 \<and> 0 < or_totalAmount r"

text \<open>The record that the body of a request stands for.\<close>

definition order_of :: "'j json_api \<Rightarrow> string \<Rightarrow> order_record option" where
  "order_of J body =
     (case js_parse J body of
        None \<Rightarrow> None
      | Some j \<Rightarrow> (case read_order J j body of Inl e \<Rightarrow> None | Inr r \<Rightarrow> if valid_order r then Some r else None))"

lemma respondError_sane:
  assumes "json_sane J"
  obtains s where "respondError J code message resp = Inr (answered code s resp)"
  using assms unfolding json_sane_def respondError_def respond_json_def answered_def
  by (metis map_sum.simps(2))

lemma sum_bind_Inl: "sum_bind r f = Inl e \<longleftrightarrow> r = Inl e \<or> (\<exists>x. r = Inr x \<and> f x = Inl e)"
  by (cases r) auto

lemma read_order_exception: "json_sane J \<Longrightarrow> read_order J j body = Inl e \<Longrightarrow> is_exception e"
  unfolding json_sane_def read_order_def sum_bind_Inl by blast

lemma order_of_Some:
  assumes "order_of J (rq_content req) = Some r"
  shows "Create_parseRequest J req resp = Inr (Inr (r, rq_content req))" "validateRecord J r resp = Inr None" "valid_order r"
  using assms by (auto simp: order_of_def Create_parseRequest_def validateRecord_def valid_order_def not_le
      split: option.splits sum.splits if_splits)

text \<open>A request that stands for no order is answered by one of the first steps.\<close>

lemma order_of_None:
  assumes "json_sane J" and "order_of J (rq_content req) = None"
  obtains (parse) s where "Create_parseRequest J req resp = Inr (Inl (answered k400BadRequest s resp))"
    | (check) r s where "Create_parseRequest J req resp = Inr (Inr (r, rq_content req))" and "validateRecord J r resp = Inr (Some (answered k400BadRequest s resp))"
proof -
  obtain s1 where s1: "respondError J k400BadRequest ''Invalid JSON payload'' resp = Inr (answered k400BadRequest s1 resp)"
    by (rule respondError_sane [OF assms(1)])
  obtain s2 where s2: "respondError J k400BadRequest ''Malformed request body'' resp = Inr (answered k400BadRequest s2 resp)"
    by (rule respondError_sane [OF assms(1)])
  obtain s3 where s3: "respondError J k400BadRequest ''Missing userId or productId'' resp = Inr (answered k400BadRequest s3 resp)"
    by (rule respondError_sane [OF assms(1)])
  obtain s4 where s4: "respondError J k400BadRequest ''Invalid quantity or amount'' resp = Inr (answered k400BadRequest s4 resp)"
    by (rule respondError_sane [OF assms(1)])
  show thesis
  proof (cases "js_parse J (rq_content req)")
    case None
    then show thesis using s1 by (intro parse [of s1]) (simp add: Create_parseRequest_def)
  next
    case (Some j)
    show thesis
    proof (cases "read_order J j (rq_content req)")
      case (Inl e)
      with Some s2 read_order_exception [OF assms(1) Inl] show thesis
        by (intro parse [of s2]) (simp add: Create_parseRequest_def)
    next
      case (Inr r)
      then have "\<not> valid_order r" using assms(2) Some by (simp add: order_of_def split: if_splits)
      then have "validateRecord J r resp = Inr (Some (answered k400BadRequest (if or_userId r = [] \<or> or_productId r = [] then s3 else s4) resp))"
        using s3 s4 by (auto simp: validateRecord_def valid_order_def not_le)
      moreover have "Create_parseRequest J req resp = Inr (Inr (r, rq_content req))"
        using Some Inr by (simp add: Create_parseRequest_def)
      ultimately show thesis by (intro check)
    qed
  qed
qed

text \<open>The record as \<open>persistOrder\<close> stores it, with clock \<open>c\<close> read at \<open>k\<close> for the id and once more for the times.\<close>

definition filed :: "(int \<Rightarrow> string) \<Rightarrow> order_record \<Rightarrow> string \<Rightarrow> (nat \<Rightarrow> int) \<Rightarrow> nat \<Rightarrow> order_record" where
  "filed mk r body c k =
     r\<lparr>or_orderId := mk (c k), or_createdAt := c (Suc k), or_updatedAt := c (Suc k), or_status := kPending, or_payloadJson := body\<rparr>"

lemma filed_fields [simp]:
  "or_orderId (filed mk r body c k) = mk (c k)" "or_productId (filed mk r body c k) = or_productId r"
  "or_quantity (filed mk r body c k) = or_quantity r" "or_userId (filed mk r body c k) = or_userId r"
  by (simp_all add: filed_def)

lemma sv_tick:
  "world_ok L rp rdb sdb (w\<lparr>aw_tick := k\<rparr>) = world_ok L rp rdb sdb w" "stores rdb sdb (w\<lparr>aw_tick := k\<rparr>) = stores rdb sdb w"
  by (simp_all add: world_ok_def pool_ready_def stores_def)

lemma tryCatch_cong: "m w = m' w' \<Longrightarrow> tryCatch m h w = tryCatch m' h w'"
  by (simp add: tryCatch_def)

lemma persist_insert:
  assumes "ch_idGenerator h = Some (clock_id mk)" and "ch_database h = Some rp"
    and "filed mk r body (aw_clock w) (aw_tick w) = record"
    and "Insert (lb_db L) rp record (w\<lparr>aw_tick := Suc (Suc (aw_tick w))\<rparr>) = Returns ok w'"
  shows "persistOrder L J h r body resp w = tryCatch
      (if ok then ret (Inr record)
       else andThen (case (if ch_requireInventoryReservation h then ch_inventory h else None) of
                       None \<Rightarrow> ret ()
                     | Some iv \<Rightarrow> andThen (ReleaseReservation (lb_redis L) iv (cancel_reservation record) ''DB insert failed'') (\<lambda>_. ret ())) (\<lambda>_.
            from_sum (map_sum id Inl (respondError J k500InternalServerError ''Failed to persist order'' resp))))
      (from_sum (map_sum id Inl (respondError J k500InternalServerError ''Unexpected server error'' resp))) w'"
proof -
  have "r\<lparr>or_orderId := mk (aw_clock w (aw_tick w)), or_createdAt := aw_clock w (Suc (aw_tick w)),
      or_updatedAt := aw_clock w (Suc (aw_tick w)), or_status := kPending, or_payloadJson := body\<rparr> = record"
    using assms(3) by (simp add: filed_def)
  then show ?thesis
    unfolding persistOrder_def assms(1,2) clock_id_def option.case
    by (intro tryCatch_cong) (simp add: clock_now_def andThen_assoc andThen_run assms(4) Let_def cong: option.case_cong if_cong)
qed

lemma sv_cached:
  assumes "world_ok L rp rdb sdb w" and "stores rdb sdb w = (kv, rows, msgs)" and "oc_pool oc"
    and "kv (c_str (buildOrderKey oc i)) = Some p" and "deserializeOrder p = Inr r"
  obtains w' where "GetOrder (lb_redis L) oc i w = Returns (Some r) w'" and "world_ok L rp rdb sdb w'" and "stores rdb sdb w' = (kv, rows, msgs)"
proof -
  have ok: "redis_serves (lb_redis L) rdb" "pool_ready w" using assms(1) by (simp_all add: world_ok_def)
  have "rdb (rw_server w) (c_str (buildOrderKey oc i)) = Some p" using assms(2,4) by (simp add: stores_def)
  then obtain w' where w': "GetOrder (lb_redis L) oc i w = Returns (Some r) w'" "pool_ready w'"
      "rdb (rw_server w') = rdb (rw_server w)" "redis_world.more w' = redis_world.more w"
    by (rule GetOrder_run [OF ok assms(3) _ assms(5)])
  from sv_more [OF assms(1) w'(2,4)] w' assms(2) show thesis by (intro that [of w']) (auto simp: stores_def)
qed

lemma sv_missed:
  assumes "world_ok L rp rdb sdb w" and "stores rdb sdb w = (kv, rows, msgs)" and "oc_pool oc"
    and "kv (c_str (buildOrderKey oc i)) = None"
  obtains w' where "GetOrder (lb_redis L) oc i w = Returns None w'" and "world_ok L rp rdb sdb w'" and "stores rdb sdb w' = (kv, rows, msgs)"
proof -
  have ok: "redis_serves (lb_redis L) rdb" "pool_ready w" using assms(1) by (simp_all add: world_ok_def)
  have "rdb (rw_server w) (c_str (buildOrderKey oc i)) = None" using assms(2,4) by (simp add: stores_def)
  then obtain w' where w': "GetOrder (lb_redis L) oc i w = Returns None w'" "pool_ready w'"
      "rdb (rw_server w') = rdb (rw_server w)" "redis_world.more w' = redis_world.more w"
    by (rule GetOrder_miss [OF ok assms(3)])
  from sv_more [OF assms(1) w'(2,4)] w' assms(2) show thesis by (intro that [of w']) (auto simp: stores_def)
qed

lemma sv_short:
  assumes "world_ok L rp rdb sdb w" and "stores rdb sdb w = (kv, rows, msgs)" and "iv_redis iv" and "iv_orders iv" and "order_keys_ok iv order"
    and "stock_is iv (or_productId order) n kv" and "n < unat (or_quantity order)"
  obtains w' where "ReserveForOrder (lb_redis L) iv order w = Returns (Inl ''Insufficient stock'') w'" and "world_ok L rp rdb sdb w'"
    and "stores rdb sdb w' = (kv, rows, msgs)"
proof -
  have ok: "redis_serves (lb_redis L) rdb" "pool_ready w" using assms(1) by (simp_all add: world_ok_def)
  have st: "stock_is iv (or_productId order) n (rdb (rw_server w))" using assms(2,6) by (simp add: stores_def)
  obtain w' where w': "ReserveForOrder (lb_redis L) iv order w = Returns (Inl ''Insufficient stock'') w'" "pool_ready w'"
      "rdb (rw_server w') = rdb (rw_server w)" "redis_world.more w' = redis_world.more w"
    by (rule ReserveForOrder_short [OF ok assms(3-5) st assms(7)])
  from sv_more [OF assms(1) w'(2,4)] w' assms(2) show thesis by (intro that [of w']) (auto simp: stores_def)
qed

text \<open>The create handler with all its dependencies, ids from the clock, and events to \<open>key\<close>.\<close>

definition full_handler :: "(int \<Rightarrow> string) \<Rightarrow> order_repo \<Rightarrow> order_cache \<Rightarrow> bool \<Rightarrow> string \<Rightarrow> ('r, 'c, 'd, 'row, 'z) order_world_scheme create_handler" where
  "full_handler mk rp oc mq key =
     setIdGenerator (clock_id mk)
       (OrderCreateHandler_new (Some rp) (Some oc) (Some (InventoryService_new True mq True)) mq [] key True mq True)"

lemma full_handler_fields [simp]:
  "ch_database (full_handler mk rp oc mq key) = Some rp" "ch_cache (full_handler mk rp oc mq key) = Some oc"
  "ch_inventory (full_handler mk rp oc mq key) = Some (InventoryService_new True mq True)" "ch_producer (full_handler mk rp oc mq key) = mq"
  "ch_mqExchange (full_handler mk rp oc mq key) = []" "ch_mqRoutingKey (full_handler mk rp oc mq key) = key"
  "ch_enableCache (full_handler mk rp oc mq key) = True" "ch_enableMqPublish (full_handler mk rp oc mq key) = mq"
  "ch_requireInventoryReservation (full_handler mk rp oc mq key) = True" "ch_idGenerator (full_handler mk rp oc mq key) = Some (clock_id mk)"
  by (simp_all add: full_handler_def setIdGenerator_def OrderCreateHandler_new_def)

lemma inventory_on [simp]: "iv_redis (InventoryService_new True mq True)" "iv_orders (InventoryService_new True mq True)"
  by (simp_all add: InventoryService_new_def)

lemma parsed_keys_ok: "or_orderId r = [] \<Longrightarrow> nul_free (or_productId r) \<Longrightarrow> order_keys_ok (InventoryService_new a b c) r"
  by (simp add: order_keys_ok_def InventoryService_new_def)

lemma order_of_no_id: "order_of J body = Some r \<Longrightarrow> or_orderId r = []"
  by (auto simp: order_of_def read_order_def sum_bind_def OrderRecord_new_def split: option.splits sum.splits if_splits)

lemma from_sum_ret: "from_sum (Inr x) = ret x"
  by (rule ext) (simp add: prog_simps)

lemma create_reserved:
  assumes "order_of J (rq_content req) = Some r"
    and "ReserveForOrder (lb_redis L) (InventoryService_new True mq True) r w = Returns (Inr rv) w1"
  shows "Create_handle L J (full_handler mk rp oc mq key) req resp w =
     andThen (persistOrder L J (full_handler mk rp oc mq key) r (rq_content req) resp) (\<lambda>stored.
       case stored of
         Inl answer \<Rightarrow> ret answer
       | Inr record \<Rightarrow>
           andThen (updateCache L (full_handler mk rp oc mq key) record) (\<lambda>_.
           andThen (publishOrderEvent (full_handler mk rp oc mq key) (rq_content req)) (\<lambda>_.
           from_sum (respondSuccess J record resp)))) w1"
  using order_of_Some(1,2) [OF assms(1), where resp = resp] assms(2)
  by (simp add: Create_handle_def unless_answered_def ensureDependencies_def reserveInventory_def from_sum_ret andThen_assoc andThen_run)

lemma order_keys_apart:
  assumes "oc_keyPrefix oc = ''order:'' @ pre" and "nul_free pre" and "nul_free i"
  shows "c_str (buildOrderKey oc i) = buildOrderKey oc i" "buildOrderKey oc i \<noteq> makeStockKey (InventoryService_new a b c) p"
    "buildOrderKey oc i \<noteq> makeReservationKey (InventoryService_new a b c) q"
  using assms by (simp_all add: buildOrderKey_def default_inventory_keys nul_free_def)

lemma stock_is_upd: "makeStockKey iv p \<noteq> k \<Longrightarrow> stock_is iv p n (kv(k \<mapsto> v)) = stock_is iv p n kv"
  by (simp add: stock_is_def)

lemma reserved_facts:
  assumes "stock_is (InventoryService_new a b c) (or_productId r) n kv" and "or_orderId r = []"
  shows "stock_is (InventoryService_new a b c) (or_productId r) (n - unat (or_quantity r)) (reserved (InventoryService_new a b c) r n kv)"
    "reserved (InventoryService_new a b c) r n kv (makeReservationKey (InventoryService_new a b c) (CHR '':'' # or_productId r)) = Some (reservation_text r)"
  using assms by (simp_all add: stock_is_def reserved_def makeReservationId_def default_inventory_keys less_imp_diff_less)

text \<open>The cache keeps whole seconds, which is all that the answer of the query handler shows.\<close>

definition whole_seconds :: "order_record \<Rightarrow> order_record" where
  "whole_seconds r = r\<lparr>or_createdAt := from_seconds (to_seconds (or_createdAt r)), or_updatedAt := from_seconds (to_seconds (or_updatedAt r))\<rparr>"

lemma whole_seconds_same: "serializeOrder (whole_seconds r) = serializeOrder r" "record_json (whole_seconds r) = record_json r"
  by (simp_all add: whole_seconds_def serializeOrder_def record_json_def)

definition full_query :: "order_repo \<Rightarrow> order_cache \<Rightarrow> query_handler" where
  "full_query rp oc = \<lparr>qh_database = Some rp, qh_cache = Some oc, qh_preferCache = True, qh_maxPageSize = 100\<rparr>"

lemma query_hit:
  assumes "world_ok L rp rdb sdb w" and "stores rdb sdb w = (kv, rows, msgs)" and "oc_pool oc" and "extractOrderId req = Some i"
    and "kv (c_str (buildOrderKey oc i)) = Some (serializeOrder r)" and "storable (whole_seconds r)" and "js_dump J (record_json r) = Inr body"
  obtains w' where "Query_handle L J (full_query rp oc) req resp w = Returns (answered k200Ok body resp) w'"
    and "world_ok L rp rdb sdb w'" and "stores rdb sdb w' = (kv, rows, msgs)"
proof -
  have "deserializeOrder (serializeOrder r) = Inr (whole_seconds r)"
    using deserialize_serialize [OF assms(6)] by (simp add: whole_seconds_same)
  then obtain w' where w': "GetOrder (lb_redis L) oc i w = Returns (Some (whole_seconds r)) w'" "world_ok L rp rdb sdb w'" "stores rdb sdb w' = (kv, rows, msgs)"
    by (rule sv_cached [OF assms(1-3,5)])
  have "Query_handle L J (full_query rp oc) req resp w = Returns (answered k200Ok body resp) w'"
    using w'(1) assms(4,7)
    by (simp add: Query_handle_def full_query_def unless_answered_def Query_ensureDependencies_def handleGetById_def Query_fetchFromCache_def
        from_sum_ret andThen_assoc)
      (simp add: andThen_def tryCatch_def ret_def respondRecord_def respond_json_def answered_def whole_seconds_same from_sum_def)
  from that [OF this w'(2,3)] show thesis .
qed

lemma query_miss:
  assumes "world_ok L rp rdb sdb w" and "stores rdb sdb w = (kv, rows, msgs)" and "oc_pool oc" and "extractOrderId req = Some i"
    and "kv (c_str (buildOrderKey oc i)) = None" and "sql_text 64 i"
  obtains w' where "world_ok L rp rdb sdb w'" and "stores rdb sdb w' = (kv, rows, msgs)"
    and "Query_handle L J (full_query rp oc) req resp w =
      (case rows i of
         None \<Rightarrow> from_sum (respondNotFound J resp) w'
       | Some r \<Rightarrow> andThen (warmupOrderCache L (full_query rp oc) (parsed r)) (\<lambda>_. from_sum (respondRecord J (parsed r) resp)) w')"
proof -
  obtain w1 where w1: "GetOrder (lb_redis L) oc i w = Returns None w1" "world_ok L rp rdb sdb w1" "stores rdb sdb w1 = (kv, rows, msgs)"
    by (rule sv_missed [OF assms(1-3,5)])
  obtain w2 where w2: "GetById (lb_db L) rp i w1 = Returns (map_option parsed (rows i)) w2" "world_ok L rp rdb sdb w2" "stores rdb sdb w2 = (kv, rows, msgs)"
    by (rule sv_get [OF w1(2,3) assms(6)])
  have pair: "andThen (from_sum (map_sum id (Pair b) x)) (\<lambda>(ok, resp'). ret resp') = from_sum x" for b :: bool and x :: "cpp_error + http_response"
    by (rule ext, cases x) (simp_all add: from_sum_def andThen_def throw_def ret_def)
  have cached: "Query_fetchFromCache L (full_query rp oc) i w = Returns None w1" using w1(1) by (simp add: Query_fetchFromCache_def full_query_def tryCatch_def)
  have found: "Query_fetchFromDatabase L (full_query rp oc) i w1 = Returns (map_option parsed (rows i)) w2" using w2(1) by (simp add: Query_fetchFromDatabase_def full_query_def tryCatch_def)
  have "Query_handle L J (full_query rp oc) req resp w = andThen (handleGetById L J (full_query rp oc) req resp) (\<lambda>(ok, resp'). ret resp') w"
    using assms(4) by (simp add: Query_handle_def full_query_def unless_answered_def Query_ensureDependencies_def from_sum_ret)
  also have "... = (case rows i of
         None \<Rightarrow> from_sum (respondNotFound J resp) w2
       | Some r \<Rightarrow> andThen (warmupOrderCache L (full_query rp oc) (parsed r)) (\<lambda>_. from_sum (respondRecord J (parsed r) resp)) w2)"
    using cached found assms(4)
    by (cases "rows i") (simp_all add: handleGetById_def andThen_assoc pair andThen_run, simp_all add: full_query_def andThen_run andThen_assoc pair)
  finally show thesis using w2 that by blast
qed

text \<open>Up to the insert, a good request with enough stock takes the same way.\<close>

lemma reserve_insert:
  assumes "world_ok L rp rdb sdb w" and "stores rdb sdb w = (kv, rows, msgs)"
    and "order_of J body = Some r" and "filed mk r body (aw_clock w) (Suc (aw_tick w)) = record" and "insertable record"
    and "iv = InventoryService_new True mq True" and "stock_is iv (or_productId r) n kv" and "unat (or_quantity r) \<le> n"
  obtains w1 w2 rv where "ReserveForOrder (lb_redis L) iv r w = Returns (Inr rv) w1" and "filed mk r body (aw_clock w1) (aw_tick w1) = record"
    and "Insert (lb_db L) rp record (w1\<lparr>aw_tick := Suc (Suc (aw_tick w1))\<rparr>) = Returns (rows (or_orderId record) = None) w2"
    and "world_ok L rp rdb sdb w2"
    and "stores rdb sdb w2 = (reserved iv r n kv, if rows (or_orderId record) = None then rows(or_orderId record \<mapsto> stored record) else rows,
           msgs @ published_events iv rv ''created'')"
proof -
  have "nul_free (or_productId r)"
    using assms(5) unfolding insertable_def by (auto simp: assms(4) [symmetric] intro: sql_text_nul_free)
  then have keys: "iv_redis iv" "iv_orders iv" "order_keys_ok iv r"
    using parsed_keys_ok [OF order_of_no_id [OF assms(3)]] assms(6) by simp_all
  obtain w1 rv where w1: "ReserveForOrder (lb_redis L) iv r w = Returns (Inr rv) w1" "world_ok L rp rdb sdb w1"
      "aw_clock w1 = aw_clock w" "aw_tick w1 = Suc (aw_tick w)"
      "stores rdb sdb w1 = (reserved iv r n kv, rows, msgs @ published_events iv rv ''created'')"
    by (rule sv_reserve [OF assms(1,2) keys assms(7,8)])
  let ?w1 = "w1\<lparr>aw_tick := Suc (Suc (aw_tick w1))\<rparr>" and ?ms = "msgs @ published_events iv rv ''created''"
  have t: "world_ok L rp rdb sdb ?w1" "stores rdb sdb ?w1 = (reserved iv r n kv, rows, ?ms)" using w1(2,5) by (simp_all only: sv_tick)
  obtain w2 where w2: "Insert (lb_db L) rp record ?w1 = Returns (rows (or_orderId record) = None) w2" "world_ok L rp rdb sdb w2"
      "stores rdb sdb w2 = (reserved iv r n kv, if rows (or_orderId record) = None then rows(or_orderId record \<mapsto> stored record) else rows, ?ms)"
    by (rule sv_insert [OF t assms(5)])
  have "filed mk r body (aw_clock w1) (aw_tick w1) = record" using assms(4) w1(3,4) by simp
  from that [OF w1(1) this w2] show thesis .
qed

lemma create_order_run:
  assumes "world_ok L rp rdb sdb w" and "stores rdb sdb w = (kv, rows, msgs)" and "oc_pool oc" and "oc_keyPrefix oc = ''order:'' @ pre" and "nul_free pre"
    and "order_of J (rq_content req) = Some r" and "filed mk r (rq_content req) (aw_clock w) (Suc (aw_tick w)) = record"
    and "insertable record" and "rows (or_orderId record) = None"
    and "iv = InventoryService_new True mq True" and "stock_is iv (or_productId r) n kv" and "unat (or_quantity r) \<le> n"
    and "js_dump J (created_json record) = Inr body"
  shows "\<exists>w' kv' msgs'. Create_handle L J (full_handler mk rp oc mq key) req resp w = Returns (answered k200Ok body resp) w' \<and>
     world_ok L rp rdb sdb w' \<and> stores rdb sdb w' = (kv', rows(or_orderId record \<mapsto> stored record), msgs') \<and>
     stock_is iv (or_productId r) (n - unat (or_quantity r)) kv' \<and>
     kv' (buildOrderKey oc (or_orderId record)) = Some (c_str (serializeOrder record)) \<and>
     kv' (makeReservationKey iv (CHR '':'' # or_productId r)) = Some (reservation_text r) \<and>
     (mq \<longrightarrow> last msgs' = ([], key, rq_content req))"
proof -
  let ?h = "full_handler mk rp oc mq key" and ?body = "rq_content req"
  have nul: "nul_free (or_productId r)" "nul_free (or_orderId record)"
    using assms(8) unfolding insertable_def by (auto simp: assms(7) [symmetric] intro: sql_text_nul_free)
  obtain w1 w2 rv where w1: "ReserveForOrder (lb_redis L) iv r w = Returns (Inr rv) w1" "filed mk r ?body (aw_clock w1) (aw_tick w1) = record"
      and w2: "Insert (lb_db L) rp record (w1\<lparr>aw_tick := Suc (Suc (aw_tick w1))\<rparr>) = Returns (rows (or_orderId record) = None) w2" "world_ok L rp rdb sdb w2"
        "stores rdb sdb w2 = (reserved iv r n kv, if rows (or_orderId record) = None then rows(or_orderId record \<mapsto> stored record) else rows,
           msgs @ published_events iv rv ''created'')"
    by (rule reserve_insert [OF assms(1,2,6-8,10-12)])
  let ?ms = "msgs @ published_events iv rv ''created''"
  have persist: "persistOrder L J ?h r ?body resp w1 = Returns (Inr record) w2"
    using persist_insert [OF _ _ w1(2) w2(1), of ?h J resp] assms(9) by (simp add: prog_simps)
  have s2: "stores rdb sdb w2 = (reserved iv r n kv, rows(or_orderId record \<mapsto> stored record), ?ms)" using w2(3) assms(9) by simp
  obtain w3 where w3: "PutOrder (lb_redis L) oc record w2 = Returns True w3" "world_ok L rp rdb sdb w3"
      "stores rdb sdb w3 = ((reserved iv r n kv)(c_str (buildOrderKey oc (or_orderId record)) \<mapsto> c_str (serializeOrder record)),
         rows(or_orderId record \<mapsto> stored record), ?ms)"
    by (rule sv_put [OF w2(2) s2 assms(3)])
  have cache: "updateCache L ?h record w2 = Returns () w3" using w3(1) by (simp add: updateCache_def prog_simps)
  define w4 where "w4 = (if mq then w3\<lparr>aw_published := aw_published w3 @ [([], key, ?body)]\<rparr> else w3)"
  have publish: "publishOrderEvent ?h ?body w3 = Returns () w4"
    by (simp add: publishOrderEvent_def w4_def mq_publish_def tryCatch_def ret_def)
  have "Create_handle L J ?h req resp w = Returns (answered k200Ok body resp) w4"
    using create_reserved [OF assms(6) w1(1) [unfolded assms(10)], of mk rp oc key resp] persist cache publish assms(13)
    by (simp add: andThen_run respondSuccess_def respond_json_def answered_def from_sum_ret ret_def)
  moreover have "world_ok L rp rdb sdb w4" using w3(2) by (simp add: w4_def world_ok_def pool_ready_def)
  moreover
  let ?kv4 = "(reserved iv r n kv)(buildOrderKey oc (or_orderId record) \<mapsto> c_str (serializeOrder record))"
  let ?ms4 = "if mq then ?ms @ [([], key, ?body)] else ?ms"
  have "stores rdb sdb w4 = (?kv4, rows(or_orderId record \<mapsto> stored record), ?ms4)"
    using w3(3) order_keys_apart(1) [OF assms(4,5) nul(2)] by (simp add: w4_def stores_def)
  ultimately show ?thesis
    using reserved_facts [OF assms(11) [unfolded assms(10)] order_of_no_id [OF assms(6)]] order_keys_apart(2,3) [OF assms(4,5) nul(2)]
    unfolding assms(10) by (intro exI [of _ w4] exI [of _ ?kv4] exI [of _ ?ms4]) (simp add: stock_is_upd not_sym assms(10))
qed

section \<open>Properties\<close>


text \<open>
  C34. A refused insert is undone. When the id that the handler makes is taken already, as it is
  for two orders in one tick of the id's clock, the handler answers 500, no row changes, the cache
  keeps what it had under the id, and the stock is what it was. The record of the reservation is
  not removed: it was stored under the product, and is released under an empty id.
\<close>

theorem create_conflict:
  assumes "world_ok L rp rdb sdb w" and "stores rdb sdb w = (kv, rows, msgs)" and "oc_keyPrefix oc = ''order:'' @ pre" and "nul_free pre"
    and "json_sane J" and "order_of J (rq_content req) = Some r" and "filed mk r (rq_content req) (aw_clock w) (Suc (aw_tick w)) = record"
    and "insertable record" and "rows (or_orderId record) \<noteq> None"
    and "iv = InventoryService_new True mq True" and "stock_is iv (or_productId r) n kv" and "unat (or_quantity r) \<le> n"
  shows "\<exists>w' kv' msgs' s. Create_handle L J (full_handler mk rp oc mq key) req resp w = Returns (answered k500InternalServerError s resp) w' \<and>
     stores rdb sdb w' = (kv', rows, msgs') \<and> stock_is iv (or_productId r) n kv' \<and>
     kv' (buildOrderKey oc (or_orderId record)) = kv (buildOrderKey oc (or_orderId record)) \<and>
     kv' (makeReservationKey iv (CHR '':'' # or_productId r)) = Some (reservation_text r)"
proof -
  let ?h = "full_handler mk rp oc mq key" and ?body = "rq_content req" and ?rv = "cancel_reservation record" and ?q = "unat (or_quantity r)"
  have rv: "rv_productId ?rv = or_productId r" "rv_quantity ?rv = or_quantity r" "rv_reservationId ?rv = []"
    by (simp_all add: cancel_reservation_def assms(7) [symmetric])
  have nul: "nul_free (or_productId r)" "nul_free (or_orderId record)"
    using assms(8) unfolding insertable_def by (auto simp: assms(7) [symmetric] intro: sql_text_nul_free)
  obtain w1 w2 rv where w1: "ReserveForOrder (lb_redis L) iv r w = Returns (Inr rv) w1" "filed mk r ?body (aw_clock w1) (aw_tick w1) = record"
      and w2: "Insert (lb_db L) rp record (w1\<lparr>aw_tick := Suc (Suc (aw_tick w1))\<rparr>) = Returns (rows (or_orderId record) = None) w2" "world_ok L rp rdb sdb w2"
        "stores rdb sdb w2 = (reserved iv r n kv, if rows (or_orderId record) = None then rows(or_orderId record \<mapsto> stored record) else rows,
           msgs @ published_events iv rv ''created'')"
    by (rule reserve_insert [OF assms(1,2,6-8,10-12)])
  let ?ms = "msgs @ published_events iv rv ''created''"
  have s2: "stores rdb sdb w2 = (reserved iv r n kv, rows, ?ms)" using w2(3) assms(9) by simp
  have facts: "stock_is iv (or_productId r) (n - ?q) (reserved iv r n kv)"
      "reserved iv r n kv (makeReservationKey iv (CHR '':'' # or_productId r)) = Some (reservation_text r)"
    using reserved_facts [OF assms(11) [unfolded assms(10)] order_of_no_id [OF assms(6)]] assms(10) by simp_all
  have n: "n - ?q + unat (rv_quantity ?rv) = n" "n < 2 ^ 64" using assms(11,12) unfolding rv by (simp_all add: stock_is_def)
  have rk: "nul_free (makeStockKey iv (rv_productId ?rv))" "nul_free (makeReservationKey iv (rv_reservationId ?rv))"
      "stock_is iv (rv_productId ?rv) (n - ?q) (reserved iv r n kv)" "n - ?q + unat (rv_quantity ?rv) < 2 ^ 64"
    using nul(1) facts(1) n unfolding n(1) rv assms(10) by (simp_all add: default_inventory_keys)
  obtain w3 where w3: "ReleaseReservation (lb_redis L) iv ?rv ''DB insert failed'' w2 = Returns (Inr ()) w3"
      "stores rdb sdb w3 = (released iv ?rv (n - ?q) (reserved iv r n kv), rows, ?ms @ published_events iv ?rv (''released:'' @ ''DB insert failed''))"
    by (rule sv_release [OF w2(2) s2 _ rk]) (simp add: assms(10))
  obtain s where s: "respondError J k500InternalServerError ''Failed to persist order'' resp = Inr (answered k500InternalServerError s resp)"
    by (rule respondError_sane [OF assms(5)])
  have "persistOrder L J ?h r ?body resp w1 = Returns (Inl (answered k500InternalServerError s resp)) w3"
    using persist_insert [OF _ _ w1(2) w2(1), of ?h J resp] assms(9) w3(1) s
    by (simp add: assms(10) tryCatch_def andThen_def ret_def from_sum_def)
  then have "Create_handle L J ?h req resp w = Returns (answered k500InternalServerError s resp) w3"
    using create_reserved [OF assms(6) w1(1) [unfolded assms(10)], of mk rp oc key resp] by (simp add: andThen_run ret_def)
  moreover let ?kv3 = "released iv ?rv (n - ?q) (reserved iv r n kv)"
  have "stock_is iv (or_productId r) n ?kv3"
    using n assms(11) unfolding released_def rv assms(10) default_inventory_keys stock_is_def by simp
  moreover have "?kv3 (buildOrderKey oc (or_orderId record)) = kv (buildOrderKey oc (or_orderId record))"
    using order_keys_apart(2,3) [OF assms(3,4) nul(2)] by (simp add: released_def reserved_def assms(10))
  moreover have "?kv3 (makeReservationKey iv (CHR '':'' # or_productId r)) = Some (reservation_text r)"
    using facts(2) unfolding released_def rv assms(10) default_inventory_keys by simp
  ultimately show ?thesis using w3(2) by blast
qed

text \<open>
  C35. Requests that create nothing. A body that is not JSON, has a field of another type, lacks
  the user or the product, or asks for no quantity or no positive amount is answered 400 and leaves
  the world as it was. A good request for more than the stock is answered 503 and leaves Redis, the
  table and the messages as they were.
\<close>

theorem create_rejects:
  assumes "world_ok L rp rdb sdb w" and "stores rdb sdb w = (kv, rows, msgs)" and "json_sane J" and "iv = InventoryService_new True mq True"
  shows "(order_of J (rq_content req) = None \<longrightarrow>
      (\<exists>s. Create_handle L J (full_handler mk rp oc mq key) req resp w = Returns (answered k400BadRequest s resp) w)) \<and>
    (\<forall>r n. order_of J (rq_content req) = Some r \<and> nul_free (or_productId r) \<and> stock_is iv (or_productId r) n kv \<and> n < unat (or_quantity r) \<longrightarrow>
      (\<exists>s w'. Create_handle L J (full_handler mk rp oc mq key) req resp w = Returns (answered k503ServiceUnavailable s resp) w' \<and>
         stores rdb sdb w' = (kv, rows, msgs)))"
proof (intro conjI impI allI)
  assume none: "order_of J (rq_content req) = None"
  show "\<exists>s. Create_handle L J (full_handler mk rp oc mq key) req resp w = Returns (answered k400BadRequest s resp) w"
  proof (rule order_of_None [OF assms(3) none, where resp = resp], goal_cases)
    case (1 s)
    then show ?case by (auto simp: Create_handle_def unless_answered_def ensureDependencies_def from_sum_ret ret_def)
  next
    case (2 r s)
    then show ?case by (auto simp: Create_handle_def unless_answered_def ensureDependencies_def from_sum_ret ret_def)
  qed
next
  fix r n
  assume a: "order_of J (rq_content req) = Some r \<and> nul_free (or_productId r) \<and> stock_is iv (or_productId r) n kv \<and> n < unat (or_quantity r)"
  then have o: "order_of J (rq_content req) = Some r" "stock_is iv (or_productId r) n kv" "n < unat (or_quantity r)" by simp_all
  have keys: "iv_redis iv" "iv_orders iv" "order_keys_ok iv r" using parsed_keys_ok [OF order_of_no_id [OF o(1)]] a assms(4) by simp_all
  obtain w' where w': "ReserveForOrder (lb_redis L) iv r w = Returns (Inl ''Insufficient stock'') w'" "stores rdb sdb w' = (kv, rows, msgs)"
    by (rule sv_short [OF assms(1,2) keys o(2,3)])
  obtain s where s: "respondError J k503ServiceUnavailable ''Inventory not enough or temporarily unavailable'' resp = Inr (answered k503ServiceUnavailable s resp)"
    by (rule respondError_sane [OF assms(3)])
  have "Create_handle L J (full_handler mk rp oc mq key) req resp w = Returns (answered k503ServiceUnavailable s resp) w'"
    using order_of_Some(1,2) [OF o(1), where resp = resp] w'(1) s assms(4)
    by (simp add: Create_handle_def unless_answered_def ensureDependencies_def reserveInventory_def from_sum_ret andThen_assoc andThen_run)
      (simp add: ret_def)
  with w'(2) show "\<exists>s w'. Create_handle L J (full_handler mk rp oc mq key) req resp w = Returns (answered k503ServiceUnavailable s resp) w' \<and>
      stores rdb sdb w' = (kv, rows, msgs)" by blast
qed

text \<open>
  C19. Querying an order by id. With both servers answering: an order in the cache is answered 200
  with its fields and nothing changes; an order that is only in the table is answered 200 with the
  fields of its row and is in the cache afterwards; an id that neither has is answered 404 and
  nothing changes.
\<close>

theorem query_by_id:
  assumes "world_ok L rp rdb sdb w" and "stores rdb sdb w = (kv, rows, msgs)" and "oc_pool oc" and "json_sane J"
    and "extractOrderId req = Some i" and "sql_text 64 i" and "k = c_str (buildOrderKey oc i)"
    and "\<forall>r. kv k = Some (serializeOrder r) \<or> map_option parsed (rows i) = Some r \<longrightarrow> js_dump J (record_json r) = Inr (page r)"
    and "\<forall>r. rows i = Some r \<longrightarrow> or_orderId r = i"
  shows "(\<forall>r. kv k = Some (serializeOrder r) \<and> storable (whole_seconds r) \<longrightarrow>
      (\<exists>w'. Query_handle L J (full_query rp oc) req resp w = Returns (answered k200Ok (page r) resp) w' \<and> stores rdb sdb w' = (kv, rows, msgs))) \<and>
    (kv k = None \<longrightarrow>
      (\<exists>w'. case rows i of
         Some r \<Rightarrow> Query_handle L J (full_query rp oc) req resp w = Returns (answered k200Ok (page (parsed r)) resp) w' \<and>
            stores rdb sdb w' = (kv(k \<mapsto> c_str (serializeOrder (parsed r))), rows, msgs)
       | None \<Rightarrow> (\<exists>s. Query_handle L J (full_query rp oc) req resp w = Returns (answered k404NotFound s resp) w') \<and>
            stores rdb sdb w' = (kv, rows, msgs)))"
proof (intro conjI allI impI)
  fix r
  assume a: "kv k = Some (serializeOrder r) \<and> storable (whole_seconds r)"
  then have h: "kv (c_str (buildOrderKey oc i)) = Some (serializeOrder r)" "storable (whole_seconds r)" "js_dump J (record_json r) = Inr (page r)"
    using assms(7,8) by simp_all
  show "\<exists>w'. Query_handle L J (full_query rp oc) req resp w = Returns (answered k200Ok (page r) resp) w' \<and> stores rdb sdb w' = (kv, rows, msgs)"
    by (rule query_hit [OF assms(1-3,5) h]) blast
next
  assume "kv k = None"
  then have none: "kv (c_str (buildOrderKey oc i)) = None" using assms(7) by simp
  obtain w1 where w1: "world_ok L rp rdb sdb w1" "stores rdb sdb w1 = (kv, rows, msgs)"
      "Query_handle L J (full_query rp oc) req resp w =
        (case rows i of
           None \<Rightarrow> from_sum (respondNotFound J resp) w1
         | Some r \<Rightarrow> andThen (warmupOrderCache L (full_query rp oc) (parsed r)) (\<lambda>_. from_sum (respondRecord J (parsed r) resp)) w1)"
    by (rule query_miss [OF assms(1-3,5) none assms(6)])
  show "\<exists>w'. case rows i of
         Some r \<Rightarrow> Query_handle L J (full_query rp oc) req resp w = Returns (answered k200Ok (page (parsed r)) resp) w' \<and>
            stores rdb sdb w' = (kv(k \<mapsto> c_str (serializeOrder (parsed r))), rows, msgs)
       | None \<Rightarrow> (\<exists>s. Query_handle L J (full_query rp oc) req resp w = Returns (answered k404NotFound s resp) w') \<and>
            stores rdb sdb w' = (kv, rows, msgs)"
  proof (cases "rows i")
    case None
    obtain s where "respondError J k404NotFound ''Record not found'' resp = Inr (answered k404NotFound s resp)"
      by (rule respondError_sane [OF assms(4)])
    then show ?thesis using None w1 by (auto simp: respondNotFound_def from_sum_ret ret_def)
  next
    case (Some r)
    obtain w2 where w2: "PutOrder (lb_redis L) oc (parsed r) w1 = Returns True w2"
        "stores rdb sdb w2 = (kv(c_str (buildOrderKey oc (or_orderId (parsed r))) \<mapsto> c_str (serializeOrder (parsed r))), rows, msgs)"
      by (rule sv_put [OF w1(1,2) assms(3)])
    have "or_orderId (parsed r) = i" using Some assms(9) by (simp add: parsed_def)
    moreover have "js_dump J (record_json (parsed r)) = Inr (page (parsed r))" using Some assms(8) by simp
    moreover have "warmupOrderCache L (full_query rp oc) (parsed r) w1 = Returns () w2"
      using w2(1) by (simp add: warmupOrderCache_def full_query_def tryCatch_def andThen_def ret_def)
    ultimately show ?thesis
      using Some w1(3) w2(2) assms(7) by (auto simp: andThen_run respondRecord_def respond_json_def from_sum_ret ret_def answered_def)
  qed
qed

section \<open>Witnesses\<close>

text \<open>A JSON library that knows one body, reads fields by their type and dumps without escapes.\<close>

definition sample_body :: string where
  \<open>sample_body = ''{"userId":"u1","productId":"p1","quantity":2,"amount":250}''\<close>

fun joined :: "string list \<Rightarrow> string" where
  "joined [] = []"
| "joined [x] = x"
| "joined (x # y # ys) = x @ CHR '','' # joined (y # ys)"

fun dump_json :: "json_value \<Rightarrow> string" where
  "dump_json (JString s) = CHR 0x22 # s @ [CHR 0x22]"
| "dump_json (JUnsigned n) = show_nat n"
| "dump_json (JInteger i) = show_int i"
| "dump_json (JFloat d) = show_general6 d"
| "dump_json (JArray vs) = CHR ''['' # joined (map dump_json vs) @ '']''"
| "dump_json (JObject m) = CHR ''{'' # joined (map (\<lambda>(k, v). CHR 0x22 # k @ CHR 0x22 # CHR '':'' # dump_json v) m) @ ''}''"

definition sample_json :: "(string \<times> json_value) list json_api" where
  "sample_json =
     \<lparr>js_parse = (\<lambda>body. if body = sample_body
        then Some [(''userId'', JString ''u1''), (''productId'', JString ''p1''), (''quantity'', JUnsigned 2), (''amount'', JUnsigned 250)] else None),
      js_string = (\<lambda>j k d. case map_of j k of None \<Rightarrow> Inr d | Some (JString s) \<Rightarrow> Inr s | _ \<Rightarrow> Inl JsonError),
      js_unsigned = (\<lambda>j k d. case map_of j k of None \<Rightarrow> Inr d | Some (JUnsigned n) \<Rightarrow> Inr (of_nat n) | _ \<Rightarrow> Inl JsonError),
      js_double = (\<lambda>j k d. case map_of j k of None \<Rightarrow> Inr d | Some (JUnsigned n) \<Rightarrow> Inr (of_nat n) | Some (JFloat x) \<Rightarrow> Inr x | _ \<Rightarrow> Inl JsonError),
      js_dump = (\<lambda>v. Inr (dump_json v))\<rparr>"

definition sample_request :: http_request where
  "sample_request = HttpRequest_new\<lparr>rq_content := sample_body\<rparr>"

definition sample_parsed :: order_record where
  "sample_parsed = OrderRecord_new\<lparr>or_userId := ''u1'', or_productId := ''p1'', or_quantity := 2, or_totalAmount := 250, or_payloadJson := sample_body\<rparr>"

definition sample_id :: "int \<Rightarrow> string" where
  "sample_id t = ''ORD-'' @ show_int t"

definition sample_filed :: order_record where
  "sample_filed = sample_parsed\<lparr>or_orderId := ''ORD-1'', or_createdAt := 2, or_updatedAt := 2\<rparr>"

lemma sample_json_sane: "json_sane sample_json"
  by (auto simp: json_sane_def sample_json_def split: option.splits json_value.splits)

lemma sample_order_of: "order_of sample_json (rq_content sample_request) = Some sample_parsed"
  by (simp add: order_of_def sample_json_def sample_request_def read_order_def valid_order_def sample_parsed_def OrderRecord_new_def)

lemma sample_filed_is:
  "filed sample_id sample_parsed (rq_content sample_request) (aw_clock (sample_shop rows)) (Suc (aw_tick (sample_shop rows))) = sample_filed"
proof -
  have "digit_char 1 = CHR ''1''" by code_simp
  then have "sample_id 1 = ''ORD-1''" by (simp add: sample_id_def show_int_def show_nat.simps)
  then show ?thesis
    by (simp add: filed_def sample_filed_def sample_shop_def sample_db_world_def sample_parsed_def sample_request_def OrderRecord_new_def)
qed

lemma sample_filed_insertable: "insertable sample_filed"
  by (simp add: insertable_def sample_filed_def sample_parsed_def OrderRecord_new_def sample_body_def sql_text_def sql_char_def)

lemma sample_stock: "stock_is (InventoryService_new True mq True) ''p1'' 5 [''inventory:stock:p1'' \<mapsto> show_nat 5]"
  by (simp add: stock_is_def default_inventory_keys)


theorem create_conflict_witness:
  "\<exists>w' kv' msgs' s. Create_handle sample_libs sample_json (full_handler sample_id the_repo (OrderCache_new True) True ''order.events'')
       sample_request (HttpResponse_new False) (sample_shop [''ORD-1'' \<mapsto> sample_row])
         = Returns (answered k500InternalServerError s (HttpResponse_new False)) w' \<and>
     stores (\<lambda>d. d) (\<lambda>d. d) w' = (kv', [''ORD-1'' \<mapsto> sample_row], msgs') \<and> stock_is (InventoryService_new True True True) ''p1'' 5 kv'"
proof -
  let ?iv = "InventoryService_new True True True"
  have row: "or_orderId sample_filed = ''ORD-1''" "or_productId sample_parsed = ''p1''" "unat (or_quantity sample_parsed) = 2"
    by (simp_all add: sample_filed_def sample_parsed_def)
  have oc: "oc_keyPrefix (OrderCache_new True) = ''order:'' @ []" "nul_free []"
    by (simp_all add: OrderCache_new_def nul_free_def)
  have some: "[''ORD-1'' \<mapsto> sample_row] (or_orderId sample_filed) \<noteq> None" by (simp add: row)
  have st: "stock_is ?iv (or_productId sample_parsed) 5 [''inventory:stock:p1'' \<mapsto> show_nat 5]" "unat (or_quantity sample_parsed) \<le> 5"
    using sample_stock by (simp_all add: row)
  from create_conflict [where rows = "[''ORD-1'' \<mapsto> sample_row]" and mq = True and key = "''order.events''" and resp = "HttpResponse_new False",
      OF sample_shop_ok(1) sample_shop_ok(2) oc sample_json_sane sample_order_of sample_filed_is sample_filed_insertable some refl st]
  show ?thesis unfolding row by blast
qed

theorem create_rejects_witness:
  "\<exists>s. Create_handle sample_libs sample_json (full_handler sample_id the_repo (OrderCache_new True) True ''order.events'')
       HttpRequest_new (HttpResponse_new False) (sample_shop Map.empty)
         = Returns (answered k400BadRequest s (HttpResponse_new False)) (sample_shop Map.empty)"
proof -
  have "order_of sample_json (rq_content HttpRequest_new) = None"
    by (simp add: order_of_def sample_json_def HttpRequest_new_def sample_body_def)
  with create_rejects [OF sample_shop_ok(1) sample_shop_ok(2) sample_json_sane refl] show ?thesis by blast
qed

theorem query_by_id_witness:
  "\<exists>w'. Query_handle sample_libs sample_json (full_query the_repo (OrderCache_new True))
       (HttpRequest_new\<lparr>rq_queryParameters := [''id'' \<mapsto> ''ORD-1'']\<rparr>) (HttpResponse_new False) (sample_shop [''ORD-1'' \<mapsto> sample_row])
         = Returns (answered k200Ok (dump_json (record_json (parsed sample_row))) (HttpResponse_new False)) w' \<and>
     fst (stores (\<lambda>d. d) (\<lambda>d. d) w') ''order:ORD-1'' = Some (c_str (serializeOrder (parsed sample_row)))"
proof -
  let ?oc = "OrderCache_new True" and ?req = "HttpRequest_new\<lparr>rq_queryParameters := [''id'' \<mapsto> ''ORD-1'']\<rparr>"
  have q: "oc_pool ?oc" "extractOrderId ?req = Some ''ORD-1''" "sql_text 64 ''ORD-1''"
    by (simp_all add: OrderCache_new_def extractOrderId_def getQueryParameter_def sql_text_def sql_char_def)
  have key: "c_str (buildOrderKey ?oc ''ORD-1'') = ''order:ORD-1''" using default_cache_key [of "''ORD-1''" True] by (simp add: nul_free_def)
  have page: "\<forall>r. [''inventory:stock:p1'' \<mapsto> show_nat 5] ''order:ORD-1'' = Some (serializeOrder r) \<or>
      map_option parsed ([''ORD-1'' \<mapsto> sample_row] ''ORD-1'') = Some r \<longrightarrow> js_dump sample_json (record_json r) = Inr (dump_json (record_json r))"
    by (simp add: sample_json_def)
  have own: "\<forall>r. [''ORD-1'' \<mapsto> sample_row] ''ORD-1'' = Some r \<longrightarrow> or_orderId r = ''ORD-1''" by (simp add: sample_row_def)
  from query_by_id [where rows = "[''ORD-1'' \<mapsto> sample_row]" and i = "''ORD-1''" and req = ?req and resp = "HttpResponse_new False" and page = "\<lambda>r. dump_json (record_json r)",
      OF sample_shop_ok(1) sample_shop_ok(2) q(1) sample_json_sane q(2,3) key [symmetric] page own]
  show ?thesis by auto
qed

end
