(* ===== verification/Mq_Events.thy ===== *)
theory Mq_Events
  imports Order_Service Channel_Poller
begin

text \<open>
  Messages of the order server. \<open>src/mq/include/MQHandler.h\<close> ties the AMQP library's connection to
  a channel of the event loop; \<open>infra/mq/OrderEventConsumer.cpp\<close> takes messages from a queue while it
  runs; \<open>interface/mq/MQEventRouter.cpp\<close> finds the event name in a message and calls its handler.
  What the library does with a subscription or a published message is outside; subscriptions and
  the lines written to the two output streams are recorded.
\<close>

section \<open>\<open>MQHandler\<close>\<close>

text \<open>The handler, and the channels it has queued to be removed and deleted in the loop.\<close>

record mq_handler =
  mh_channel :: "nat option"
  mh_connFd :: int
  mh_closed :: bool
  mh_queued :: "nat list"

definition MQHandler_new :: mq_handler where
  "MQHandler_new = \<lparr>mh_channel = None, mh_connFd = -1, mh_closed = False, mh_queued = []\<rparr>"

definition unregister :: "mq_handler \<Rightarrow> mq_handler" where
  "unregister h =
     (if mh_closed h then h
      else case mh_channel h of
             None \<Rightarrow> h\<lparr>mh_closed := True\<rparr>
           | Some ch \<Rightarrow> h\<lparr>mh_closed := True, mh_channel := None, mh_connFd := -1, mh_queued := mh_queued h @ [ch]\<rparr>)"

text \<open>The functor that \<open>unregister\<close> queues: \<open>ch->remove(); delete ch\<close>.\<close>

definition run_unregister :: "bool \<Rightarrow> nat \<Rightarrow> reactor \<Rightarrow> reactor" where
  "run_unregister alive ch r =
     (let r1 = Channel_remove alive ch r in r1\<lparr>rc_heap := (rc_heap r1)(ch := None)\<rparr>)"

text \<open>\<open>monitor\<close> with the two flags; \<open>new\<close> is the address of a channel it makes.\<close>

definition monitor :: "bool \<Rightarrow> nat \<Rightarrow> int \<Rightarrow> bool \<Rightarrow> bool \<Rightarrow> mq_handler \<times> reactor \<Rightarrow> mq_handler \<times> reactor" where
  "monitor alive new fd readable writable hr =
     (case hr of (h, r) \<Rightarrow>
        if \<not> readable \<and> \<not> writable then (unregister h, r)
        else if mh_closed h then (h, r)
        else let (h1, r1) = (case mh_channel h of
                    Some ch \<Rightarrow> (h, r)
                  | None \<Rightarrow> (h\<lparr>mh_connFd := fd, mh_channel := Some new\<rparr>,
                             r\<lparr>rc_heap := (rc_heap r)(new \<mapsto> (Channel_new fd)\<lparr>ch_readCallback := True, ch_writeCallback := True\<rparr>)\<rparr>));
                 ch = the (mh_channel h1)
             in (h1, Channel_set alive (if writable then EnableWriting else DisableWriting) ch
                       (Channel_set alive (if readable then EnableReading else DisableReading) ch r1)))"

text \<open>What the two callbacks pass to the library: the descriptor, unless the handler is closed.\<close>

definition process_fd :: "mq_handler \<Rightarrow> int option" where
  "process_fd h = (if mh_closed h then None else Some (mh_connFd h))"

section \<open>Consumer and router\<close>

record mq_console =
  mc_subscribed :: "string list"
  mc_out :: "string list"
  mc_err :: "string list"

definition cout :: "string \<Rightarrow> mq_console \<Rightarrow> mq_console" where
  "cout s w = w\<lparr>mc_out := mc_out w @ [s]\<rparr>"

definition cerr :: "string \<Rightarrow> mq_console \<Rightarrow> mq_console" where
  "cerr s w = w\<lparr>mc_err := mc_err w @ [s]\<rparr>"

datatype event_callback = OnOrderCreated | OnOrderPaid | OnOrderCancelled | OnInventoryReleased

text \<open>The consumer; its handler is empty or the router's \<open>routeMessage\<close>.\<close>

record event_consumer =
  ec_mq :: bool
  ec_queueName :: string
  ec_handler :: bool
  ec_running :: bool

definition OrderEventConsumer_new :: "bool \<Rightarrow> string \<Rightarrow> event_consumer" where
  "OrderEventConsumer_new mq queueName = \<lparr>ec_mq = mq, ec_queueName = queueName, ec_handler = False, ec_running = False\<rparr>"

definition Consumer_Start :: "event_consumer \<Rightarrow> mq_console \<Rightarrow> event_consumer \<times> mq_console" where
  "Consumer_Start c w =
     (if ec_running c then (c, w)
      else if \<not> ec_mq c then (c, cerr ''[OrderEventConsumer] Missing MQConsumer dependency'' w)
      else (c\<lparr>ec_handler := True, ec_running := True\<rparr>,
            cout (''[OrderEventConsumer] Started consuming queue: '' @ ec_queueName c)
              (w\<lparr>mc_subscribed := mc_subscribed w @ [ec_queueName c]\<rparr>)))"

definition Consumer_Stop :: "event_consumer \<Rightarrow> mq_console \<Rightarrow> event_consumer \<times> mq_console" where
  "Consumer_Stop c w =
     (if \<not> ec_running c then (c, w)
      else (c\<lparr>ec_running := False, ec_handler := False\<rparr>,
            cout (''[OrderEventConsumer] Stopped consuming queue: '' @ ec_queueName c) w))"

record event_router =
  er_consumer :: "event_consumer option"
  er_orders :: bool
  er_inventory :: bool
  er_enableLogging :: bool
  er_handlers :: "(string \<times> event_callback) list"
  er_running :: bool

definition MQEventRouter_new :: "event_consumer option \<Rightarrow> bool \<Rightarrow> bool \<Rightarrow> bool \<Rightarrow> event_router" where
  "MQEventRouter_new consumer orders inventory enableLogging =
     \<lparr>er_consumer = consumer, er_orders = orders, er_inventory = inventory, er_enableLogging = enableLogging,
      er_handlers = [], er_running = False\<rparr>"

text \<open>\<open>unordered_map::emplace\<close> keeps an entry that is there.\<close>

definition Events_registerHandler :: "string \<Rightarrow> event_callback \<Rightarrow> event_router \<Rightarrow> event_router" where
  "Events_registerHandler eventType cb rt =
     (if map_of (er_handlers rt) eventType \<noteq> None then rt else rt\<lparr>er_handlers := er_handlers rt @ [(eventType, cb)]\<rparr>)"

definition Initialize :: "event_router \<Rightarrow> mq_console \<Rightarrow> event_router \<times> mq_console" where
  "Initialize rt w =
     (let rt' = Events_registerHandler ''inventory.released'' OnInventoryReleased
                 (Events_registerHandler ''order.cancelled'' OnOrderCancelled
                 (Events_registerHandler ''order.paid'' OnOrderPaid
                 (Events_registerHandler ''order.created'' OnOrderCreated rt)))
      in (rt', if er_enableLogging rt'
               then cout (''[MQEventRouter] Initialized with '' @ show_nat (length (er_handlers rt')) @ '' handlers.'') w else w))"

definition Events_Start :: "event_router \<Rightarrow> mq_console \<Rightarrow> event_router \<times> mq_console" where
  "Events_Start rt w =
     (if er_running rt then (rt, w)
      else case er_consumer rt of
             None \<Rightarrow> (rt, cerr ''[MQEventRouter] Missing OrderEventConsumer dependency.'' w)
           | Some c \<Rightarrow>
               (case Consumer_Start c w of (c', w') \<Rightarrow>
                  (rt\<lparr>er_running := True, er_consumer := Some c'\<rparr>,
                   if er_enableLogging rt then cout ''[MQEventRouter] Started routing MQ events.'' w' else w')))"

definition Events_Stop :: "event_router \<Rightarrow> mq_console \<Rightarrow> event_router \<times> mq_console" where
  "Events_Stop rt w =
     (if \<not> er_running rt then (rt, w)
      else let (c', w') = (case er_consumer rt of None \<Rightarrow> (None, w) | Some c \<Rightarrow> map_prod Some id (Consumer_Stop c w))
           in (rt\<lparr>er_running := False, er_consumer := c'\<rparr>,
               if er_enableLogging rt then cout ''[MQEventRouter] Stopped routing MQ events.'' w' else w'))"

section \<open>Routing a message\<close>

text \<open>
  \<open>std::string::find\<close> from a position; the position after one that was not found is \<open>npos + 1\<close>,
  which wraps round to the start.
\<close>

definition find_from :: "string \<Rightarrow> nat \<Rightarrow> string \<Rightarrow> nat option" where
  "find_from p i s = map_option ((+) i) (find_sub p (drop i s))"

definition next_pos :: "nat option \<Rightarrow> nat" where
  "next_pos i = (case i of None \<Rightarrow> 0 | Some n \<Rightarrow> Suc n)"

definition event_of :: "string \<Rightarrow> string" where
  \<open>event_of payload =
     (case find_sub ''"event"'' payload of
        None \<Rightarrow> []
      | Some pos \<Rightarrow>
          let start = find_from '':'' pos payload;
              quote1 = find_from ''"'' (next_pos start) payload;
              quote2 = find_from ''"'' (next_pos quote1) payload
          in case (quote1, quote2) of
               (Some a, Some b) \<Rightarrow> take (b - a - 1) (drop (Suc a) payload)
             | _ \<Rightarrow> [])\<close>

text \<open>The four handlers: each logs the message when its service is there.\<close>

fun callback_name :: "event_callback \<Rightarrow> string" where
  "callback_name OnOrderCreated = ''onOrderCreated''"
| "callback_name OnOrderPaid = ''onOrderPaid''"
| "callback_name OnOrderCancelled = ''onOrderCancelled''"
| "callback_name OnInventoryReleased = ''onInventoryReleased''"

definition run_callback :: "event_router \<Rightarrow> event_callback \<Rightarrow> string \<Rightarrow> mq_console \<Rightarrow> mq_console" where
  "run_callback rt cb payload w =
     (if \<not> (if cb = OnInventoryReleased then er_inventory rt else er_orders rt) then w
      else if er_enableLogging rt then cout (''[MQEventRouter] '' @ callback_name cb @ '': '' @ payload) w else w)"

definition routeMessage :: "event_router \<Rightarrow> string \<Rightarrow> mq_console \<Rightarrow> mq_console" where
  "routeMessage rt payload w =
     (let event = event_of payload
      in if event = [] then cerr ''[MQEventRouter] Invalid message: no event field.'' w
         else case map_of (er_handlers rt) event of
                None \<Rightarrow> cerr (''[MQEventRouter] No handler registered for event: '' @ event) w
              | Some cb \<Rightarrow>
                  run_callback rt cb payload
                    (if er_enableLogging rt then cout (''[MQEventRouter] Dispatching event: '' @ event) w else w))"

text \<open>A message the library hands to the consumer that the router holds.\<close>

definition handleMessage :: "event_router \<Rightarrow> string \<Rightarrow> mq_console \<Rightarrow> mq_console" where
  "handleMessage rt payload w =
     (case er_consumer rt of
        None \<Rightarrow> w
      | Some c \<Rightarrow> if \<not> ec_running c then w else if ec_handler c then routeMessage rt payload w else w)"

section \<open>Lemmas\<close>

lemma find_sub_one: "find_sub [c] s = find_char c s"
  by (induction s) auto

lemma event_of_order_event:
  assumes "CHR 0x22 \<notin> set ev"
  shows "event_of (order_event ev e payload) = ev"
proof -
  define rest where \<open>rest = '',"orderId":"'' @ oe_orderId e @ ''","userId":"'' @ oe_userId e @ ''","productId":"'' @ oe_productId e @
     ''","status":"'' @ show_int (status_int (oe_status e)) @ ''"'' @ (if payload \<noteq> [] then '',"payload":"'' @ payload @ ''"'' else []) @ ''}''\<close>
  have msg: \<open>order_event ev e payload = ''{"event":"'' @ ev @ CHR 0x22 # rest\<close>
    by (simp add: order_event_def rest_def)
  have "find_char (CHR 0x22) (ev @ CHR 0x22 # rest) = Some (length ev)" using assms by (rule find_char_hit)
  then show ?thesis unfolding msg by (simp add: event_of_def find_from_def find_sub_one next_pos_def)
qed

lemma Initialize_handlers:
  "er_handlers (fst (Initialize (MQEventRouter_new c os sv lg) w)) =
     [(''order.created'', OnOrderCreated), (''order.paid'', OnOrderPaid), (''order.cancelled'', OnOrderCancelled), (''inventory.released'', OnInventoryReleased)]"
  "er_orders (fst (Initialize (MQEventRouter_new c os sv lg) w)) = os" "er_inventory (fst (Initialize (MQEventRouter_new c os sv lg) w)) = sv"
  "er_enableLogging (fst (Initialize (MQEventRouter_new c os sv lg) w)) = lg" "er_consumer (fst (Initialize (MQEventRouter_new c os sv lg) w)) = c"
  "er_running (fst (Initialize (MQEventRouter_new c os sv lg) w)) = False"
  by (simp_all add: Initialize_def Events_registerHandler_def MQEventRouter_new_def Let_def)

text \<open>What a message does depends on the handlers and the services alone.\<close>

lemma routeMessage_cong:
  assumes "er_handlers rt' = er_handlers rt" and "er_orders rt' = er_orders rt" and "er_inventory rt' = er_inventory rt"
    and "er_enableLogging rt' = er_enableLogging rt"
  shows "routeMessage rt' payload w = routeMessage rt payload w"
  using assms by (simp add: routeMessage_def run_callback_def Let_def split: option.split)

datatype router_call = CallStart | CallStop | CallMessage string

fun router_exec :: "router_call \<Rightarrow> event_router \<times> mq_console \<Rightarrow> event_router \<times> mq_console" where
  "router_exec CallStart s = Events_Start (fst s) (snd s)"
| "router_exec CallStop s = Events_Stop (fst s) (snd s)"
| "router_exec (CallMessage payload) s = (fst s, handleMessage (fst s) payload (snd s))"

fun is_on :: "bool \<Rightarrow> router_call list \<Rightarrow> bool" where
  "is_on b [] = b"
| "is_on b (CallStart # cs) = is_on True cs"
| "is_on b (CallStop # cs) = is_on False cs"
| "is_on b (CallMessage p # cs) = is_on b cs"

text \<open>Router and consumer are switched together, and the rest of the router stays.\<close>

definition router_like :: "event_router \<Rightarrow> bool \<Rightarrow> event_router \<Rightarrow> bool" where
  "router_like rt0 b rt \<longleftrightarrow>
     er_handlers rt = er_handlers rt0 \<and> er_orders rt = er_orders rt0 \<and> er_inventory rt = er_inventory rt0 \<and>
     er_enableLogging rt = er_enableLogging rt0 \<and> er_running rt = b \<and>
     (\<exists>c. er_consumer rt = Some c \<and> ec_mq c \<and> ec_running c = b \<and> ec_handler c = b)"

lemma router_exec_like:
  "router_like rt0 b (fst s) \<Longrightarrow>
     router_like rt0 (case c of CallStart \<Rightarrow> True | CallStop \<Rightarrow> False | CallMessage p \<Rightarrow> b) (fst (router_exec c s))"
  by (cases c; cases b) (auto simp: router_like_def Events_Start_def Events_Stop_def Consumer_Start_def Consumer_Stop_def)

lemma router_run_like: "router_like rt0 b (fst s) \<Longrightarrow> router_like rt0 (is_on b cs) (fst (fold router_exec cs s))"
proof (induction cs arbitrary: b s)
  case (Cons c cs)
  from router_exec_like [OF Cons.prems, of c] show ?case using Cons.IH [where s = "router_exec c s"] by (cases c) simp_all
qed simp

lemma monitor_closed: "mh_closed h \<Longrightarrow> monitor alive new fd a b (h, r) = (h, r)"
  by (simp add: monitor_def unregister_def)

section \<open>Properties\<close>

text \<open>
  C40. Events arrive at their handlers. The message that the order service writes for an event is
  read by the router as that event, for every name without a quote. After \<open>Initialize\<close> and whatever
  starts, stops and messages came before, a message is looked at exactly when the last of the
  starts and stops was a start; created, paid and cancelled then run their handler once, and
  \<open>order.status_updated\<close>, which the service also sends, is reported as an event without handler.
\<close>

theorem event_dispatch:
  assumes "rt = fst (Initialize (MQEventRouter_new (Some (OrderEventConsumer_new True queue)) True sv True) w0)"
    and "fold router_exec calls (rt, w0) = (rt', w)" and "is_on False calls"
    and "(ev, cb) \<in> {(''order.created'', OnOrderCreated), (''order.paid'', OnOrderPaid), (''order.cancelled'', OnOrderCancelled)}"
  shows "handleMessage rt' (order_event ev e p) w =
      cout (''[MQEventRouter] '' @ callback_name cb @ '': '' @ order_event ev e p) (cout (''[MQEventRouter] Dispatching event: '' @ ev) w) \<and>
    handleMessage rt' (order_event ''order.status_updated'' e p) w =
      cerr ''[MQEventRouter] No handler registered for event: order.status_updated'' w \<and>
    handleMessage (fst (Events_Stop rt' w)) payload w = w"
proof -
  have "router_like rt False rt"
    unfolding assms(1) router_like_def Initialize_handlers by (simp add: OrderEventConsumer_new_def)
  from router_run_like [where s = "(rt, w0)" and cs = calls, unfolded fst_conv, OF this]
  have like: "router_like rt True rt'" using assms(2,3) by simp
  then have on: "handleMessage rt' msg w = routeMessage rt msg w" for msg
    using routeMessage_cong [of rt' rt msg w] by (auto simp: router_like_def handleMessage_def)
  have "router_like rt False (fst (Events_Stop rt' w))" using router_exec_like [of rt True "(rt', w)" CallStop] like by simp
  then have "handleMessage (fst (Events_Stop rt' w)) payload w = w" by (auto simp: router_like_def handleMessage_def)
  moreover have "routeMessage rt (order_event ev e p) w =
      cout (''[MQEventRouter] '' @ callback_name cb @ '': '' @ order_event ev e p) (cout (''[MQEventRouter] Dispatching event: '' @ ev) w)"
    using assms(4) unfolding assms(1)
    by (auto simp: routeMessage_def run_callback_def Initialize_handlers event_of_order_event Let_def)
  moreover have "routeMessage rt (order_event ''order.status_updated'' e p) w =
      cerr ''[MQEventRouter] No handler registered for event: order.status_updated'' w"
    unfolding assms(1) by (simp add: routeMessage_def Initialize_handlers event_of_order_event Let_def)
  ultimately show ?thesis by (simp add: on)
qed

theorem event_dispatch_witness:
  "\<exists>rt' w. fold router_exec [CallStart, CallStop, CallMessage ''x'', CallStart]
       (fst (Initialize (MQEventRouter_new (Some (OrderEventConsumer_new True ''order.events'')) True True True) \<lparr>mc_subscribed = [], mc_out = [], mc_err = []\<rparr>),
        \<lparr>mc_subscribed = [], mc_out = [], mc_err = []\<rparr>) = (rt', w) \<and>
     handleMessage rt' (order_event ''order.paid'' OrderEntity_new []) w =
       cout (''[MQEventRouter] onOrderPaid: '' @ order_event ''order.paid'' OrderEntity_new []) (cout ''[MQEventRouter] Dispatching event: order.paid'' w)"
proof -
  let ?w = "\<lparr>mc_subscribed = [], mc_out = [], mc_err = []\<rparr>"
  let ?rt = "fst (Initialize (MQEventRouter_new (Some (OrderEventConsumer_new True ''order.events'')) True True True) ?w)"
  obtain rt' w where run: "fold router_exec [CallStart, CallStop, CallMessage ''x'', CallStart] (?rt, ?w) = (rt', w)" by (rule prod.exhaust)
  have "(''order.paid'', OnOrderPaid) \<in> {(''order.created'', OnOrderCreated), (''order.paid'', OnOrderPaid), (''order.cancelled'', OnOrderCancelled)}"
    by simp
  from event_dispatch [OF refl run _ this, of OrderEntity_new "[]"] show ?thesis using run by auto
qed

end
