(* ===== verification/Order_Config.thy ===== *)
theory Order_Config
  imports Mysql_Pool Cpp_Numbers
begin

text \<open>
  Configuration of the order server: \<open>src/apps/order_server/app/ConfigLoader.hpp\<close>,
  \<open>OrderConfig.h\<close>, \<open>OrderConfig.cpp\<close> and the search for the file in \<open>main.cpp\<close>. The YAML library
  and the file system are arguments.
\<close>

section \<open>Reading a YAML tree\<close>

text \<open>
  \<open>ym_child\<close> is \<open>node[key]\<close>, \<open>None\<close> when it is not defined; the conversions \<open>as<T>\<close> are \<open>None\<close> when they
  throw, as is \<open>ym_LoadFile\<close>.
\<close>

record 'n yaml_api =
  ym_LoadFile :: "string \<Rightarrow> 'n option"
  ym_IsMap :: "'n \<Rightarrow> bool"
  ym_child :: "'n \<Rightarrow> string \<Rightarrow> 'n option"
  ym_string :: "'n \<Rightarrow> string option"
  ym_bool :: "'n \<Rightarrow> bool option"
  ym_int :: "'n \<Rightarrow> int option"
  ym_uint :: "'n \<Rightarrow> nat option"
  ym_size :: "'n \<Rightarrow> nat option"

definition cfg_get :: "'n yaml_api \<Rightarrow> ('n \<Rightarrow> 'a option) \<Rightarrow> 'n \<Rightarrow> string \<Rightarrow> 'a \<Rightarrow> 'a" where
  "cfg_get Y conv config key defaultValue =
     (case ym_child Y config key of
        None \<Rightarrow> defaultValue
      | Some n \<Rightarrow> (case conv n of None \<Rightarrow> defaultValue | Some v \<Rightarrow> v))"

fun walk :: "'n yaml_api \<Rightarrow> 'n \<Rightarrow> string list \<Rightarrow> 'n option" where
  "walk Y node [] = Some node"
| "walk Y node (segment # ss) =
     (if \<not> ym_IsMap Y node then None
      else case ym_child Y node segment of None \<Rightarrow> None | Some n \<Rightarrow> walk Y n ss)"

definition getPath :: "'n yaml_api \<Rightarrow> ('n \<Rightarrow> 'a option) \<Rightarrow> 'n \<Rightarrow> string \<Rightarrow> 'a \<Rightarrow> 'a" where
  "getPath Y conv config path defaultValue =
     (case walk Y config (getline_tokens (CHR ''.'') path) of
        None \<Rightarrow> defaultValue
      | Some n \<Rightarrow> (case conv n of None \<Rightarrow> defaultValue | Some v \<Rightarrow> v))"

section \<open>Options\<close>

record mq_options =
  mo_url :: string
  mo_orderQueue :: string
  mo_inventoryQueue :: string
  mo_exchange :: string
  mo_enableConsumer :: bool

definition MQOptions_validate :: "mq_options \<Rightarrow> bool" where
  "MQOptions_validate q \<longleftrightarrow> mo_url q \<noteq> [] \<and> mo_orderQueue q \<noteq> [] \<and> mo_exchange q \<noteq> []"

record redis_options =
  ro_host :: string
  ro_port :: int
  ro_password :: string
  ro_poolSize :: nat
  ro_timeoutMs :: int
  ro_keyPrefix :: string
  ro_enableCache :: bool

definition RedisOptions_validate :: "redis_options \<Rightarrow> bool" where
  "RedisOptions_validate q \<longleftrightarrow> ro_host q \<noteq> [] \<and> 0 < ro_port q \<and> ro_port q < 65536"

record database_options =
  do_connInfo :: mysql_conn_info
  do_maxConnections :: int
  do_minConnections :: int
  do_maxIdleTime :: int
  do_connectTimeout :: int

definition DatabaseOptions_validate :: "database_options \<Rightarrow> bool" where
  "DatabaseOptions_validate q \<longleftrightarrow> MySQLConnInfo_validate (do_connInfo q) \<and> do_minConnections q \<le> do_maxConnections q"

record other_options =
  xo_enablePrometheus :: bool
  xo_metricsPort :: int
  xo_logLevel :: string
  xo_logConsole :: bool
  xo_logFile :: string
  xo_reservationTtl :: int
  xo_restockRoutingKey :: string
  xo_reservationRoutingKey :: string
  xo_cacheTtlMinutes :: int
  xo_userIndexPrefix :: string
  xo_detailPrefix :: string

record server_options =
  so_serviceName :: string
  so_httpThreadNum :: nat
  so_enableTLS :: bool
  so_mq :: mq_options
  so_redis :: redis_options
  so_database :: database_options
  so_other :: other_options

definition OrderServerOptions_new :: server_options where
  "OrderServerOptions_new =
     \<lparr>so_serviceName = ''OrderServer'', so_httpThreadNum = 0, so_enableTLS = False,
      so_mq = \<lparr>mo_url = [], mo_orderQueue = ''order.events'', mo_inventoryQueue = ''inventory.events'', mo_exchange = ''order.exchange'',
        mo_enableConsumer = True\<rparr>,
      so_redis = \<lparr>ro_host = ''127.0.0.1'', ro_port = 6379, ro_password = [], ro_poolSize = 4, ro_timeoutMs = 1000, ro_keyPrefix = ''order:'',
        ro_enableCache = True\<rparr>,
      so_database = \<lparr>do_connInfo = \<lparr>mi_url = [], mi_user = [], mi_password = [], mi_database = [], mi_timeout_sec = 5\<rparr>,
        do_maxConnections = 16, do_minConnections = 4, do_maxIdleTime = 60, do_connectTimeout = 5\<rparr>,
      so_other = \<lparr>xo_enablePrometheus = False, xo_metricsPort = 9090, xo_logLevel = ''INFO'', xo_logConsole = True,
        xo_logFile = ''./logs/order_server.log'', xo_reservationTtl = 300, xo_restockRoutingKey = ''inventory.restock'',
        xo_reservationRoutingKey = ''inventory.reservation'', xo_cacheTtlMinutes = 10, xo_userIndexPrefix = ''user_orders:'',
        xo_detailPrefix = ''order:''\<rparr>\<rparr>"

definition OrderServerOptions_validate :: "server_options \<Rightarrow> bool" where
  "OrderServerOptions_validate q \<longleftrightarrow>
     so_serviceName q \<noteq> [] \<and> 0 < so_httpThreadNum q \<and> MQOptions_validate (so_mq q) \<and> RedisOptions_validate (so_redis q) \<and>
     DatabaseOptions_validate (so_database q)"

text \<open>The fields one after the other, each from its key or the default.\<close>

definition read_options :: "'n yaml_api \<Rightarrow> nat \<Rightarrow> 'n \<Rightarrow> server_options" where
  "read_options Y hardware_concurrency cfg =
     (let d = OrderServerOptions_new; db = so_database d; ci = do_connInfo db; rd = so_redis d; mq = so_mq d; x = so_other d
      in \<lparr>so_serviceName = cfg_get Y (ym_string Y) cfg ''serviceName'' (so_serviceName d),
          so_httpThreadNum = cfg_get Y (ym_uint Y) cfg ''httpThreadNum'' (max 1 hardware_concurrency),
          so_enableTLS = cfg_get Y (ym_bool Y) cfg ''enableTLS'' (so_enableTLS d),
          so_mq =
            \<lparr>mo_url = getPath Y (ym_string Y) cfg ''mq.url'' (mo_url mq),
             mo_orderQueue = getPath Y (ym_string Y) cfg ''mq.orderQueue'' (mo_orderQueue mq),
             mo_inventoryQueue = getPath Y (ym_string Y) cfg ''mq.inventoryQueue'' (mo_inventoryQueue mq),
             mo_exchange = getPath Y (ym_string Y) cfg ''mq.exchange'' (mo_exchange mq),
             mo_enableConsumer = getPath Y (ym_bool Y) cfg ''mq.enableConsumer'' (mo_enableConsumer mq)\<rparr>,
          so_redis =
            \<lparr>ro_host = getPath Y (ym_string Y) cfg ''redis.host'' (ro_host rd),
             ro_port = getPath Y (ym_int Y) cfg ''redis.port'' (ro_port rd),
             ro_password = getPath Y (ym_string Y) cfg ''redis.password'' (ro_password rd),
             ro_poolSize = getPath Y (ym_size Y) cfg ''redis.poolSize'' (ro_poolSize rd),
             ro_timeoutMs = getPath Y (ym_int Y) cfg ''redis.timeoutMs'' (ro_timeoutMs rd),
             ro_keyPrefix = getPath Y (ym_string Y) cfg ''redis.keyPrefix'' (ro_keyPrefix rd),
             ro_enableCache = getPath Y (ym_bool Y) cfg ''redis.enableCache'' (ro_enableCache rd)\<rparr>,
          so_database =
            \<lparr>do_connInfo =
               \<lparr>mi_url = getPath Y (ym_string Y) cfg ''database.connInfo.url'' (mi_url ci),
                mi_user = getPath Y (ym_string Y) cfg ''database.connInfo.user'' (mi_user ci),
                mi_password = getPath Y (ym_string Y) cfg ''database.connInfo.password'' (mi_password ci),
                mi_database = getPath Y (ym_string Y) cfg ''database.connInfo.database'' (mi_database ci),
                mi_timeout_sec = getPath Y (ym_int Y) cfg ''database.connInfo.timeout_sec'' (mi_timeout_sec ci)\<rparr>,
             do_maxConnections = getPath Y (ym_int Y) cfg ''database.maxConnections'' (do_maxConnections db),
             do_minConnections = getPath Y (ym_int Y) cfg ''database.minConnections'' (do_minConnections db),
             do_maxIdleTime = getPath Y (ym_int Y) cfg ''database.maxIdleTime'' (do_maxIdleTime db),
             do_connectTimeout = getPath Y (ym_int Y) cfg ''database.connectTimeout'' (do_connectTimeout db)\<rparr>,
          so_other =
            \<lparr>xo_enablePrometheus = getPath Y (ym_bool Y) cfg ''metrics.enablePrometheus'' (xo_enablePrometheus x),
             xo_metricsPort = getPath Y (ym_int Y) cfg ''metrics.port'' (xo_metricsPort x),
             xo_logLevel = getPath Y (ym_string Y) cfg ''logging.level'' (xo_logLevel x),
             xo_logConsole = getPath Y (ym_bool Y) cfg ''logging.console'' (xo_logConsole x),
             xo_logFile = getPath Y (ym_string Y) cfg ''logging.file'' (xo_logFile x),
             xo_reservationTtl = getPath Y (ym_int Y) cfg ''reservation.ttl_seconds'' (xo_reservationTtl x),
             xo_restockRoutingKey = getPath Y (ym_string Y) cfg ''reservation.restockRoutingKey'' (xo_restockRoutingKey x),
             xo_reservationRoutingKey = getPath Y (ym_string Y) cfg ''reservation.reservationRoutingKey'' (xo_reservationRoutingKey x),
             xo_cacheTtlMinutes = getPath Y (ym_int Y) cfg ''cache.ttl_minutes'' (xo_cacheTtlMinutes x),
             xo_userIndexPrefix = getPath Y (ym_string Y) cfg ''cache.userIndexPrefix'' (xo_userIndexPrefix x),
             xo_detailPrefix = getPath Y (ym_string Y) cfg ''cache.detailPrefix'' (xo_detailPrefix x)\<rparr>\<rparr>)"

definition FromConfig :: "'n yaml_api \<Rightarrow> nat \<Rightarrow> string \<Rightarrow> cpp_error + server_options" where
  "FromConfig Y hardware_concurrency path =
     (case ym_LoadFile Y path of
        None \<Rightarrow> Inl RuntimeError
      | Some cfg \<Rightarrow>
          let opt = read_options Y hardware_concurrency cfg
          in if OrderServerOptions_validate opt then Inr opt else Inl RuntimeError)"

section \<open>Finding the file\<close>

text \<open>The calls on the file system, \<open>None\<close> when they throw; the exception is a \<open>std::runtime_error\<close>.\<close>

record fs_api =
  fs_canonical :: "string \<Rightarrow> string option"
  fs_exists :: "string \<Rightarrow> bool"
  fs_current_path :: "string option"
  fs_weakly_canonical :: "string \<Rightarrow> string option"

fun config_arg :: "string list \<Rightarrow> string" where
  "config_arg (a # b # rest) = (if a = ''--config'' then b else config_arg (b # rest))"
| "config_arg rest = []"

definition path_join :: "string \<Rightarrow> string \<Rightarrow> string" where
  "path_join p q = (if p = [] \<or> last p = CHR ''/'' then p @ q else p @ CHR ''/'' # q)"

text \<open>\<open>parent_path\<close> of an absolute path without a slash at its end.\<close>

definition parent_path :: "string \<Rightarrow> string" where
  "parent_path p = (let dir = rev (dropWhile (\<lambda>c. c \<noteq> CHR ''/'') (rev p)) in if length dir \<le> 1 then dir else butlast dir)"

definition ResolveConfigPath :: "fs_api \<Rightarrow> string option \<Rightarrow> string list \<Rightarrow> cpp_error + string" where
  "ResolveConfigPath fs env argv =
     (let p1 = config_arg (tl argv);
          p2 = (if p1 = [] then (case env of Some e \<Rightarrow> e | None \<Rightarrow> []) else p1);
          p3 = (if p2 = []
                then (case fs_canonical fs (hd argv) of
                        None \<Rightarrow> []
                      | Some exe \<Rightarrow>
                          let candidate = path_join (parent_path exe) ''../apps/order_server/config/config.yaml''
                          in if fs_exists fs candidate then candidate else [])
                else p2);
          p4 = (if p3 \<noteq> [] then Inr p3
                else case fs_current_path fs of
                       None \<Rightarrow> Inl RuntimeError
                     | Some cwd \<Rightarrow>
                         let devPath = path_join cwd ''config/config.yaml''
                         in Inr (if fs_exists fs devPath then devPath else []))
      in case p4 of
           Inl e \<Rightarrow> Inl e
         | Inr configPath \<Rightarrow>
             if configPath = [] then Inl RuntimeError
             else case fs_weakly_canonical fs configPath of None \<Rightarrow> Inl RuntimeError | Some full \<Rightarrow> Inr full)"

end
