(* ===== verification/Order_App.thy ===== *)
theory Order_App
  imports Order_Config Order_Handlers Mq_Events Http_Server
begin

text \<open>
  The application: \<open>src/apps/order_server/app/OrderApplication.cpp\<close> and the boot sequence of
  \<open>main.cpp\<close>. It connects the storage, builds the services and handlers, registers the routes and
  starts everything. The handlers run inside the HTTP server on the world of the order services.
\<close>

section \<open>State\<close>

record 'w order_app =
  oa_loop :: bool
  oa_options :: server_options
  oa_server :: "'w http_server"
  oa_threads :: nat
  oa_repository :: "order_repo option"
  oa_cache :: "order_cache option"
  oa_producer :: bool
  oa_consumer :: bool
  oa_inventory :: "inventory_service option"
  oa_service :: "order_service option"
  oa_create :: "'w create_handler option"
  oa_query :: "query_handler option"
  oa_router :: "event_router option"
  oa_console :: mq_console
  oa_started :: bool

definition OrderApplication_new :: "bool \<Rightarrow> server_options \<Rightarrow> 'w order_app" where
  "OrderApplication_new loop options =
     \<lparr>oa_loop = loop, oa_options = options, oa_server = HttpServer_new (so_enableTLS options), oa_threads = 0, oa_repository = None,
      oa_cache = None, oa_producer = False, oa_consumer = False, oa_inventory = None, oa_service = None, oa_create = None,
      oa_query = None, oa_router = None, oa_console = \<lparr>mc_subscribed = [], mc_out = [], mc_err = []\<rparr>, oa_started = False\<rparr>"

definition GetThreadCount :: "nat \<Rightarrow> nat \<Rightarrow> nat" where
  "GetThreadCount hardware_concurrency configured =
     (if 0 < configured then configured else if hardware_concurrency = 0 then 1 else hardware_concurrency)"

text \<open>\<open>duration_cast<microseconds>\<close> rounds toward zero.\<close>

definition micro_id :: "int \<Rightarrow> string" where
  "micro_id t = ''ORD-'' @ show_int (if 0 \<le> t then t div 1000 else - (- t div 1000))"

definition GenerateOrderId :: "(string, ('r, 'z) app_world_scheme) prog" where
  "GenerateOrderId = clock_id micro_id"

text \<open>A handler of the order server as the router calls it.\<close>

definition as_handler :: "(http_request \<Rightarrow> http_response \<Rightarrow> (http_response, 'w) prog) \<Rightarrow> 'w handler" where
  "as_handler h req resp w =
     (case h req resp w of
        Returns resp' w' \<Rightarrow> Inr (resp', w')
      | Throws e w' \<Rightarrow> Inl e
      | Blocks \<Rightarrow> Inl NeverReturns)"

section \<open>The phases of \<open>start\<close>\<close>

definition fallback_callback :: "'w handler" where
  \<open>fallback_callback req resp w =
     Inr (Response_setBody ''{"error":"Not Found"}'' (setContentType ''application/json'' (setStatusCode k404NotFound resp)), w)\<close>

definition configureHttpServer :: "nat \<Rightarrow> 'w order_app \<Rightarrow> 'w order_app" where
  "configureHttpServer hardware_concurrency app =
     app\<lparr>oa_threads := GetThreadCount hardware_concurrency (so_httpThreadNum (oa_options app)),
         oa_server := (oa_server app)\<lparr>hs_httpCallback := Some fallback_callback\<rparr>\<rparr>"

text \<open>The MySQL pool and the Redis pool take their places in the world.\<close>

definition init_mysql :: "('c, 'd, 'row) sql_api \<Rightarrow> mysql_conn_info \<Rightarrow> (unit, ('r, 'c, 'd, 'row, 'z) order_world_scheme) prog" where
  "init_mysql api info w =
     (case InitPool api info 4 (mp_driver (ow_pool w)) of
        Returns p d \<Rightarrow> Returns () (w\<lparr>ow_pool := p\<rparr>)
      | Throws e d \<Rightarrow> Throws e (w\<lparr>ow_pool := (ow_pool w)\<lparr>mp_driver := d\<rparr>\<rparr>)
      | Blocks \<Rightarrow> Blocks)"

definition init_redis :: "'r redis_api \<Rightarrow> redis_options \<Rightarrow> (unit, ('r, 'z) redis_world_scheme) prog" where
  "init_redis api q w =
     (case RedisPool_new api (ro_host q) (ro_port q) (ro_poolSize q) (ro_password q) (rw_server w) of
        (clients, server) \<Rightarrow> Returns () (w\<lparr>rw_clients := clients, rw_server := server\<rparr>))"

definition app_cache :: "server_options \<Rightarrow> order_cache" where
  "app_cache q =
     (OrderCache_new True)\<lparr>oc_keyPrefix := ro_keyPrefix (so_redis q) @ ''detail:'', oc_userIndexPrefix := ro_keyPrefix (so_redis q) @ ''user:''\<rparr>"

definition initStorage :: "('r, 'c, 'd, 'row) libs \<Rightarrow> 'w order_app \<Rightarrow> ('w order_app, ('r, 'c, 'd, 'row, 'z) order_world_scheme) prog" where
  "initStorage L app =
     (let q = oa_options app
      in if \<not> DatabaseOptions_validate (so_database q) then throw RuntimeError
         else andThen (init_mysql (da_sql (lb_db L)) (do_connInfo (so_database q))) (\<lambda>_.
              andThen (from_sum (OrderRepository_new True ''orders'')) (\<lambda>rp0.
              andThen (EnsureSchema (lb_db L) rp0) (\<lambda>rp.
              if \<not> RedisOptions_validate (so_redis q) then throw RuntimeError
              else andThen (init_redis (lb_redis L) (so_redis q)) (\<lambda>_.
                   ret (app\<lparr>oa_repository := Some rp, oa_cache := Some (app_cache q)\<rparr>))))))"

definition initMessageQueue :: "'w order_app \<Rightarrow> 'w order_app" where
  "initMessageQueue app =
     (if \<not> MQOptions_validate (so_mq (oa_options app)) then app else app\<lparr>oa_producer := True, oa_consumer := True\<rparr>)"

text \<open>The message router, when there is a consumer.\<close>

definition init_router :: "'w order_app \<Rightarrow> 'w order_app" where
  "init_router app =
     (if \<not> oa_consumer app then app
      else case Initialize (MQEventRouter_new (Some (OrderEventConsumer_new True (mo_orderQueue (so_mq (oa_options app))))) True True True) (oa_console app) of
             (rt, con) \<Rightarrow> app\<lparr>oa_router := Some rt, oa_console := con\<rparr>)"

definition initHandlers :: "('r, 'c, 'd, 'row, 'z) order_world_scheme order_app \<Rightarrow>
    (('r, 'c, 'd, 'row, 'z) order_world_scheme order_app, ('r, 'c, 'd, 'row, 'z) order_world_scheme) prog" where
  "initHandlers app =
     (case oa_repository app of
        None \<Rightarrow> throw RuntimeError
      | Some rp \<Rightarrow>
          let mq = oa_producer app; cache = oa_cache app;
              inventory = InventoryService_new True mq True;
              service = OrderService_new (Some rp) cache (Some inventory) mq;
              create = setIdGenerator GenerateOrderId
                (OrderCreateHandler_new (Some rp) cache (Some inventory) mq [] (mo_orderQueue (so_mq (oa_options app))) (cache \<noteq> None) mq True);
              query = \<lparr>qh_database = Some rp, qh_cache = cache, qh_preferCache = (cache \<noteq> None), qh_maxPageSize = os_maxPageSize service\<rparr>
          in ret (init_router (app\<lparr>oa_inventory := Some inventory, oa_service := Some service, oa_create := Some create, oa_query := Some query\<rparr>)))"

definition health_callback :: "'w handler" where
  \<open>health_callback req resp w =
     Inr (Response_setBody ''{"status":"ok"}'' (setContentType ''application/json'' (setStatusCode k200Ok resp)), w)\<close>

definition initRoutes :: "('r, 'c, 'd, 'row) libs \<Rightarrow> 'j json_api \<Rightarrow> ('r, 'c, 'd, 'row, 'z) order_world_scheme order_app \<Rightarrow>
    ('r, 'c, 'd, 'row, 'z) order_world_scheme order_app" where
  "initRoutes L J app =
     (let s1 = HttpServer_GetCallback ''/health'' health_callback (oa_server app);
          s2 = (case oa_create app of Some h \<Rightarrow> HttpServer_Post ''/orders'' (as_handler (Create_handle L J h)) s1 | None \<Rightarrow> s1);
          s3 = (case oa_query app of Some h \<Rightarrow> HttpServer_Get ''/orders'' (as_handler (Query_handle L J h)) s2 | None \<Rightarrow> s2)
      in app\<lparr>oa_server := s3\<rparr>)"

definition app_warmupCache :: "('r, 'c, 'd, 'row) libs \<Rightarrow> 'w order_app \<Rightarrow> (unit, ('r, 'c, 'd, 'row, 'z) order_world_scheme) prog" where
  "app_warmupCache L app =
     (case (oa_cache app, oa_repository app, oa_service app) of
        (Some oc, Some rp, Some _) \<Rightarrow>
          tryCatch (andThen (ListRecent (lb_db L) rp 20) (\<lambda>recent.
             if recent \<noteq> [] then Warmup (lb_redis L) oc recent else ret ())) (ret ())
      | _ \<Rightarrow> ret ())"

definition start_router :: "'w order_app \<Rightarrow> 'w order_app" where
  "start_router app =
     (case oa_router app of
        None \<Rightarrow> app
      | Some rt \<Rightarrow> (case Events_Start rt (oa_console app) of (rt', con) \<Rightarrow> app\<lparr>oa_router := Some rt', oa_console := con\<rparr>))"

definition app_start :: "('r, 'c, 'd, 'row) libs \<Rightarrow> 'j json_api \<Rightarrow> nat \<Rightarrow> ('r, 'c, 'd, 'row, 'z) order_world_scheme order_app \<Rightarrow>
    (('r, 'c, 'd, 'row, 'z) order_world_scheme order_app, ('r, 'c, 'd, 'row, 'z) order_world_scheme) prog" where
  "app_start L J hardware_concurrency app =
     (if oa_started app then ret app
      else if \<not> oa_loop app then throw RuntimeError
      else andThen (initStorage L (configureHttpServer hardware_concurrency app)) (\<lambda>app1.
           andThen (initHandlers (initMessageQueue app1)) (\<lambda>app2.
           let app3 = initRoutes L J app2
           in andThen (app_warmupCache L app3) (\<lambda>_.
              andThen (from_sum (HttpServer_start (oa_server app3))) (\<lambda>_.
              ret ((start_router app3)\<lparr>oa_started := True\<rparr>))))))"

text \<open>\<open>stop\<close>: the router and its consumer, then the server and the pool, which are recorded as calls.\<close>

datatype stop_call = StopHttpServer | ShutdownPool

definition app_stop :: "'w order_app \<Rightarrow> 'w order_app \<times> stop_call list" where
  "app_stop app =
     (if \<not> oa_started app then (app, [])
      else let (router, con) =
             (case oa_router app of
                None \<Rightarrow> (None, oa_console app)
              | Some rt \<Rightarrow>
                  (case Events_Stop rt (oa_console app) of (rt1, con1) \<Rightarrow>
                     case er_consumer rt1 of
                       None \<Rightarrow> (Some rt1, con1)
                     | Some c \<Rightarrow>
                         if ec_running c then (case Consumer_Stop c con1 of (c', con2) \<Rightarrow> (Some (rt1\<lparr>er_consumer := Some c'\<rparr>), con2))
                         else (Some rt1, con1)))
           in (app\<lparr>oa_router := router, oa_console := con, oa_started := False\<rparr>, [StopHttpServer, ShutdownPool]))"

section \<open>\<open>main\<close>\<close>

text \<open>Up to the call of \<open>loop()\<close>: the started application, or the exit code.\<close>

definition main_boot :: "('r, 'c, 'd, 'row) libs \<Rightarrow> 'j json_api \<Rightarrow> 'n yaml_api \<Rightarrow> fs_api \<Rightarrow> nat \<Rightarrow> string option \<Rightarrow> string list \<Rightarrow>
    (int + ('r, 'c, 'd, 'row, 'z) order_world_scheme order_app, ('r, 'c, 'd, 'row, 'z) order_world_scheme) prog" where
  "main_boot L J Y fs hardware_concurrency env argv =
     tryCatch
       (andThen (from_sum (ResolveConfigPath fs env argv)) (\<lambda>configPath.
        andThen (from_sum (FromConfig Y hardware_concurrency configPath)) (\<lambda>options.
        andThen (app_start L J hardware_concurrency (OrderApplication_new True options)) (\<lambda>app.
        ret (Inr app)))))
       (ret (Inl 1))"

section \<open>Lemmas: booting\<close>

definition app_repo :: order_repo where
  "app_repo = \<lparr>rp_tableName = ''orders'', rp_schemaEnsured = True\<rparr>"

text \<open>
  A MySQL server that accepts connections, and for which neither connecting, nor creating a table
  that is there, nor listing recent orders changes the table; the list has rows of the table.
\<close>

definition sql_starts :: "('c, 'd, 'row) db_api \<Rightarrow> ('d \<Rightarrow> string \<Rightarrow> order_record option) \<Rightarrow> bool" where
  "sql_starts api sdb \<longleftrightarrow>
     (\<forall>url user password d. \<exists>h d1. drv_connect (da_sql api) url user password d = (Inr (Some h), d1) \<and> sdb d1 = sdb d) \<and>
     (\<forall>h db d. \<exists>d1. drv_setSchema (da_sql api) h db d = (Inr (), d1) \<and> sdb d1 = sdb d) \<and>
     (\<forall>h d. sdb (snd (drv_executeUpdate (da_sql api) h (schema_sql (app_repo\<lparr>rp_schemaEnsured := False\<rparr>)) d)) = sdb d) \<and>
     (\<forall>h n d. sdb (snd (drv_executeQuery (da_sql api) h (BuildSelectRecentSQL app_repo n) d)) = sdb d \<and>
        (\<forall>rows. fst (drv_executeQuery (da_sql api) h (BuildSelectRecentSQL app_repo n) d) = Inr (Some rows) \<longrightarrow>
           (\<forall>row\<in>set rows. \<exists>r. row_holds (da_row api) row r)))"

definition redis_starts :: "'r redis_api \<Rightarrow> ('r \<Rightarrow> string \<Rightarrow> string option) \<Rightarrow> bool" where
  "redis_starts api rdb \<longleftrightarrow> (\<forall>h p r. fst (redis_connect api h p r) \<and> rdb (snd (redis_connect api h p r)) = rdb r)"

lemma connect_clients_ok:
  assumes "redis_starts api rdb" and "connect_clients api (RedisClient_new host port []) n r = (cs, r')"
  shows "length cs = n \<and> list_all RedisClient_IsConnected cs \<and> rdb r' = rdb r"
  using assms(2)
proof (induction n arbitrary: cs r)
  case (Suc n)
  obtain r1 where r1: "redis_connect api (c_str host) port r = (True, r1)" "rdb r1 = rdb r"
    using assms(1) unfolding redis_starts_def by (metis (full_types) prod.collapse)
  obtain cs1 where "connect_clients api (RedisClient_new host port []) n r1 = (cs1, r')" "cs = (RedisClient_new host port [])\<lparr>rd_context := CtxGood\<rparr> # cs1"
    using Suc.prems r1(1) by (auto simp: RedisClient_Connect_def RedisClient_new_def RedisClient_Close_def split: prod.splits)
  with Suc.IH [of r1 cs1] r1(2) show ?case by (simp add: RedisClient_IsConnected_def)
qed simp

lemma open_ok:
  assumes "sql_starts api sdb"
  obtains h d1 where "MySQLConn_Open (da_sql api) 3 (MySQLConn_new info, d) = Returns True (\<lparr>mc_info = info, mc_conn = Some h, mc_alive = True\<rparr>, d1)"
    and "sdb d1 = sdb d"
proof -
  obtain h d1 where h: "drv_connect (da_sql api) (mi_url info) (mi_user info) (mi_password info) d = (Inr (Some h), d1)" "sdb d1 = sdb d"
    using assms unfolding sql_starts_def by blast
  obtain d2 where d2: "drv_setSchema (da_sql api) h (mi_database info) d1 = (Inr (), d2)" "sdb d2 = sdb d1"
    using assms unfolding sql_starts_def by blast
  have "MySQLConn_Open (da_sql api) 3 (MySQLConn_new info, d) = Returns True (\<lparr>mc_info = info, mc_conn = Some h, mc_alive = True\<rparr>, d2)"
    using h(1) d2(1) by (simp add: numeral_3_eq_3 open_once_def MySQLConn_new_def)
  with that h(2) d2(2) show thesis by simp
qed

lemma connections_ok:
  assumes "sql_starts api sdb"
  shows "\<exists>cs d'. CreateInitialConnections (da_sql api) info n d = Returns cs d' \<and> length cs = n \<and> list_all (\<lambda>c. mc_alive c \<and> mc_conn c \<noteq> None) cs \<and> sdb d' = sdb d"
proof (induction n arbitrary: d)
  case (Suc n)
  obtain h d1 where "MySQLConn_Open (da_sql api) 3 (MySQLConn_new info, d) = Returns True (\<lparr>mc_info = info, mc_conn = Some h, mc_alive = True\<rparr>, d1)" "sdb d1 = sdb d"
    by (rule open_ok [OF assms])
  with Suc.IH [of d1] show ?case by (auto simp: andThen_def ret_def)
qed simp

lemma init_mysql_ok:
  assumes "sql_starts api sdb"
  obtains p where "init_mysql (da_sql api) info w = Returns () (w\<lparr>ow_pool := p\<rparr>)" and "pool_good p" and "sdb (mp_driver p) = sdb (mp_driver (ow_pool w))"
proof -
  obtain cs d' where cs: "CreateInitialConnections (da_sql api) info 4 (mp_driver (ow_pool w)) = Returns cs d'" "length cs = 4"
      "list_all (\<lambda>c. mc_alive c \<and> mc_conn c \<noteq> None) cs" "sdb d' = sdb (mp_driver (ow_pool w))"
    using connections_ok [OF assms] by blast
  let ?p = "\<lparr>mp_heap = cs, mp_conns = [0..<4], mp_workers = SpawnWorkerThreads [0..<4], mp_queue = BlockingQueue_new, mp_driver = d',
      mp_keepalive = True, mp_stopping = None, mp_next = 0, mp_accepted = [], mp_taken = [], mp_answers = []\<rparr>"
  have "init_mysql (da_sql api) info w = Returns () (w\<lparr>ow_pool := ?p\<rparr>)"
    using cs(1,2) by (simp add: init_mysql_def InitPool_def andThen_def)
  moreover have "pool_good ?p"
    using cs(2,3) by (auto simp: pool_good_def SpawnWorkerThreads_def BlockingQueue_new_def list_all_iff upt_rec)
  ultimately show thesis using that [of ?p] cs(4) by simp
qed

text \<open>One statement on a good pool, whatever the server answers.\<close>

lemma db_update_any:
  assumes "pool_good (ow_pool w)" and "\<And>h. P (snd (drv_executeUpdate (da_sql api) h sql (mp_driver (ow_pool w))))"
  obtains b p where "db_update api sql w = Returns b (w\<lparr>ow_pool := p, ow_turn := Suc (ow_turn w)\<rparr>)" and "pool_good p" and "P (mp_driver p)"
proof -
  let ?op = "\<lparr>so_kind = Update, so_sql = sql\<rparr>" and ?d = "mp_driver (ow_pool w)"
  obtain c h p where c: "mc_conn c = Some h" and p: "mp_driver p = snd (SQLOperation_Execute (da_sql api) ?op c ?d)" "pool_good p"
      and run: "db_call (da_sql api) Update sql w = Returns (fst (SQLOperation_Execute (da_sql api) ?op c ?d)) (w\<lparr>ow_pool := p, ow_turn := Suc (ow_turn w)\<rparr>)"
    by (rule db_call_run [OF assms(1), of "da_sql api" Update sql])
  have "snd (SQLOperation_Execute (da_sql api) ?op c ?d) = snd (drv_executeUpdate (da_sql api) h sql ?d)"
    using c by (auto simp: SQLOperation_Execute_def MySQLConn_ExecuteUpdate_def catch_sql_def split: prod.splits sum.splits cpp_error.splits)
  with that p run assms(2) [of h] show thesis by (simp add: db_update_def andThen_run ret_run)
qed

lemma db_query_any:
  assumes "pool_good (ow_pool w)" and "\<And>h. P (snd (drv_executeQuery (da_sql api) h sql (mp_driver (ow_pool w))))"
    and "\<And>h rows. fst (drv_executeQuery (da_sql api) h sql (mp_driver (ow_pool w))) = Inr (Some rows) \<Longrightarrow> Q rows"
  obtains rs p where "db_query api sql w = Returns rs (w\<lparr>ow_pool := p, ow_turn := Suc (ow_turn w)\<rparr>)" and "pool_good p" and "P (mp_driver p)"
    and "pred_option Q rs"
proof -
  let ?op = "\<lparr>so_kind = Query, so_sql = sql\<rparr>" and ?d = "mp_driver (ow_pool w)"
  obtain c h p where c: "mc_conn c = Some h" and p: "mp_driver p = snd (SQLOperation_Execute (da_sql api) ?op c ?d)" "pool_good p"
      and run: "db_call (da_sql api) Query sql w = Returns (fst (SQLOperation_Execute (da_sql api) ?op c ?d)) (w\<lparr>ow_pool := p, ow_turn := Suc (ow_turn w)\<rparr>)"
    by (rule db_call_run [OF assms(1), of "da_sql api" Query sql])
  obtain x d1 where x: "drv_executeQuery (da_sql api) h sql ?d = (x, d1)" by (rule prod.exhaust)
  have ex: "SQLOperation_Execute (da_sql api) ?op c ?d = (AnswerQuery (case x of Inr rs \<Rightarrow> rs | Inl _ \<Rightarrow> None), d1)"
    using c x by (auto simp: SQLOperation_Execute_def MySQLConn_ExecuteQuery_def catch_sql_def split: sum.splits cpp_error.splits)
  have "pred_option Q (case x of Inr rs \<Rightarrow> rs | Inl _ \<Rightarrow> None)"
    using assms(3) [of h] x by (auto split: sum.splits simp: pred_option_def elim: option.set_cases)
  with that p run ex x assms(2) [of h] show thesis by (simp add: db_query_def andThen_run ret_run query_rows_def)
qed

lemma ParseMany_holds: "\<forall>row\<in>set rows. \<exists>r. row_holds ra row r \<Longrightarrow> \<exists>rs. ParseMany ra rows = Inr rs"
  by (induction rows) (auto dest!: ParseSingle_holds)

text \<open>Warming the cache up writes order keys only.\<close>

definition kept_keys :: "order_cache \<Rightarrow> (string \<Rightarrow> string option) \<Rightarrow> (string \<Rightarrow> string option) \<Rightarrow> bool" where
  "kept_keys oc kv kv' \<longleftrightarrow> (\<forall>k. (\<forall>i. k \<noteq> c_str (buildOrderKey oc i)) \<longrightarrow> kv' k = kv k)"

lemma Warmup_run:
  assumes "world_ok L rp rdb sdb w" and "stores rdb sdb w = (kv, rows, msgs)" and "oc_pool oc"
  shows "\<exists>w' kv'. Warmup (lb_redis L) oc rs w = Returns () w' \<and> world_ok L rp rdb sdb w' \<and> same_clock w' w \<and> stores rdb sdb w' = (kv', rows, msgs) \<and> kept_keys oc kv kv'"
  using assms(1,2)
proof (induction rs arbitrary: w kv)
  case Nil
  then show ?case by (auto simp: ret_def same_clock_def kept_keys_def)
next
  case (Cons r rs)
  obtain w1 where w1: "PutOrder (lb_redis L) oc r w = Returns True w1" "world_ok L rp rdb sdb w1" "same_clock w1 w"
      "stores rdb sdb w1 = (kv(c_str (buildOrderKey oc (or_orderId r)) \<mapsto> c_str (serializeOrder r)), rows, msgs)"
    by (rule sv_put [OF Cons.prems assms(3)])
  from Cons.IH [OF w1(2,4)] w1(1,3) show ?case by (fastforce simp: andThen_run same_clock_def kept_keys_def)
qed

lemma app_warmup_run:
  assumes "world_ok L app_repo rdb sdb w" and "stores rdb sdb w = (kv, rows, msgs)" and "oc_pool oc" and "sql_starts (lb_db L) sdb"
    and "oa_cache app = Some oc" and "oa_repository app = Some app_repo" and "oa_service app = Some s"
  shows "\<exists>w' kv'. app_warmupCache L app w = Returns () w' \<and> world_ok L app_repo rdb sdb w' \<and> same_clock w' w \<and>
     stores rdb sdb w' = (kv', rows, msgs) \<and> kept_keys oc kv kv'"
proof -
  let ?sql = "BuildSelectRecentSQL app_repo 20" and ?Q = "\<lambda>rws. \<forall>row\<in>set rws. \<exists>r. row_holds (da_row (lb_db L)) row r"
  have good: "pool_good (ow_pool w)" using assms(1) by (simp add: world_ok_def)
  have st: "sdb (snd (drv_executeQuery (da_sql (lb_db L)) h ?sql (mp_driver (ow_pool w)))) = sdb (mp_driver (ow_pool w))"
      "fst (drv_executeQuery (da_sql (lb_db L)) h ?sql (mp_driver (ow_pool w))) = Inr (Some rws) \<Longrightarrow> ?Q rws" for h rws
    using assms(4) unfolding sql_starts_def by blast+
  obtain rs p where q: "db_query (lb_db L) ?sql w = Returns rs (w\<lparr>ow_pool := p, ow_turn := Suc (ow_turn w)\<rparr>)" "pool_good p"
      "sdb (mp_driver p) = sdb (mp_driver (ow_pool w))" "pred_option ?Q rs"
    by (rule db_query_any [OF good, where P = "\<lambda>d. sdb d = sdb (mp_driver (ow_pool w))" and Q = ?Q and api = "lb_db L" and sql = ?sql, OF st])
  let ?w1 = "w\<lparr>ow_pool := p, ow_turn := Suc (ow_turn w)\<rparr>"
  have w1: "world_ok L app_repo rdb sdb ?w1" "stores rdb sdb ?w1 = (kv, rows, msgs)" "same_clock ?w1 w"
    using assms(1,2) q(2,3) by (simp_all add: world_ok_def stores_def same_clock_def pool_ready_def)
  obtain recent where recent: "ListRecent (lb_db L) app_repo 20 w = Returns recent ?w1"
  proof (cases rs)
    case None
    with q(1) that show ?thesis by (simp add: ListRecent_def parse_list_def andThen_run ret_run)
  next
    case (Some rws)
    with q(4) have "?Q rws" by simp
    then obtain recs where "ParseMany (da_row (lb_db L)) rws = Inr recs" using ParseMany_holds by blast
    with Some q(1) that show ?thesis by (simp add: ListRecent_def parse_list_def andThen_run from_sum_run)
  qed
  show ?thesis
  proof (cases "recent = []")
    case True
    then have "app_warmupCache L app w = Returns () ?w1" using recent assms(5-7) by (simp add: app_warmupCache_def tryCatch_def andThen_def ret_def)
    with w1 show ?thesis by (auto simp: kept_keys_def)
  next
    case False
    obtain w2 kv2 where w2: "Warmup (lb_redis L) oc recent ?w1 = Returns () w2" "world_ok L app_repo rdb sdb w2" "same_clock w2 ?w1"
        "stores rdb sdb w2 = (kv2, rows, msgs)" "kept_keys oc kv kv2"
      using Warmup_run [OF w1(1,2) assms(3)] by blast
    have "app_warmupCache L app w = Returns () w2" using recent False w2(1) assms(5-7) by (simp add: app_warmupCache_def tryCatch_def andThen_def)
    moreover have "same_clock w2 w" using w2(3) w1(3) by (simp add: same_clock_def)
    ultimately show ?thesis using w2 by blast
  qed
qed

text \<open>The routes of a started application with all its parts.\<close>

definition serves_orders :: "('r, 'c, 'd, 'row) libs \<Rightarrow> 'j json_api \<Rightarrow> server_options \<Rightarrow> ('r, 'c, 'd, 'row, 'z) order_world_scheme http_server \<Rightarrow> bool" where
  "serves_orders L J q srv \<longleftrightarrow>
     plain_server srv \<and> hs_httpCallback srv = Some fallback_callback \<and>
     rt_handlers (hs_router srv) =
       [(kPost, ''/orders'') \<mapsto> as_handler (Create_handle L J (full_handler micro_id app_repo (app_cache q) True (mo_orderQueue (so_mq q)))),
        (kGet, ''/orders'') \<mapsto> as_handler (Query_handle L J (full_query app_repo (app_cache q)))] \<and>
     rt_callbacks (hs_router srv) = [(kGet, ''/health'') \<mapsto> health_callback] \<and>
     rt_regexHandlers (hs_router srv) = [] \<and> rt_regexCallbacks (hs_router srv) = []"

lemma FromConfig_valid: "FromConfig Y hc path = Inr q \<Longrightarrow> OrderServerOptions_validate q"
  by (auto simp: FromConfig_def Let_def split: option.splits if_splits)

text \<open>Storage of an application whose options were checked.\<close>

lemma initStorage_run:
  assumes "OrderServerOptions_validate (oa_options app)" and "ro_password (so_redis (oa_options app)) = []" and "0 < ro_poolSize (so_redis (oa_options app))"
    and "redis_serves (lb_redis L) rdb" and "sql_serves (lb_db L) app_repo sdb" and "redis_starts (lb_redis L) rdb" and "sql_starts (lb_db L) sdb"
    and "stores rdb sdb w = (kv, rows, msgs)"
  obtains w' where "initStorage L app w = Returns (app\<lparr>oa_repository := Some app_repo, oa_cache := Some (app_cache (oa_options app))\<rparr>) w'"
    and "world_ok L app_repo rdb sdb w'" and "same_clock w' w" and "stores rdb sdb w' = (kv, rows, msgs)"
proof -
  let ?q = "oa_options app" and ?rp = "app_repo\<lparr>rp_schemaEnsured := False\<rparr>"
  have valid: "DatabaseOptions_validate (so_database ?q)" "RedisOptions_validate (so_redis ?q)"
    using assms(1) by (simp_all add: OrderServerOptions_validate_def)
  obtain p where p: "init_mysql (da_sql (lb_db L)) (do_connInfo (so_database ?q)) w = Returns () (w\<lparr>ow_pool := p\<rparr>)" "pool_good p"
      "sdb (mp_driver p) = sdb (mp_driver (ow_pool w))"
    by (rule init_mysql_ok [OF assms(7)])
  let ?w1 = "w\<lparr>ow_pool := p\<rparr>"
  have good: "pool_good (ow_pool ?w1)" using p(2) by simp
  have st: "sdb (snd (drv_executeUpdate (da_sql (lb_db L)) h (schema_sql ?rp) (mp_driver (ow_pool ?w1)))) = sdb (mp_driver p)" for h
    using assms(7) unfolding sql_starts_def by simp
  obtain b p2 where p2: "db_update (lb_db L) (schema_sql ?rp) ?w1 = Returns b (?w1\<lparr>ow_pool := p2, ow_turn := Suc (ow_turn ?w1)\<rparr>)" "pool_good p2"
      "sdb (mp_driver p2) = sdb (mp_driver p)"
    by (rule db_update_any [OF good, where P = "\<lambda>d. sdb d = sdb (mp_driver p)", OF st])
  let ?w2 = "w\<lparr>ow_pool := p2, ow_turn := Suc (ow_turn w)\<rparr>"
  obtain cs r where cs: "RedisPool_new (lb_redis L) (ro_host (so_redis ?q)) (ro_port (so_redis ?q)) (ro_poolSize (so_redis ?q)) [] (rw_server ?w2) = (cs, r)"
    by (rule prod.exhaust)
  have c: "length cs = ro_poolSize (so_redis ?q)" "list_all RedisClient_IsConnected cs" "rdb r = rdb (rw_server w)"
    using connect_clients_ok [OF assms(6) cs [unfolded RedisPool_new_def]] by simp_all
  let ?w3 = "?w2\<lparr>rw_clients := cs, rw_server := r\<rparr>"
  have new: "OrderRepository_new True ''orders'' = Inr ?rp" by (simp add: OrderRepository_new_def app_repo_def)
  have ens: "EnsureSchema (lb_db L) ?rp ?w1 = Returns app_repo ?w2"
    using p2(1) by (simp add: EnsureSchema_def andThen_run ret_run) (simp add: app_repo_def)
  have red: "init_redis (lb_redis L) (so_redis ?q) ?w2 = Returns () ?w3" using cs assms(2) by (simp add: init_redis_def)
  have "initStorage L app w = Returns (app\<lparr>oa_repository := Some app_repo, oa_cache := Some (app_cache ?q)\<rparr>) ?w3"
    unfolding initStorage_def Let_def using valid by (simp add: andThen_run p(1) new from_sum_ret ens red ret_run)
  moreover have "cs \<noteq> []" using c(1) assms(3) by auto
  then have "world_ok L app_repo rdb sdb ?w3" using c(2) p2(2) assms(4,5) by (simp add: world_ok_def pool_ready_def list_all_iff)
  moreover have "stores rdb sdb ?w3 = (kv, rows, msgs)" "same_clock ?w3 w" using assms(8) c(3) p(3) p2(3) by (simp_all add: stores_def same_clock_def)
  ultimately show thesis using that [of ?w3] by blast
qed

lemma initHandlers_run:
  assumes "oa_repository a = Some rp" and "oa_cache a = Some oc" and "MQOptions_validate (so_mq (oa_options a))"
  obtains a2 rt where "initHandlers (initMessageQueue a) w = Returns a2 w"
    and "oa_create a2 = Some (full_handler micro_id rp oc True (mo_orderQueue (so_mq (oa_options a))))" and "oa_query a2 = Some (full_query rp oc)"
    and "oa_cache a2 = Some oc" and "oa_repository a2 = Some rp" and "oa_service a2 \<noteq> None" and "oa_server a2 = oa_server a" and "oa_threads a2 = oa_threads a"
    and "oa_router a2 = Some rt" and "\<not> er_running rt" and "er_consumer rt \<noteq> None"
proof -
  let ?a1 = "a\<lparr>oa_producer := True, oa_consumer := True\<rparr>"
  let ?iv = "InventoryService_new True True True" and ?key = "mo_orderQueue (so_mq (oa_options a))"
  let ?sv = "OrderService_new (Some rp) (Some oc) (Some ?iv) True"
  let ?a = "?a1\<lparr>oa_inventory := Some ?iv, oa_service := Some ?sv,
      oa_create := Some (full_handler micro_id rp oc True ?key), oa_query := Some (full_query rp oc)\<rparr>"
  have 1: "initMessageQueue a = ?a1" using assms(3) by (simp add: initMessageQueue_def)
  have 2: "initHandlers ?a1 w = Returns (init_router ?a) w"
    using assms(1,2) by (simp add: initHandlers_def Let_def ret_def full_handler_def full_query_def GenerateOrderId_def OrderService_new_def)
  obtain rt con where rt: "Initialize (MQEventRouter_new (Some (OrderEventConsumer_new True ?key)) True True True) (oa_console a) = (rt, con)"
    by (rule prod.exhaust)
  then have run: "\<not> er_running rt" "er_consumer rt \<noteq> None" using Initialize_handlers(5,6) by (metis fst_conv option.distinct(1))+
  have 3: "init_router ?a = ?a\<lparr>oa_router := Some rt, oa_console := con\<rparr>" using rt by (simp add: init_router_def)
  show thesis
    by (rule that [of "?a\<lparr>oa_router := Some rt, oa_console := con\<rparr>" rt]) (simp_all add: 1 2 3 assms(1,2) run)
qed

lemma initRoutes_run:
  assumes "oa_create a = Some h" and "oa_query a = Some k"
  shows "initRoutes L J a = a\<lparr>oa_server := HttpServer_Get ''/orders'' (as_handler (Query_handle L J k))
      (HttpServer_Post ''/orders'' (as_handler (Create_handle L J h)) (HttpServer_GetCallback ''/health'' health_callback (oa_server a)))\<rparr>"
  using assms by (simp add: initRoutes_def)

lemma start_router_run:
  assumes "oa_router a = Some rt" and "\<not> er_running rt" and "er_consumer rt \<noteq> None"
  shows "map_option er_running (oa_router (start_router a)) = Some True" "oa_server (start_router a) = oa_server a" "oa_threads (start_router a) = oa_threads a"
  using assms by (auto simp: start_router_def Events_Start_def split: prod.splits)

lemma boot_run:
  fixes w :: "('r, 'c, 'd, 'row, 'z) order_world_scheme"
  assumes "FromConfig Y hc path = Inr q" and "\<not> so_enableTLS q" and "ro_password (so_redis q) = []" and "0 < ro_poolSize (so_redis q)"
    and "redis_serves (lb_redis L) rdb" and "sql_serves (lb_db L) app_repo sdb" and "redis_starts (lb_redis L) rdb" and "sql_starts (lb_db L) sdb"
    and "stores rdb sdb w = (kv, rows, msgs)"
  shows "\<exists>app w' kv'. app_start L J hc (OrderApplication_new True q) w = Returns app w' \<and> oa_started app \<and> serves_orders L J q (oa_server app) \<and>
     map_option (\<lambda>rt. er_running rt) (oa_router app) = Some True \<and> 0 < oa_threads app \<and>
     world_ok L app_repo rdb sdb w' \<and> same_clock w' w \<and> stores rdb sdb w' = (kv', rows, msgs) \<and> kept_keys (app_cache q) kv kv'"
proof -
  let ?a0 = "configureHttpServer hc (OrderApplication_new True q) :: ('r, 'c, 'd, 'row, 'z) order_world_scheme order_app"
  have o: "oa_options ?a0 = q" by (simp add: configureHttpServer_def OrderApplication_new_def)
  have valid: "OrderServerOptions_validate q" using FromConfig_valid [OF assms(1)] .
  then have mq: "MQOptions_validate (so_mq q)" "0 < so_httpThreadNum q" by (simp_all add: OrderServerOptions_validate_def)
  have prem: "OrderServerOptions_validate (oa_options ?a0)" "ro_password (so_redis (oa_options ?a0)) = []" "0 < ro_poolSize (so_redis (oa_options ?a0))"
    using valid assms(3,4) by (simp_all add: o)
  obtain w1 where w1: "initStorage L ?a0 w = Returns (?a0\<lparr>oa_repository := Some app_repo, oa_cache := Some (app_cache (oa_options ?a0))\<rparr>) w1"
      "world_ok L app_repo rdb sdb w1" "same_clock w1 w" "stores rdb sdb w1 = (kv, rows, msgs)"
    by (rule initStorage_run [OF prem assms(5-9)])
  let ?a1 = "?a0\<lparr>oa_repository := Some app_repo, oa_cache := Some (app_cache q)\<rparr>"
  let ?h = "full_handler micro_id app_repo (app_cache q) True (mo_orderQueue (so_mq q)) :: ('r, 'c, 'd, 'row, 'z) order_world_scheme create_handler"
  have p1: "oa_repository ?a1 = Some app_repo" "oa_cache ?a1 = Some (app_cache q)" "MQOptions_validate (so_mq (oa_options ?a1))"
    using mq(1) by (simp_all add: o)
  obtain a2 rt where a2: "initHandlers (initMessageQueue ?a1) w1 = Returns a2 w1" "oa_create a2 = Some ?h" "oa_query a2 = Some (full_query app_repo (app_cache q))"
      "oa_cache a2 = Some (app_cache q)" "oa_repository a2 = Some app_repo" "oa_service a2 \<noteq> None" "oa_server a2 = oa_server ?a0" "oa_threads a2 = oa_threads ?a0"
      "oa_router a2 = Some rt" "\<not> er_running rt" "er_consumer rt \<noteq> None"
    by (rule initHandlers_run [OF p1, of w1]) (simp_all add: o)
  let ?a3 = "initRoutes L J a2"
  note r3 = initRoutes_run [OF a2(2,3), of L J]
  from a2(6) obtain s where s: "oa_service ?a3 = Some s" by (auto simp: r3)
  have p3: "oa_cache ?a3 = Some (app_cache q)" "oa_repository ?a3 = Some app_repo" using a2(4,5) by (simp_all add: r3)
  have oc: "oc_pool (app_cache q)" by (simp add: app_cache_def OrderCache_new_def)
  obtain w3 kv3 where w3: "app_warmupCache L ?a3 w1 = Returns () w3" "world_ok L app_repo rdb sdb w3" "same_clock w3 w1" "stores rdb sdb w3 = (kv3, rows, msgs)"
      "kept_keys (app_cache q) kv kv3"
    using app_warmup_run [OF w1(2,4) oc assms(8) p3 s] by blast
  have srv: "serves_orders L J q (oa_server ?a3)" "HttpServer_start (oa_server ?a3) = Inr ()"
    using assms(2) a2(7) by (simp_all add: r3 serves_orders_def plain_server_def HttpServer_Get_def HttpServer_Post_def HttpServer_GetCallback_def
        HttpServer_start_def registerHandler_def registerCallback_def configureHttpServer_def OrderApplication_new_def HttpServer_new_def Router_new_def fun_upd_twist)
  have "app_start L J hc (OrderApplication_new True q) w = Returns ((start_router ?a3)\<lparr>oa_started := True\<rparr>) w3"
    using w1(1) a2(1) w3(1) srv(2) unfolding app_start_def o
    by (simp add: andThen_run Let_def from_sum_ret ret_run) (simp add: OrderApplication_new_def)
  moreover have "0 < oa_threads ?a0" using mq(2) by (simp add: configureHttpServer_def OrderApplication_new_def GetThreadCount_def)
  moreover have "same_clock w3 w" using w1(3) w3(3) by (simp add: same_clock_def)
  moreover have "oa_router ?a3 = Some rt" "oa_threads ?a3 = oa_threads ?a0" using a2(8,9) by (simp_all add: r3)
  ultimately show ?thesis
    using w3 srv(1) start_router_run [of ?a3 rt, OF _ a2(10,11)] by (intro exI) (auto simp: comp_def)
qed

section \<open>Properties\<close>

text \<open>
  C13. The server boots. With a configuration that passes its checks, TLS off, at least one Redis
  connection and no password, and servers that accept connections, \<open>main\<close> gets to its event loop:
  the routes \<open>POST /orders\<close>, \<open>GET /orders\<close> and \<open>GET /health\<close> and the fallback are registered and no
  others, the message router runs, both pools are ready, the table is as it was and Redis has
  changed under order keys only. Without a configuration file, or with one that cannot be read or
  does not pass the checks, \<open>main\<close> exits with code 1 and no server was contacted.
\<close>

theorem main_boots:
  assumes "stores rdb sdb w = (kv, rows, msgs)"
  shows "(\<forall>path q. ResolveConfigPath fs env argv = Inr path \<and> FromConfig Y hc path = Inr q \<and> \<not> so_enableTLS q \<and>
      ro_password (so_redis q) = [] \<and> 0 < ro_poolSize (so_redis q) \<and>
      redis_serves (lb_redis L) rdb \<and> sql_serves (lb_db L) app_repo sdb \<and> redis_starts (lb_redis L) rdb \<and> sql_starts (lb_db L) sdb \<longrightarrow>
      (\<exists>app w' kv'. main_boot L J Y fs hc env argv w = Returns (Inr app) w' \<and> oa_started app \<and> serves_orders L J q (oa_server app) \<and>
         map_option (\<lambda>rt. er_running rt) (oa_router app) = Some True \<and>
         world_ok L app_repo rdb sdb w' \<and> stores rdb sdb w' = (kv', rows, msgs) \<and> kept_keys (app_cache q) kv kv')) \<and>
    ((\<exists>e. ResolveConfigPath fs env argv = Inl e) \<or> (\<exists>path e. ResolveConfigPath fs env argv = Inr path \<and> FromConfig Y hc path = Inl e) \<longrightarrow>
      main_boot L J Y fs hc env argv w = Returns (Inl 1) w)"
proof (intro conjI allI impI)
  fix path q
  assume a: "ResolveConfigPath fs env argv = Inr path \<and> FromConfig Y hc path = Inr q \<and> \<not> so_enableTLS q \<and>
      ro_password (so_redis q) = [] \<and> 0 < ro_poolSize (so_redis q) \<and>
      redis_serves (lb_redis L) rdb \<and> sql_serves (lb_db L) app_repo sdb \<and> redis_starts (lb_redis L) rdb \<and> sql_starts (lb_db L) sdb"
  then obtain app w' kv' where "app_start L J hc (OrderApplication_new True q) w = Returns app w'" "oa_started app" "serves_orders L J q (oa_server app)"
      "map_option (\<lambda>rt. er_running rt) (oa_router app) = Some True" "world_ok L app_repo rdb sdb w'" "stores rdb sdb w' = (kv', rows, msgs)" "kept_keys (app_cache q) kv kv'"
    using boot_run [where Y = Y and hc = hc and path = path and q = q and L = L and rdb = rdb and sdb = sdb and w = w and J = J] assms by blast
  with a show "\<exists>app w' kv'. main_boot L J Y fs hc env argv w = Returns (Inr app) w' \<and> oa_started app \<and> serves_orders L J q (oa_server app) \<and>
         map_option (\<lambda>rt. er_running rt) (oa_router app) = Some True \<and>
         world_ok L app_repo rdb sdb w' \<and> stores rdb sdb w' = (kv', rows, msgs) \<and> kept_keys (app_cache q) kv kv'"
    by (auto simp: main_boot_def from_sum_ret andThen_run tryCatch_def ret_run)
next
  assume a: "(\<exists>e. ResolveConfigPath fs env argv = Inl e) \<or> (\<exists>path e. ResolveConfigPath fs env argv = Inr path \<and> FromConfig Y hc path = Inl e)"
  have "ResolveConfigPath fs env argv = Inl e \<Longrightarrow> e = RuntimeError" "FromConfig Y hc path = Inl e \<Longrightarrow> e = RuntimeError" for e path
    by (auto simp: ResolveConfigPath_def FromConfig_def Let_def split: if_splits option.splits)
  with a show "main_boot L J Y fs hc env argv w = Returns (Inl 1) w"
    by (fastforce simp: main_boot_def tryCatch_def andThen_def from_sum_def throw_def ret_def)
qed

section \<open>Witness\<close>

text \<open>A configuration file with the four values that have no usable default, and a file system that has it.\<close>

definition sample_yaml :: "string yaml_api" where
  "sample_yaml =
     \<lparr>ym_LoadFile = (\<lambda>path. Some []), ym_IsMap = (\<lambda>n. True), ym_child = (\<lambda>n k. Some (if n = [] then k else n @ CHR ''.'' # k)),
      ym_string = map_of [(''mq.url'', ''amqp://mq/''), (''database.connInfo.url'', ''tcp://db''), (''database.connInfo.user'', ''root''),
        (''database.connInfo.database'', ''order_db'')],
      ym_bool = (\<lambda>n. None), ym_int = (\<lambda>n. None), ym_uint = (\<lambda>n. None), ym_size = (\<lambda>n. None)\<rparr>"

definition sample_fs :: fs_api where
  "sample_fs = \<lparr>fs_canonical = (\<lambda>p. None), fs_exists = (\<lambda>p. False), fs_current_path = Some ''/'', fs_weakly_canonical = Some\<rparr>"

definition sample_options :: server_options where
  "sample_options =
     (let q = OrderServerOptions_new; db = so_database q
      in q\<lparr>so_httpThreadNum := 4, so_mq := (so_mq q)\<lparr>mo_url := ''amqp://mq/''\<rparr>,
           so_database := db\<lparr>do_connInfo := (do_connInfo db)\<lparr>mi_url := ''tcp://db'', mi_user := ''root'', mi_database := ''order_db''\<rparr>\<rparr>\<rparr>)"

lemma sample_config: "FromConfig sample_yaml 4 path = Inr sample_options"
  by code_simp

lemma split_on_first: "split_on d s ! 0 = takeWhile (\<lambda>c. c \<noteq> d) s"
proof (induction s)
  case (Cons c s)
  then show ?case by (cases "split_on d s"; cases s) (auto split: list.splits if_splits)
qed simp

lemma map_schema: "map_update (schema_sql (app_repo\<lparr>rp_schemaEnsured := False\<rparr>)) d = (Inl SqlException, d)"
  unfolding map_update_def Let_def split_on_first
  by (simp add: schema_sql_def insert_head_def app_repo_def the_repo_def del: split_on.simps)

lemma map_recent: "map_query (BuildSelectRecentSQL app_repo n) d = (Inl SqlException, d)"
  unfolding map_query_def Let_def split_on_first
  by (simp add: BuildSelectRecentSQL_def app_repo_def del: split_on.simps)

lemma map_sql_starts: "sql_starts map_sql (\<lambda>d. d)"
  by (simp add: sql_starts_def map_sql_def map_schema map_recent)

lemma map_redis_starts: "redis_starts map_redis (\<lambda>m. m)"
  by (simp add: redis_starts_def map_redis_def)

lemma app_repo_sample: "app_repo = the_repo"
  by (simp add: app_repo_def the_repo_def)

lemma sample_options_ok: "\<not> so_enableTLS sample_options" "ro_password (so_redis sample_options) = []" "0 < ro_poolSize (so_redis sample_options)"
  by (simp_all add: sample_options_def OrderServerOptions_new_def Let_def)

theorem main_boots_witness:
  "\<exists>app w' kv'. main_boot sample_libs sample_json sample_yaml sample_fs 4 None [''order_server'', ''--config'', ''c.yaml''] (sample_shop Map.empty) = Returns (Inr app) w' \<and>
     oa_started app \<and> serves_orders sample_libs sample_json sample_options (oa_server app) \<and> stores (\<lambda>d. d) (\<lambda>d. d) w' = (kv', Map.empty, [])"
proof -
  have path: "ResolveConfigPath sample_fs None [''order_server'', ''--config'', ''c.yaml''] = Inr ''c.yaml''"
    by (simp add: ResolveConfigPath_def sample_fs_def)
  have serve: "redis_serves (lb_redis sample_libs) (\<lambda>d. d)" "sql_serves (lb_db sample_libs) app_repo (\<lambda>d. d)" "redis_starts (lb_redis sample_libs) (\<lambda>d. d)"
      "sql_starts (lb_db sample_libs) (\<lambda>d. d)"
    using map_redis_serves map_sql_serves map_redis_starts map_sql_starts by (simp_all add: sample_libs_def app_repo_sample)
  show ?thesis
    using main_boots [where fs = sample_fs and env = None and argv = "[''order_server'', ''--config'', ''c.yaml'']" and Y = sample_yaml and hc = 4
        and L = sample_libs and J = sample_json, OF sample_shop_ok(2) [of Map.empty]] path sample_config sample_options_ok serve
    by blast
qed

end
