(* ===== verification/Log_Sink.thy ===== *)
theory Log_Sink
  imports Queues Byte_Buffer Cpp_Numbers "HOL-Library.Sublist"
begin

text \<open>
  The logger: \<open>src/logger/AsyncFileSink.cpp\<close> and \<open>src/logger/Logger.cpp\<close>. Producers put finished
  lines into the lock-free queue of \<open>Queues\<close>; a worker thread moves them through a \<open>Buffer\<close> into
  the file. The threads are a step relation; the outcome of \<open>write\<close> and the clock are chosen by
  the environment.
\<close>

section \<open>The asynchronous sink\<close>

record sink_options =
  so_sync_bytes :: nat
  so_batch_iov_max :: nat
  so_sync_interval_ms :: int

text \<open>
  The worker is before the test of its loop, before the test whether to write, in the last drain,
  or finished. \<open>sk_file\<close> holds the bytes appended to the file since it was opened and \<open>sk_durable\<close>
  what the last \<open>fdatasync\<close> or \<open>fsync\<close> has covered.
\<close>

datatype sink_pc = WTop | WSync | WDrain | WDone

record sink =
  sk_queue :: "string atomic_queue"
  sk_buf :: buffer
  sk_since :: nat
  sk_next :: int
  sk_pc :: sink_pc
  sk_running :: bool
  sk_open :: bool
  sk_file :: string
  sk_durable :: string

definition sync_limit :: nat where
  "sync_limit = 64 * 1024"

definition Options_new :: sink_options where
  "Options_new = \<lparr>so_sync_bytes = 4 * 1024 * 1024, so_batch_iov_max = 1024, so_sync_interval_ms = 1000\<rparr>"

definition AsyncFileSink_new :: "bool \<Rightarrow> sink_options \<Rightarrow> int \<Rightarrow> cpp_error + sink" where
  "AsyncFileSink_new opened opt now =
     (if \<not> opened then Inl RuntimeError
      else Inr \<lparr>sk_queue = AtomicQueue_new [], sk_buf = Buffer_new sync_limit, sk_since = 0, sk_next = now + so_sync_interval_ms opt,
                sk_pc = WTop, sk_running = True, sk_open = True, sk_file = [], sk_durable = []\<rparr>)"

definition sink_submit :: "string \<Rightarrow> nat \<Rightarrow> sink \<Rightarrow> sink" where
  "sink_submit line n s = s\<lparr>sk_queue := enqueue line n (sk_queue s)\<rparr>"

text \<open>\<open>write\<close> on the file, which is open for appending: an error, or the number of bytes taken.\<close>

definition sys_write :: "errno + nat \<Rightarrow> string \<Rightarrow> string \<Rightarrow> string" where
  "sys_write r data file = (case r of Inl e \<Rightarrow> file | Inr n \<Rightarrow> file @ take n data)"

definition flush_all_now :: "(string \<Rightarrow> errno + nat) \<Rightarrow> sink \<Rightarrow> sink" where
  "flush_all_now wr s =
     (case drain (2 ^ 64 - 1) (sk_queue s) of
        (tmp, q) \<Rightarrow>
          let file = fold (\<lambda>line. sys_write (wr line) line) tmp (sk_file s)
          in s\<lparr>sk_queue := q, sk_file := file, sk_durable := file\<rparr>)"

text \<open>The worker: the top of its loop, the rest of the body, and the code behind the loop.\<close>

definition sink_take :: "sink \<Rightarrow> sink" where
  "sink_take s =
     (if \<not> sk_running s then s\<lparr>sk_pc := WDrain\<rparr>
      else case dequeue (sk_queue s) of
             None \<Rightarrow> s\<lparr>sk_pc := WSync\<rparr>
           | Some (line, q) \<Rightarrow>
               s\<lparr>sk_queue := q, sk_buf := Buffer_append line (sk_buf s), sk_since := sk_since s + length line, sk_pc := WSync\<rparr>)"

definition sink_sync :: "sink_options \<Rightarrow> int \<Rightarrow> errno + nat \<Rightarrow> sink \<Rightarrow> sink" where
  "sink_sync opt now r s =
     (if sync_limit \<le> readableBytes (sk_buf s) \<or> so_sync_bytes opt \<le> sk_since s \<or> sk_next s \<le> now
      then let file = sys_write r (writeFd_offer (sk_buf s)) (sk_file s)
           in s\<lparr>sk_file := file, sk_buf := retrieveAll (sk_buf s), sk_durable := file, sk_since := 0,
                sk_next := now + so_sync_interval_ms opt, sk_pc := WTop\<rparr>
      else s\<lparr>sk_pc := WTop\<rparr>)"

definition sink_drain :: "errno + nat \<Rightarrow> sink \<Rightarrow> sink" where
  "sink_drain r s =
     (case dequeue (sk_queue s) of
        Some (line, q) \<Rightarrow> s\<lparr>sk_queue := q, sk_buf := Buffer_append line (sk_buf s)\<rparr>
      | None \<Rightarrow>
          let file = (if 0 < readableBytes (sk_buf s) then sys_write r (writeFd_offer (sk_buf s)) (sk_file s) else sk_file s)
          in s\<lparr>sk_file := file, sk_durable := file, sk_pc := WDone\<rparr>)"

text \<open>
  \<open>K data r\<close>: the kernel may answer a \<open>write\<close> of \<open>data\<close> with \<open>r\<close>. \<open>stop\<close> clears the flag, waits
  for the worker and closes the file; \<open>submit\<close> is the two halves of \<open>enqueue\<close>.
\<close>

inductive sink_worker :: "sink_options \<Rightarrow> (string \<Rightarrow> errno + nat \<Rightarrow> bool) \<Rightarrow> sink \<Rightarrow> sink \<Rightarrow> bool" for opt K where
  at_top: "sk_pc s = WTop \<Longrightarrow> sink_worker opt K s (sink_take s)"
| at_sync: "sk_pc s = WSync \<Longrightarrow> K (writeFd_offer (sk_buf s)) r \<Longrightarrow> sink_worker opt K s (sink_sync opt now r s)"
| at_drain: "sk_pc s = WDrain \<Longrightarrow> K (writeFd_offer (sk_buf s)) r \<Longrightarrow> sink_worker opt K s (sink_drain r s)"

inductive sink_step :: "sink_options \<Rightarrow> (string \<Rightarrow> errno + nat \<Rightarrow> bool) \<Rightarrow> sink \<Rightarrow> sink \<Rightarrow> bool" for opt K where
  by_worker: "sink_worker opt K s t \<Longrightarrow> sink_step opt K s t"
| submit_exchange: "aq_heap (sk_queue s) n = None \<Longrightarrow> sink_step opt K s (s\<lparr>sk_queue := enqueue_exchange line n (sk_queue s)\<rparr>)"
| submit_link: "(p, n) \<in> aq_pending (sk_queue s) \<Longrightarrow> sink_step opt K s (s\<lparr>sk_queue := enqueue_link p n (sk_queue s)\<rparr>)"
| stop_flag: "sink_step opt K s (s\<lparr>sk_running := False\<rparr>)"
| stop_close: "\<not> sk_running s \<Longrightarrow> sk_pc s = WDone \<Longrightarrow> sink_step opt K s (s\<lparr>sk_open := False\<rparr>)"

inductive_cases sink_workerE: "sink_worker opt K s t"
inductive_cases sink_stepE: "sink_step opt K s t"

definition sink_init :: "sink_options \<Rightarrow> sink \<Rightarrow> bool" where
  "sink_init opt s \<longleftrightarrow> (\<exists>now. AsyncFileSink_new True opt now = Inr s)"

section \<open>\<open>Logger\<close>\<close>

datatype log_level = TRACE | DEBUG | INFO | WARN | ERROR | FATAL

primrec level_rank :: "log_level \<Rightarrow> nat" where
  "level_rank TRACE = 0"
| "level_rank DEBUG = 1"
| "level_rank INFO = 2"
| "level_rank WARN = 3"
| "level_rank ERROR = 4"
| "level_rank FATAL = 5"

lemma level_rank_inject: "level_rank a = level_rank b \<Longrightarrow> a = b"
  by (cases a; cases b) simp_all

instantiation log_level :: linorder
begin

definition less_eq_log_level :: "log_level \<Rightarrow> log_level \<Rightarrow> bool" where
  "less_eq_log_level a b \<longleftrightarrow> level_rank a \<le> level_rank b"

definition less_log_level :: "log_level \<Rightarrow> log_level \<Rightarrow> bool" where
  "less_log_level a b \<longleftrightarrow> level_rank a < level_rank b"

instance
  by standard (auto simp: less_eq_log_level_def less_log_level_def intro: level_rank_inject)

end

primrec levelToString :: "log_level \<Rightarrow> string" where
  "levelToString TRACE = ''TRACE''"
| "levelToString DEBUG = ''DEBUG''"
| "levelToString INFO = ''INFO''"
| "levelToString WARN = ''WARN''"
| "levelToString ERROR = ''ERROR''"
| "levelToString FATAL = ''FATAL''"

text \<open>A fresh logger writes to the console. \<open>lg_cout\<close> is what went to \<open>std::cout\<close>, \<open>lg_fileOutput\<close> what went to the file.\<close>

record logger =
  lg_level :: log_level
  lg_console :: bool
  lg_fileOutput :: "string option"
  lg_sink :: "sink option"
  lg_cout :: string

definition Logger_new :: logger where
  "Logger_new = \<lparr>lg_level = INFO, lg_console = True, lg_fileOutput = None, lg_sink = None, lg_cout = []\<rparr>"

definition setOutputToConsole :: "bool \<Rightarrow> logger \<Rightarrow> logger" where
  "setOutputToConsole enable lg = lg\<lparr>lg_console := enable\<rparr>"

definition setLogLevel :: "log_level \<Rightarrow> logger \<Rightarrow> logger" where
  "setLogLevel level lg = lg\<lparr>lg_level := level\<rparr>"

definition setOutputToFile :: "bool \<Rightarrow> logger \<Rightarrow> logger" where
  "setOutputToFile good lg = lg\<lparr>lg_sink := None, lg_fileOutput := (if good then Some [] else None), lg_console := True\<rparr>"

definition setOutputToFileAsync :: "bool \<Rightarrow> int \<Rightarrow> logger \<Rightarrow> logger" where
  "setOutputToFileAsync opened now lg =
     (case AsyncFileSink_new opened Options_new now of
        Inr s \<Rightarrow> lg\<lparr>lg_fileOutput := None, lg_sink := Some s, lg_console := True\<rparr>
      | Inl e \<Rightarrow> lg\<lparr>lg_fileOutput := None, lg_sink := None, lg_console := True\<rparr>)"

definition basename_view :: "string \<Rightarrow> string" where
  "basename_view path = rev (takeWhile (\<lambda>c. c \<noteq> CHR ''/'' \<and> c \<noteq> CHR 0x5C) (rev path))"

text \<open>What is behind the last \<open>::\<close>.\<close>

fun after_scope :: "string \<Rightarrow> string option" where
  "after_scope (c # d # s) =
     (case after_scope (d # s) of
        Some t \<Rightarrow> Some t
      | None \<Rightarrow> if c = CHR '':'' \<and> d = CHR '':'' then Some s else None)"
| "after_scope _ = None"

definition unqual_func :: "string \<Rightarrow> string" where
  "unqual_func fn0 =
     (let fn1 = (case after_scope fn0 of None \<Rightarrow> fn0 | Some t \<Rightarrow> t);
          fn2 = takeWhile (\<lambda>c. c \<noteq> CHR ''('') fn1
      in takeWhile (\<lambda>c. c \<noteq> CHR ''<'') fn2)"

definition formatLocCompact :: "string \<Rightarrow> string \<Rightarrow> nat \<Rightarrow> string" where
  "formatLocCompact file_name function_name line =
     ''['' @ basename_view file_name @ '':'' @ unqual_func function_name @ '':'' @ show_nat line @ '']''"

text \<open>
  One line of the log. \<open>lt_*\<close> is the result of \<open>localtime_r\<close>, with \<open>tm_year\<close> and \<open>tm_mon\<close> already
  turned into the year and month they stand for; \<open>lt_ms\<close> the milliseconds within the second and
  \<open>lt_tid\<close> how the library prints the id of the thread.
\<close>

record log_time =
  lt_year :: nat
  lt_month :: nat
  lt_day :: nat
  lt_hour :: nat
  lt_min :: nat
  lt_sec :: nat
  lt_ms :: nat
  lt_tid :: string

definition zero_pad :: "nat \<Rightarrow> nat \<Rightarrow> string" where
  "zero_pad w n = replicate (w - length (show_nat n)) (CHR ''0'') @ show_nat n"

definition log_line :: "log_time \<Rightarrow> log_level \<Rightarrow> string \<Rightarrow> string" where
  "log_line t level msg =
     show_nat (lt_year t) @ ''-'' @ zero_pad 2 (lt_month t) @ ''-'' @ zero_pad 2 (lt_day t) @ '' '' @
     zero_pad 2 (lt_hour t) @ '':'' @ zero_pad 2 (lt_min t) @ '':'' @ zero_pad 2 (lt_sec t) @
     ''.'' @ zero_pad 3 (lt_ms t) @ '' [tid:0x'' @ lt_tid t @ ''] '' @
     ''['' @ levelToString level @ ''] '' @ msg @ [CHR 0x0A]"

datatype log_result = Continues logger | Aborts logger

definition Logger_log :: "log_time \<Rightarrow> nat \<Rightarrow> (string \<Rightarrow> errno + nat) \<Rightarrow> log_level \<Rightarrow> string \<Rightarrow> logger \<Rightarrow> log_result" where
  "Logger_log t n wr level msg lg =
     (if level < lg_level lg then Continues lg
      else
        let out = log_line t level msg;
            lg1 = (if lg_console lg then lg\<lparr>lg_cout := lg_cout lg @ out\<rparr> else lg)
        in case lg_sink lg of
             Some s \<Rightarrow>
               let s1 = sink_submit out n s
               in if level = FATAL then Aborts (lg1\<lparr>lg_sink := Some (flush_all_now wr s1)\<rparr>)
                  else Continues (lg1\<lparr>lg_sink := Some s1\<rparr>)
           | None \<Rightarrow>
               let lg2 = lg1\<lparr>lg_fileOutput := map_option (\<lambda>f. f @ out) (lg_fileOutput lg1)\<rparr>
               in if level = FATAL then Aborts lg2 else Continues lg2)"

definition logWithLocImpl :: "log_time \<Rightarrow> nat \<Rightarrow> (string \<Rightarrow> errno + nat) \<Rightarrow> log_level \<Rightarrow> string \<times> string \<times> nat \<Rightarrow> string \<Rightarrow> logger \<Rightarrow> log_result" where
  "logWithLocImpl t n wr level loc user lg =
     (if level < lg_level lg then Continues lg
      else case loc of (file_name, function_name, line) \<Rightarrow>
             Logger_log t n wr level (formatLocCompact file_name function_name line @ '' '' @ user) lg)"

section \<open>Lemmas: the sink\<close>

text \<open>A kernel, and what relates the bytes in the file to the bytes that were to be written.\<close>

locale log_kernel =
  fixes K :: "string \<Rightarrow> errno + nat \<Rightarrow> bool"
    and R :: "string \<Rightarrow> string \<Rightarrow> bool"
  assumes R_empty: "R [] []"
    and R_more: "R a c \<Longrightarrow> R (a @ l) (c @ l)"
    and R_write: "R (a @ b) c \<Longrightarrow> K b r \<Longrightarrow> R (sys_write r b a) c"

definition Sink_inv :: "(string \<Rightarrow> string \<Rightarrow> bool) \<Rightarrow> sink \<Rightarrow> bool" where
  "Sink_inv R s \<longleftrightarrow>
     Buffer_inv (sk_buf s) \<and> Atomic_inv (sk_queue s) \<and> (sk_pc s = WDone \<longrightarrow> sk_durable s = sk_file s) \<and>
     R (sk_file s @ (if sk_pc s = WDone then [] else Buffer_contents (sk_buf s))) (concat (aq_out (sk_queue s)))"

text \<open>Any answer that \<open>write\<close> may give, and complete writes only.\<close>

definition any_write :: "string \<Rightarrow> errno + nat \<Rightarrow> bool" where
  "any_write data r \<longleftrightarrow> (case r of Inl e \<Rightarrow> True | Inr n \<Rightarrow> n \<le> length data)"

definition full_write :: "string \<Rightarrow> errno + nat \<Rightarrow> bool" where
  "full_write data r \<longleftrightarrow> r = Inr (length data)"

lemma dequeue_out: "dequeue q = Some (x, q') \<Longrightarrow> aq_out q' = aq_out q @ [x] \<and> aq_log q' = aq_log q \<and> aq_pending q' = aq_pending q"
  by (auto simp: dequeue_def split: option.splits)

lemma dequeue_got:
  assumes "Atomic_inv q" and "dequeue q = Some (x, q')"
  shows "Atomic_inv q' \<and> concat (aq_out q') = concat (aq_out q) @ x"
  using dequeue_inv [OF assms] dequeue_out [OF assms(2)] by simp

lemma queue_history [simp]:
  "aq_out (enqueue_exchange x n q) = aq_out q" "aq_out (enqueue_link p n q) = aq_out q"
  by (simp_all add: enqueue_exchange_def enqueue_link_def)

lemma contents_empty: "Buffer_inv b \<Longrightarrow> readableBytes b = 0 \<Longrightarrow> Buffer_contents b = []"
  by (metis length_0_conv length_Buffer_contents)

context log_kernel
begin

lemma worker_inv: "sink_worker opt K s t \<Longrightarrow> Sink_inv R s \<Longrightarrow> Sink_inv R t"
proof (erule sink_workerE)
  assume i: "Sink_inv R s" and t: "t = sink_take s" and pc: "sk_pc s = WTop"
  from i have q: "Atomic_inv (sk_queue s)" by (simp add: Sink_inv_def)
  show "Sink_inv R t"
  proof (cases "dequeue (sk_queue s)")
    case (Some xq)
    then obtain x q' where d: "dequeue (sk_queue s) = Some (x, q')" by (cases xq) auto
    with i t pc dequeue_got [OF q d] show ?thesis
      using R_more [of "sk_file s @ Buffer_contents (sk_buf s)" "concat (aq_out (sk_queue s))" x]
      by (simp add: Sink_inv_def sink_take_def wf_intros abs_simps)
  qed (use i t pc in \<open>simp add: Sink_inv_def sink_take_def\<close>)
next
  fix r now assume i: "Sink_inv R s" and t: "t = sink_sync opt now r s" and pc: "sk_pc s = WSync" and k: "K (Buffer_contents (sk_buf s)) r"
  then show "Sink_inv R t"
    by (auto simp: Sink_inv_def sink_sync_def wf_intros abs_simps Let_def intro: R_write)
next
  fix r assume i: "Sink_inv R s" and t: "t = sink_drain r s" and pc: "sk_pc s = WDrain" and k: "K (Buffer_contents (sk_buf s)) r"
  from i have q: "Atomic_inv (sk_queue s)" by (simp add: Sink_inv_def)
  show "Sink_inv R t"
  proof (cases "dequeue (sk_queue s)")
    case (Some xq)
    then obtain x q' where d: "dequeue (sk_queue s) = Some (x, q')" by (cases xq) auto
    with i t pc dequeue_got [OF q d] show ?thesis
      using R_more [of "sk_file s @ Buffer_contents (sk_buf s)" "concat (aq_out (sk_queue s))" x]
      by (simp add: Sink_inv_def sink_drain_def wf_intros abs_simps)
  next
    case None
    with i t pc k R_write show ?thesis by (auto simp: Sink_inv_def sink_drain_def Let_def contents_empty)
  qed
qed

lemma sink_inv: "sink_step opt K s t \<Longrightarrow> Sink_inv R s \<Longrightarrow> Sink_inv R t"
  by (erule sink_stepE, erule (1) worker_inv) (auto simp: Sink_inv_def exchange_inv link_inv)

lemma new_inv: "sink_init opt s \<Longrightarrow> Sink_inv R s"
proof -
  have "Atomic_inv (AtomicQueue_new [] :: string atomic_queue)" by (rule aqi.init_inv) blast
  moreover have "aq_out (AtomicQueue_new [] :: string atomic_queue) = []" by (simp add: AtomicQueue_new_def)
  ultimately show "sink_init opt s \<Longrightarrow> Sink_inv R s"
    using R_empty by (auto simp: sink_init_def AsyncFileSink_new_def Sink_inv_def wf_intros abs_simps)
qed

lemma reached: "reachable (sink_init opt) (sink_step opt K) s \<Longrightarrow> Sink_inv R s"
  by (induction rule: reachable.induct) (auto intro: new_inv sink_inv)

end

interpretation lk_any: log_kernel any_write subseq
proof
  show "subseq (a @ l) (c @ l)" if "subseq a c" for a c l :: string
    using that by (intro list_emb_append_mono) auto
  show "subseq (sys_write r b a) c" if "subseq (a @ b) c" "any_write b r" for a b c :: string and r
  proof (rule subseq_order.order_trans [OF _ that(1)])
    have "subseq (take n b) b" for n by (metis append_take_drop_id list_emb_prefix subseq_order.order_refl)
    then show "subseq (sys_write r b a) (a @ b)"
      by (auto simp: sys_write_def intro!: list_emb_append_mono split: sum.splits)
  qed
qed simp

interpretation lk_full: log_kernel full_write "(=)"
  by standard (auto simp: full_write_def sys_write_def)

text \<open>After \<open>stop\<close> the worker comes to its end: every step brings it nearer, and it can always take one.\<close>

definition work_left :: "sink \<Rightarrow> nat" where
  "work_left s =
     (case sk_pc s of WTop \<Rightarrow> length (aq_chain (sk_queue s)) + 1 | WSync \<Rightarrow> length (aq_chain (sk_queue s)) + 2
      | WDrain \<Rightarrow> length (aq_chain (sk_queue s)) | WDone \<Rightarrow> 0)"

definition Stopping :: "string list \<Rightarrow> sink \<Rightarrow> bool" where
  "Stopping lines s \<longleftrightarrow>
     \<not> sk_running s \<and> Sink_inv (=) s \<and> aq_pending (sk_queue s) = {} \<and> aq_log (sk_queue s) = lines \<and>
     (sk_pc s = WDone \<longrightarrow> aq_out (sk_queue s) = lines)"

lemma dequeue_shrinks: "Atomic_inv q \<Longrightarrow> dequeue q = Some (x, q') \<Longrightarrow> length (aq_chain q') < length (aq_chain q)"
  by (erule dequeue_cases) auto

lemma dequeue_last: "Atomic_inv q \<Longrightarrow> dequeue q = None \<Longrightarrow> aq_pending q = {} \<Longrightarrow> aq_out q = aq_log q"
proof -
  assume q: "Atomic_inv q" and d: "dequeue q = None" "aq_pending q = {}"
  from q have "aq_log q = aq_out q @ chain_values (aq_heap q) (tl (aq_chain q))" by (simp add: Atomic_inv_def)
  moreover from q have "tl (aq_chain q) = []" by (rule dequeue_cases) (use d in auto)
  ultimately show ?thesis by (simp add: chain_values_def)
qed

lemma stopping_step: "sink_worker opt full_write s t \<Longrightarrow> Stopping lines s \<Longrightarrow> Stopping lines t \<and> work_left t < work_left s"
proof -
  assume w: "sink_worker opt full_write s t" and st: "Stopping lines s"
  have inv: "Sink_inv (=) t" using lk_full.worker_inv [OF w] st by (simp add: Stopping_def)
  have q: "Atomic_inv (sk_queue s)" and ne: "aq_chain (sk_queue s) \<noteq> []"
    using st chain_ok_ne by (auto simp: Stopping_def Sink_inv_def Atomic_inv_def)
  from w show ?thesis
  proof (rule sink_workerE)
    assume "t = sink_take s" "sk_pc s = WTop"
    with inv st show ?thesis by (auto simp: Stopping_def sink_take_def work_left_def)
  next
    fix r now assume "t = sink_sync opt now r s" "sk_pc s = WSync"
    with inv st show ?thesis by (auto simp: Stopping_def sink_sync_def work_left_def Let_def)
  next
    fix r assume "t = sink_drain r s" "sk_pc s = WDrain"
    with inv st q ne show ?thesis
      by (auto simp: Stopping_def sink_drain_def work_left_def Let_def dequeue_last dest: dequeue_out dequeue_shrinks split: option.splits)
  qed
qed

lemma stopping_run: "(sink_worker opt full_write ^^ k) s t \<Longrightarrow> Stopping lines s \<Longrightarrow> Stopping lines t \<and> k + work_left t \<le> work_left s"
proof (induction k arbitrary: t)
  case (Suc k)
  from Suc.prems(1) obtain u where u: "(sink_worker opt full_write ^^ k) s u" "sink_worker opt full_write u t" by auto
  with Suc.IH [OF u(1) Suc.prems(2)] stopping_step [OF u(2), of lines] show ?case by auto
qed simp

lemma worker_moves: "sk_pc s \<noteq> WDone \<Longrightarrow> \<exists>t. sink_worker opt full_write s t"
proof -
  have k: "full_write (writeFd_offer (sk_buf s)) (Inr (length (writeFd_offer (sk_buf s))))" by (simp add: full_write_def)
  show "sk_pc s \<noteq> WDone \<Longrightarrow> \<exists>t. sink_worker opt full_write s t"
    using at_top [of s opt full_write] at_sync [of s full_write, OF _ k] at_drain [of s full_write, OF _ k]
    by (cases "sk_pc s") blast+
qed

lemma work_bound: "work_left s \<le> length (aq_chain (sk_queue s)) + 2"
  by (simp add: work_left_def split: sink_pc.splits)

lemma fresh_not_tail: "Atomic_inv q \<Longrightarrow> aq_heap q n = None \<Longrightarrow> aq_tail q \<noteq> n"
proof -
  assume q: "Atomic_inv q" and n: "aq_heap q n = None"
  from q have "aq_chain q \<noteq> []" "last (aq_chain q) = aq_tail q" "dom (aq_heap q) = set (aq_chain q)" by (auto simp: Atomic_inv_def chain_ok_ne)
  with n show ?thesis by (metis domIff last_in_set)
qed

lemma enqueue_kept:
  assumes "Atomic_inv q" and "aq_heap q n = None" and "aq_pending q = {}"
  shows "Atomic_inv (enqueue x n q)" and "aq_pending (enqueue x n q) = {}" and "aq_log (enqueue x n q) = aq_log q @ [x]"
    and "aq_out (enqueue x n q) = aq_out q"
proof -
  have "Atomic_inv (enqueue_exchange x n q)" by (rule exchange_inv [OF assms(1,2)])
  moreover have "(aq_tail q, n) \<in> aq_pending (enqueue_exchange x n q)" by (simp add: enqueue_exchange_def)
  ultimately show "Atomic_inv (enqueue x n q)" by (simp add: enqueue_def link_inv)
qed (simp_all add: enqueue_def enqueue_link_def enqueue_exchange_def assms(3))

lemma queue_counts: "Atomic_inv q \<Longrightarrow> length (aq_chain q) = length (aq_log q) - length (aq_out q) + 1"
proof -
  assume "Atomic_inv q"
  then have "aq_log q = aq_out q @ chain_values (aq_heap q) (tl (aq_chain q))" "aq_chain q \<noteq> []" by (auto simp: Atomic_inv_def chain_ok_ne)
  then show ?thesis by (cases "aq_chain q") (simp_all add: chain_values_def)
qed

lemma subseq_extend: "subseq (a @ b) c \<Longrightarrow> subseq a (c @ d)"
proof -
  have p: "subseq x (x @ y)" for x y :: "'a list" by (rule prefix_imp_subseq) simp
  show "subseq (a @ b) c \<Longrightarrow> subseq a (c @ d)" by (meson p subseq_order.order_trans)
qed

lemma write_all: "(\<And>line. wr line = Inr (length line)) \<Longrightarrow> fold (\<lambda>line. sys_write (wr line) line) tmp f = f @ concat tmp"
  by (induction tmp arbitrary: f) (simp_all add: sys_write_def)

lemma flush_writes:
  assumes "Atomic_inv (sk_queue s)" and "aq_pending (sk_queue s) = {}" and "length (aq_log (sk_queue s)) < 2 ^ 64" and "\<And>line. wr line = Inr (length line)"
  shows "sk_durable (flush_all_now wr s) = sk_file s @ concat (drop (length (aq_out (sk_queue s))) (aq_log (sk_queue s)))"
proof -
  let ?all = "drop (length (aq_out (sk_queue s))) (aq_log (sk_queue s))"
  have "fst (drain (2 ^ 64 - 1) (sk_queue s)) = take (2 ^ 64 - 1) ?all"
    using drain_dequeues [OF assms(1,2)] by (simp only: log_split [OF assms(1)])
  also have "\<dots> = ?all" using assms(3) by simp
  finally show ?thesis
    by (cases "drain (2 ^ 64 - 1) (sk_queue s)") (simp add: flush_all_now_def Let_def write_all [of wr, OF assms(4)])
qed

lemma never_above_fatal: "\<not> FATAL < (level :: log_level)"
  by (cases level) (simp_all add: less_log_level_def)

section \<open>Lemmas: places in the code\<close>

lemma after_scope_none: "CHR '':'' \<notin> set s \<Longrightarrow> after_scope s = None"
  by (induction s rule: after_scope.induct) auto

lemma after_scope_last: "CHR '':'' \<notin> set s \<Longrightarrow> after_scope (p @ ''::'' @ s) = Some s"
proof (induction p)
  case Nil
  then have "after_scope (CHR '':'' # s) = None" by (cases s) (auto simp: after_scope_none)
  with Nil show ?case by simp
next
  case (Cons a p)
  obtain d r where "p @ ''::'' @ s = d # r" by (cases "p @ ''::'' @ s") auto
  with Cons show ?case by simp
qed

lemma unqual_method:
  assumes "CHR '':'' \<notin> set (name @ params)" and "CHR ''('' \<notin> set name" and "CHR ''<'' \<notin> set name"
  shows "unqual_func (scope @ ''::'' @ name @ ''('' @ params) = name"
proof -
  have "after_scope (scope @ ''::'' @ name @ ''('' @ params) = Some (name @ ''('' @ params)"
    using assms(1) by (intro after_scope_last) auto
  moreover have "takeWhile (\<lambda>c. c \<noteq> CHR ''('') (name @ ''('' @ params) = name" using assms(2) by (induction name) auto
  moreover have "takeWhile (\<lambda>c. c \<noteq> CHR ''<'') name = name" using assms(3) by (induction name) auto
  ultimately show ?thesis by (simp add: unqual_func_def)
qed

text \<open>A qualified type among the parameters takes the place of the name.\<close>

lemma unqual_parameter: "unqual_func ''void Logger::setOutputToFile(const std::string&)'' = ''string&)''"
  by (simp add: unqual_func_def)

section \<open>Properties\<close>

text \<open>
  C14. Every line reaches the file. However the producers, the worker and \<open>stop\<close> interleave and
  whatever \<open>write\<close> answers, the file never holds a byte twice or out of order. When \<open>write\<close> takes
  what it is given, the file and the worker's buffer hold exactly the lines taken from the queue,
  in the order of their submission; and once \<open>stop\<close> is called after the last \<open>submit\<close>, the worker
  takes at most three steps more than there are lines left, is never stuck before its end, and at
  its end all lines are in the file and synchronised with the disk.
\<close>

theorem sink_complete:
  "(\<forall>s. reachable (sink_init opt) (sink_step opt any_write) s \<longrightarrow> subseq (sk_file s) (concat (aq_log (sk_queue s)))) \<and>
   (\<forall>s. reachable (sink_init opt) (sink_step opt full_write) s \<longrightarrow>
      sk_file s @ (if sk_pc s = WDone then [] else Buffer_contents (sk_buf s)) = concat (aq_out (sk_queue s)) \<and>
      prefix (aq_out (sk_queue s)) (aq_log (sk_queue s)) \<and>
      (\<not> sk_running s \<and> aq_pending (sk_queue s) = {} \<and> sk_pc s \<noteq> WDone \<longrightarrow>
         (\<forall>k t. (sink_worker opt full_write ^^ k) s t \<longrightarrow>
            k \<le> length (aq_log (sk_queue s)) - length (aq_out (sk_queue s)) + 3 \<and>
            (sk_pc t \<noteq> WDone \<longrightarrow> (\<exists>u. sink_worker opt full_write t u)) \<and>
            (sk_pc t = WDone \<longrightarrow> sk_file t = concat (aq_log (sk_queue s)) \<and> sk_durable t = sk_file t))))"
proof (intro conjI allI impI)
  fix s assume "reachable (sink_init opt) (sink_step opt any_write) s"
  then have i: "Sink_inv subseq s" by (rule lk_any.reached)
  obtain rest where "aq_log (sk_queue s) = aq_out (sk_queue s) @ rest" using i by (auto simp: Sink_inv_def Atomic_inv_def)
  moreover have "subseq (sk_file s @ (if sk_pc s = WDone then [] else Buffer_contents (sk_buf s))) (concat (aq_out (sk_queue s)))"
    using i unfolding Sink_inv_def by blast
  ultimately show "subseq (sk_file s) (concat (aq_log (sk_queue s)))" by (metis concat_append subseq_extend)
next
  fix s assume "reachable (sink_init opt) (sink_step opt full_write) s"
  then have i: "Sink_inv (=) s" by (rule lk_full.reached)
  then show "sk_file s @ (if sk_pc s = WDone then [] else Buffer_contents (sk_buf s)) = concat (aq_out (sk_queue s))"
    by (simp add: Sink_inv_def)
  show "prefix (aq_out (sk_queue s)) (aq_log (sk_queue s))" using i by (simp add: Sink_inv_def Atomic_inv_def)
  fix k t assume "\<not> sk_running s \<and> aq_pending (sk_queue s) = {} \<and> sk_pc s \<noteq> WDone" and k: "(sink_worker opt full_write ^^ k) s t"
  with i have "Stopping (aq_log (sk_queue s)) s" by (simp add: Stopping_def)
  from stopping_run [OF k this] have t: "Stopping (aq_log (sk_queue s)) t" and "k \<le> work_left s" by auto
  with work_bound [of s] queue_counts [of "sk_queue s"] i
  show "k \<le> length (aq_log (sk_queue s)) - length (aq_out (sk_queue s)) + 3" by (simp add: Sink_inv_def)
  show "\<exists>u. sink_worker opt full_write t u" if "sk_pc t \<noteq> WDone" using that by (rule worker_moves)
  show "sk_file t = concat (aq_log (sk_queue s))" "sk_durable t = sk_file t" if "sk_pc t = WDone"
    using t that by (simp_all add: Stopping_def Sink_inv_def)
qed

text \<open>
  C22. What a call of the logger does. Below the threshold nothing happens. Otherwise exactly one line, with
  the time, the thread, the level and the place, goes to the console if it is on and to the file or
  the sink. A \<open>FATAL\<close> message is never filtered and always aborts the process, and then what was
  waiting in the queue and the line itself are on the disk; the lines that the worker has taken into
  its buffer are not among them.
\<close>

theorem log_outcome:
  assumes "\<And>s. lg_sink lg = Some s \<Longrightarrow> Atomic_inv (sk_queue s) \<and> aq_pending (sk_queue s) = {} \<and> aq_heap (sk_queue s) n = None \<and>
      length (aq_log (sk_queue s)) + 1 < 2 ^ 64"
    and "\<And>line. wr line = Inr (length line)"
    and "out = log_line t level (formatLocCompact file_name function_name line @ '' '' @ user)"
  shows "if level < lg_level lg then logWithLocImpl t n wr level (file_name, function_name, line) user lg = Continues lg \<and> level \<noteq> FATAL
    else \<exists>lg'. logWithLocImpl t n wr level (file_name, function_name, line) user lg = (if level = FATAL then Aborts lg' else Continues lg') \<and>
       lg_cout lg' = lg_cout lg @ (if lg_console lg then out else []) \<and>
       (case lg_sink lg of
          None \<Rightarrow> lg_sink lg' = None \<and> lg_fileOutput lg' = map_option (\<lambda>f. f @ out) (lg_fileOutput lg)
        | Some s \<Rightarrow> \<exists>s'. lg_sink lg' = Some s' \<and>
            (if level = FATAL then sk_durable s' = sk_file s @ concat (drop (length (aq_out (sk_queue s))) (aq_log (sk_queue s))) @ out
             else sk_file s' = sk_file s \<and> aq_log (sk_queue s') = aq_log (sk_queue s) @ [out]))"
proof (cases "level < lg_level lg")
  case True
  then show ?thesis using never_above_fatal by (auto simp: logWithLocImpl_def)
next
  case False
  show ?thesis
  proof (cases "lg_sink lg")
    case None
    with False assms(3) show ?thesis by (auto simp: logWithLocImpl_def Logger_log_def Let_def)
  next
    case (Some s)
    from assms(1) [OF Some] have q: "Atomic_inv (sk_queue s)" "aq_heap (sk_queue s) n = None" "aq_pending (sk_queue s) = {}"
        "length (aq_log (sk_queue s)) + 1 < 2 ^ 64" by auto
    note e = enqueue_kept [OF q(1-3), of out]
    have "length (aq_out (sk_queue s)) \<le> length (aq_log (sk_queue s))" using q(1) by (simp add: Atomic_inv_def)
    then have "sk_durable (flush_all_now wr (sink_submit out n s)) = sk_file s @ concat (drop (length (aq_out (sk_queue s))) (aq_log (sk_queue s))) @ out"
      using flush_writes [of "sink_submit out n s" wr, OF _ _ _ assms(2)] e q(4) by (simp add: sink_submit_def)
    with False Some assms(3) e(3) show ?thesis by (auto simp: logWithLocImpl_def Logger_log_def Let_def sink_submit_def)
  qed
qed

section \<open>Witnesses\<close>

definition sample_sink :: sink where
  "sample_sink =
     \<lparr>sk_queue = enqueue ''hi'' 1 (AtomicQueue_new []), sk_buf = Buffer_new sync_limit, sk_since = 0, sk_next = 1000,
      sk_pc = WTop, sk_running = False, sk_open = True, sk_file = [], sk_durable = []\<rparr>"

lemma sample_sink_reached: "reachable (sink_init Options_new) (sink_step Options_new full_write) sample_sink"
proof -
  let ?s = "\<lparr>sk_queue = AtomicQueue_new [], sk_buf = Buffer_new sync_limit, sk_since = 0, sk_next = 1000,
      sk_pc = WTop, sk_running = True, sk_open = True, sk_file = [], sk_durable = []\<rparr>"
  let ?t = "?s\<lparr>sk_queue := enqueue_exchange ''hi'' 1 (AtomicQueue_new [])\<rparr>"
  let ?u = "?t\<lparr>sk_queue := enqueue ''hi'' 1 (AtomicQueue_new [])\<rparr>"
  have "sink_init Options_new ?s" by (auto simp: sink_init_def AsyncFileSink_new_def Options_new_def intro: exI [of _ 0])
  then have "reachable (sink_init Options_new) (sink_step Options_new full_write) ?s" by (rule reach_init)
  moreover have "sink_step Options_new full_write ?s ?t"
    using submit_exchange [of ?s 1 Options_new full_write "''hi''"] by (simp add: AtomicQueue_new_def)
  ultimately have "reachable (sink_init Options_new) (sink_step Options_new full_write) ?t" by (rule reach_step)
  moreover have "sink_step Options_new full_write ?t ?u"
    using submit_link [of 0 1 ?t Options_new full_write] by (simp add: AtomicQueue_new_def enqueue_def enqueue_exchange_def)
  ultimately have "reachable (sink_init Options_new) (sink_step Options_new full_write) ?u" by (rule reach_step)
  from reach_step [OF this stop_flag] show ?thesis by (simp add: sample_sink_def)
qed

theorem sink_complete_witness:
  "sk_file (sink_drain (Inr 2) (sink_drain (Inr 2) (sink_take sample_sink))) = ''hi''"
proof -
  let ?a = "sink_take sample_sink" and ?b = "sink_drain (Inr 2) (sink_take sample_sink)"
  note defs = sample_sink_def sink_take_def sink_drain_def enqueue_def enqueue_exchange_def enqueue_link_def AtomicQueue_new_def dequeue_def
    wf_intros abs_simps
  have "sink_worker Options_new full_write sample_sink ?a" by (rule at_top) (simp add: sample_sink_def)
  moreover have "sink_worker Options_new full_write ?a (sink_drain (Inr 0) ?a)"
    by (rule at_drain) (simp_all add: defs full_write_def)
  moreover have "sink_drain (Inr 0) ?a = ?b" by (simp add: defs)
  moreover have "sink_worker Options_new full_write ?b (sink_drain (Inr 2) ?b)"
    by (rule at_drain) (simp_all add: defs full_write_def)
  ultimately have "(sink_worker Options_new full_write ^^ 3) sample_sink (sink_drain (Inr 2) ?b)"
    by (auto simp: numeral_3_eq_3)
  moreover have "\<not> sk_running sample_sink" "aq_pending (sk_queue sample_sink) = {}" "sk_pc sample_sink \<noteq> WDone" "aq_log (sk_queue sample_sink) = [''hi'']"
    by (simp_all add: defs)
  moreover have "sk_pc (sink_drain (Inr 2) ?b) = WDone" by (simp add: defs Let_def)
  ultimately show ?thesis
    using sink_complete [of Options_new] sample_sink_reached by (metis append_Nil2 concat.simps)
qed

theorem log_outcome_witness:
  "\<exists>lg'. logWithLocImpl \<lparr>lt_year = 2025, lt_month = 1, lt_day = 2, lt_hour = 3, lt_min = 4, lt_sec = 5, lt_ms = 6, lt_tid = ''7f''\<rparr> 1
     (\<lambda>line. Inr (length line)) FATAL (''src/a.cpp'', ''void A::f()'', 9) ''bad'' Logger_new = Aborts lg' \<and>
     lg_cout lg' = ''2025-01-02 03:04:05.006 [tid:0x7f] [FATAL] [a.cpp:f:9] bad'' @ [CHR 0x0A]"
proof -
  let ?t = "\<lparr>lt_year = 2025, lt_month = 1, lt_day = 2, lt_hour = 3, lt_min = 4, lt_sec = 5, lt_ms = 6, lt_tid = ''7f''\<rparr>"
  have line: "log_line ?t FATAL (formatLocCompact ''src/a.cpp'' ''void A::f()'' 9 @ '' '' @ ''bad'') =
      ''2025-01-02 03:04:05.006 [tid:0x7f] [FATAL] [a.cpp:f:9] bad'' @ [CHR 0x0A]"
    by code_simp
  show ?thesis
    using log_outcome [where lg = Logger_new and n = 1 and wr = "\<lambda>line. Inr (length line)" and t = ?t and level = FATAL and file_name = "''src/a.cpp''"
        and function_name = "''void A::f()''" and line = 9 and user = "''bad''", OF _ refl line [symmetric]]
      never_above_fatal [of INFO] by (auto simp: Logger_new_def)
qed

end
