(* ===== verification/Tls_Connection.thy ===== *)
theory Tls_Connection
  imports Http_Server
begin

text \<open>
  TLS under the HTTP server: \<open>src/net/include/TLSTypes.h\<close>, \<open>TLSConfig\<close>, \<open>TLSContext\<close> and
  \<open>TLSConnection\<close> (\<open>src/net/src/\<close>), and the branch of \<open>HttpServer::onMessage\<close> that uses them. OpenSSL
  is an argument: a record of the calls the code makes, on a state that includes the two memory
  BIOs of the connection.
\<close>

section \<open>Configuration and context\<close>

datatype tls_version = TLS_1_0 | TLS_1_1 | TLS_1_2 | TLS_1_3

record tls_config =
  tf_certFile :: string
  tf_keyFile :: string
  tf_chainFile :: string
  tf_version :: tls_version
  tf_cipherList :: string
  tf_verifyClient :: bool
  tf_verifyDepth :: int
  tf_sessionTimeout :: int
  tf_sessionCacheSize :: int

definition TLSConfig_new :: tls_config where
  "TLSConfig_new =
     \<lparr>tf_certFile = [], tf_keyFile = [], tf_chainFile = [], tf_version = TLS_1_2, tf_cipherList = ''HIGH:!aNULL:!MDS'', tf_verifyClient = False,
      tf_verifyDepth = 4, tf_sessionTimeout = 300, tf_sessionCacheSize = 20480\<rparr>"

text \<open>The options of a context and what was set in it; \<open>SSL_CTX_set_options\<close> adds options.\<close>

datatype ssl_op = NO_SSLv2 | NO_SSLv3 | NO_COMPRESSION | CIPHER_SERVER_PREFERENCE | NO_TLSv1 | NO_TLSv1_1 | NO_TLSv1_2 | NO_TLSv1_3

record ssl_ctx =
  sx_options :: "ssl_op list"
  sx_cacheMode :: bool
  sx_cacheSize :: int
  sx_timeout :: int

definition set_options :: "ssl_op list \<Rightarrow> ssl_ctx \<Rightarrow> ssl_ctx" where
  "set_options ops x = x\<lparr>sx_options := remdups (sx_options x @ ops)\<rparr>"

text \<open>Whether each call of OpenSSL that can fail succeeds.\<close>

record ctx_calls =
  cl_new :: bool
  cl_certificate :: "string \<Rightarrow> bool"
  cl_key :: "string \<Rightarrow> bool"
  cl_check :: bool
  cl_chain :: "string \<Rightarrow> bool"
  cl_ciphers :: "string \<Rightarrow> bool"

definition loadCertificates :: "ctx_calls \<Rightarrow> tls_config \<Rightarrow> bool" where
  "loadCertificates cl f \<longleftrightarrow>
     cl_certificate cl (tf_certFile f) \<and> cl_key cl (tf_keyFile f) \<and> cl_check cl \<and>
     (tf_chainFile f = [] \<or> cl_chain cl (tf_chainFile f))"

primrec version_op :: "tls_version \<Rightarrow> ssl_op" where
  "version_op TLS_1_0 = NO_TLSv1"
| "version_op TLS_1_1 = NO_TLSv1_1"
| "version_op TLS_1_2 = NO_TLSv1_2"
| "version_op TLS_1_3 = NO_TLSv1_3"

definition setupProtocol :: "ctx_calls \<Rightarrow> tls_config \<Rightarrow> ssl_ctx \<Rightarrow> bool \<times> ssl_ctx" where
  "setupProtocol cl f x =
     (let x1 = set_options [NO_SSLv2, NO_SSLv3, version_op (tf_version f)] x
      in (tf_cipherList f = [] \<or> cl_ciphers cl (tf_cipherList f), x1))"

definition setupSessionCache :: "tls_config \<Rightarrow> ssl_ctx \<Rightarrow> ssl_ctx" where
  "setupSessionCache f x = x\<lparr>sx_cacheMode := True, sx_cacheSize := tf_sessionCacheSize f, sx_timeout := tf_sessionTimeout f\<rparr>"

text \<open>\<open>fresh\<close> is the context \<open>SSL_CTX_new\<close> returns.\<close>

definition TLSContext_initialize :: "ctx_calls \<Rightarrow> ssl_ctx \<Rightarrow> tls_config \<Rightarrow> bool \<times> ssl_ctx option" where
  "TLSContext_initialize cl fresh f =
     (if \<not> cl_new cl then (False, None)
      else let x1 = set_options [NO_SSLv2, NO_SSLv3, NO_COMPRESSION, CIPHER_SERVER_PREFERENCE] fresh
           in if \<not> loadCertificates cl f then (False, Some x1)
              else case setupProtocol cl f x1 of
                     (False, x2) \<Rightarrow> (False, Some x2)
                   | (True, x2) \<Rightarrow> (True, Some (setupSessionCache f x2)))"

section \<open>The connection\<close>

datatype tls_error = TLS_NONE | WANT_READ | WANT_WRITE | TLS_SYSCALL | TLS_TLS | TLS_UNKNOWN

datatype tls_state = HANDSHAKE | ESTABLISHED | SHUTDOWN | TLS_ERROR

datatype ssl_error = SSL_ERROR_NONE | SSL_ERROR_WANT_READ | SSL_ERROR_WANT_WRITE | SSL_ERROR_SYSCALL | SSL_ERROR_SSL | SSL_ERROR_OTHER

text \<open>
  The calls on the \<open>SSL\<close> object and its BIOs. \<open>sl_read\<close> and \<open>sl_bio_read\<close> return the bytes put into the
  caller's array, at most as many as asked for, or \<open>None\<close> for a return value of 0 or less.
\<close>

record 's ssl_api =
  sl_do_handshake :: "'s \<Rightarrow> int \<times> 's"
  sl_get_error :: "'s \<Rightarrow> int \<Rightarrow> ssl_error"
  sl_write :: "string \<Rightarrow> 's \<Rightarrow> int \<times> 's"
  sl_read :: "nat \<Rightarrow> 's \<Rightarrow> string option \<times> 's"
  sl_bio_write :: "string \<Rightarrow> 's \<Rightarrow> 's"
  sl_bio_pending :: "'s \<Rightarrow> int"
  sl_bio_read :: "nat \<Rightarrow> 's \<Rightarrow> string option \<times> 's"

record 's tls_connection =
  tl_ssl :: "'s option"
  tl_state :: tls_state
  tl_readBuffer :: buffer
  tl_decryptedBuffer :: buffer
  tl_messageCallback :: bool

text \<open>\<open>ssl\<close> is the object with its two BIOs, \<open>None\<close> when one of the three could not be made.\<close>

definition TLSConnection_new :: "'s option \<Rightarrow> 's tls_connection" where
  "TLSConnection_new ssl =
     \<lparr>tl_ssl = ssl, tl_state = HANDSHAKE, tl_readBuffer = Buffer_new kInitialSize, tl_decryptedBuffer = Buffer_new kInitialSize,
      tl_messageCallback = False\<rparr>"

definition handleHandshake :: "'s ssl_api \<Rightarrow> 's tls_connection \<Rightarrow> cpp_error + conn_action list \<times> 's tls_connection" where
  "handleHandshake A c =
     (case tl_ssl c of
        None \<Rightarrow> Inl NullDeref
      | Some ssl \<Rightarrow>
          (case sl_do_handshake A ssl of (ret, ssl1) \<Rightarrow>
             if ret = 1 then Inr ([], c\<lparr>tl_ssl := Some ssl1, tl_state := ESTABLISHED\<rparr>)
             else case sl_get_error A ssl1 ret of
                    SSL_ERROR_WANT_READ \<Rightarrow> Inr ([], c\<lparr>tl_ssl := Some ssl1\<rparr>)
                  | SSL_ERROR_WANT_WRITE \<Rightarrow> Inr ([], c\<lparr>tl_ssl := Some ssl1\<rparr>)
                  | _ \<Rightarrow> Inr ([ConnShutdown], c\<lparr>tl_ssl := Some ssl1\<rparr>)))"

definition startHandshake :: "'s ssl_api \<Rightarrow> 's tls_connection \<Rightarrow> cpp_error + conn_action list \<times> 's tls_connection" where
  "startHandshake A c = handleHandshake A c"

text \<open>
  The loop over the write BIO. Nothing in it ends the loop when \<open>BIO_read\<close> fails: not coming back
  is \<open>None\<close>.
\<close>

definition bio_chunk :: nat where
  "bio_chunk = 4096"

partial_function (option) flushWriteBio :: "'s ssl_api \<Rightarrow> 's \<Rightarrow> (conn_action list \<times> 's) option" where
  "flushWriteBio A ssl =
     (let pending = sl_bio_pending A ssl
      in if pending \<le> 0 then Some ([], ssl)
         else case sl_bio_read A (min (nat pending) bio_chunk) ssl of
                (got, ssl1) \<Rightarrow>
                  Option.bind (flushWriteBio A ssl1) (\<lambda>(acts, ssl2).
                    Some ((case got of Some bytes \<Rightarrow> [ConnSend bytes] | None \<Rightarrow> []) @ acts, ssl2)))"

definition TLS_send :: "'s ssl_api \<Rightarrow> string \<Rightarrow> 's tls_connection \<Rightarrow> (cpp_error + conn_action list \<times> 's tls_connection) option" where
  "TLS_send A data c =
     (if tl_state c \<noteq> ESTABLISHED then Some (Inr ([], c))
      else case tl_ssl c of
             None \<Rightarrow> Some (Inl NullDeref)
           | Some ssl \<Rightarrow>
               (case sl_write A data ssl of (written, ssl1) \<Rightarrow>
                  if written \<le> 0 then Some (Inr ([], c\<lparr>tl_ssl := Some ssl1\<rparr>))
                  else map_option (\<lambda>(acts, ssl2). Inr (acts, c\<lparr>tl_ssl := Some ssl2\<rparr>)) (flushWriteBio A ssl1)))"

text \<open>Besides the actions: the input buffer, and the data for the message callback if there is any.\<close>

definition TLS_onRead :: "'s ssl_api \<Rightarrow> buffer \<Rightarrow> 's tls_connection
    \<Rightarrow> cpp_error + conn_action list \<times> 's tls_connection \<times> buffer \<times> string option" where
  "TLS_onRead A buf c =
     (case tl_state c of
        HANDSHAKE \<Rightarrow>
          let c1 = c\<lparr>tl_ssl := map_option (sl_bio_write A (writeFd_offer buf)) (tl_ssl c)\<rparr>;
              buf1 = Buffer_retrieve (readableBytes buf) buf
          in map_sum id (\<lambda>(acts, c2). (acts, c2, buf1, None)) (handleHandshake A c1)
      | ESTABLISHED \<Rightarrow>
          (case tl_ssl c of
             None \<Rightarrow> Inl NullDeref
           | Some ssl \<Rightarrow>
               (case sl_read A bio_chunk ssl of
                  (got, ssl1) \<Rightarrow> Inr ([], c\<lparr>tl_ssl := Some ssl1\<rparr>, buf, if tl_messageCallback c then got else None)))
      | _ \<Rightarrow> Inr ([], c, buf, None))"

definition TLS_onDecrypted :: "string \<Rightarrow> 's tls_connection \<Rightarrow> 's tls_connection" where
  "TLS_onDecrypted data c = c\<lparr>tl_decryptedBuffer := Buffer_append data (tl_decryptedBuffer c)\<rparr>"

primrec error_of_ssl :: "ssl_error \<Rightarrow> tls_error" where
  "error_of_ssl SSL_ERROR_NONE = TLS_NONE"
| "error_of_ssl SSL_ERROR_WANT_READ = WANT_READ"
| "error_of_ssl SSL_ERROR_WANT_WRITE = WANT_WRITE"
| "error_of_ssl SSL_ERROR_SYSCALL = TLS_SYSCALL"
| "error_of_ssl SSL_ERROR_SSL = TLS_TLS"
| "error_of_ssl SSL_ERROR_OTHER = TLS_UNKNOWN"

definition TLS_handleError :: "tls_error \<Rightarrow> 's tls_connection \<Rightarrow> conn_action list \<times> 's tls_connection" where
  "TLS_handleError e c = (if e \<in> {TLS_TLS, TLS_SYSCALL, TLS_UNKNOWN} then ([ConnShutdown], c\<lparr>tl_state := TLS_ERROR\<rparr>) else ([], c))"

text \<open>The callbacks of a custom BIO. \<open>bioRead\<close> returns the bytes it copied, \<open>None\<close> for -1.\<close>

definition bioWrite :: "bool \<Rightarrow> string \<Rightarrow> int \<times> conn_action list" where
  "bioWrite has_conn data = (if \<not> has_conn then (- 1, []) else (int (length data), [ConnSend data]))"

definition bioRead :: "nat \<Rightarrow> 's tls_connection \<Rightarrow> string option \<times> 's tls_connection" where
  "bioRead len c =
     (let readable = readableBytes (tl_readBuffer c); toRead = min len readable
      in if readable = 0 then (None, c)
         else (Some (take toRead (Buffer_peek (tl_readBuffer c))), c\<lparr>tl_readBuffer := Buffer_retrieve toRead (tl_readBuffer c)\<rparr>))"

section \<open>The server with TLS\<close>

text \<open>
  \<open>onConnection\<close> makes the TLS connection and starts its handshake; \<open>onMessage\<close> hands bytes to it,
  and decrypted data go to \<open>onPlainMessage\<close> in a fresh buffer. There the connection's context, which
  held the TLS connection, is replaced by an HTTP context.
\<close>

definition tls_onConnection :: "'s ssl_api \<Rightarrow> 's option \<Rightarrow> cpp_error + conn_action list \<times> 's tls_connection" where
  "tls_onConnection A ssl = startHandshake A ((TLSConnection_new ssl)\<lparr>tl_messageCallback := True\<rparr>)"

definition tls_onMessage ::
    "'s ssl_api \<Rightarrow> 'w http_server \<Rightarrow> session_env \<Rightarrow> int \<Rightarrow> 's tls_connection \<Rightarrow> buffer \<Rightarrow> 'w \<times> session_world
       \<Rightarrow> cpp_error + conn_action list \<times> 's tls_connection \<times> conn_context \<times> buffer \<times> 'w \<times> session_world" where
  "tls_onMessage A srv env ts c buf st =
     (case TLS_onRead A buf c of
        Inl e \<Rightarrow> Inl e
      | Inr (acts, c1, buf1, None) \<Rightarrow> Inr (acts, c1, CtxTls, buf1, st)
      | Inr (acts, c1, buf1, Some plain) \<Rightarrow>
          map_sum id (\<lambda>(acts', cc, b', st'). (acts @ acts', c1, cc, buf1, st'))
            (onPlainMessage srv env ts CtxTls (Buffer_append plain (Buffer_new kInitialSize)) st))"

section \<open>The promise\<close>

text \<open>What a memory BIO does: \<open>out\<close> are the bytes in the write BIO.\<close>

definition bio_laws :: "'s ssl_api \<Rightarrow> ('s \<Rightarrow> string) \<Rightarrow> bool" where
  "bio_laws A out \<longleftrightarrow>
     (\<forall>s. sl_bio_pending A s = int (length (out s))) \<and>
     (\<forall>s n. 0 < n \<and> out s \<noteq> [] \<longrightarrow> (\<exists>s'. sl_bio_read A n s = (Some (take n (out s)), s') \<and> out s' = drop n (out s)))"

fun sent_bytes :: "conn_action list \<Rightarrow> string" where
  "sent_bytes [] = []"
| "sent_bytes (ConnSend b # acts) = b @ sent_bytes acts"
| "sent_bytes (ConnShutdown # acts) = sent_bytes acts"

fun send_chunk :: "conn_action \<Rightarrow> bool" where
  "send_chunk (ConnSend b) \<longleftrightarrow> 0 < length b \<and> length b \<le> bio_chunk"
| "send_chunk ConnShutdown \<longleftrightarrow> False"

text \<open>The calls a connection gets, and a run of them with all bytes sent so far.\<close>

datatype tls_call = CallStart | CallSend string | CallRead buffer

fun tls_exec :: "'s ssl_api \<Rightarrow> tls_call \<Rightarrow> 's tls_connection \<Rightarrow> (cpp_error + conn_action list \<times> 's tls_connection) option" where
  "tls_exec A CallStart c = Some (startHandshake A c)"
| "tls_exec A (CallSend data) c = TLS_send A data c"
| "tls_exec A (CallRead buf) c = Some (map_sum id (\<lambda>(acts, c', buf', got). (acts, c')) (TLS_onRead A buf c))"

inductive tls_step :: "'s ssl_api \<Rightarrow> 's tls_connection \<times> string \<Rightarrow> 's tls_connection \<times> string \<Rightarrow> bool" for A where
  "tls_exec A call c = Some (Inr (acts, c')) \<Longrightarrow> tls_step A (c, sent) (c', sent @ sent_bytes acts)"

inductive_cases tls_stepE: "tls_step A p p'"

definition tls_init :: "'s tls_connection \<times> string \<Rightarrow> bool" where
  "tls_init p \<longleftrightarrow> (\<exists>ssl. p = ((TLSConnection_new (Some ssl))\<lparr>tl_messageCallback := True\<rparr>, []))"

definition Tls_inv :: "'s tls_connection \<times> string \<Rightarrow> bool" where
  "Tls_inv p \<longleftrightarrow>
     (case p of (c, sent) \<Rightarrow>
        tl_ssl c \<noteq> None \<and> tl_messageCallback c \<and> tl_state c \<in> {HANDSHAKE, ESTABLISHED} \<and> (tl_state c = HANDSHAKE \<longrightarrow> sent = []) \<and>
        Buffer_inv (tl_readBuffer c) \<and> Buffer_inv (tl_decryptedBuffer c))"

section \<open>Lemmas\<close>

lemma flush_done: "sl_bio_pending A s \<le> 0 \<Longrightarrow> flushWriteBio A s = Some ([], s)"
  by (subst flushWriteBio.simps) (simp add: Let_def)

lemma flush_all:
  assumes "bio_laws A out"
  shows "\<exists>acts s'. flushWriteBio A s = Some (acts, s') \<and> out s' = [] \<and> sent_bytes acts = out s \<and> list_all send_chunk acts"
proof (induction "length (out s)" arbitrary: s rule: less_induct)
  case less
  have pend: "sl_bio_pending A s = int (length (out s))" using assms by (simp add: bio_laws_def)
  show ?case
  proof (cases "out s = []")
    case True
    with pend flush_done [of A s] show ?thesis by simp
  next
    case False
    let ?n = "min (length (out s)) bio_chunk"
    have n: "0 < ?n" using False by (simp add: bio_chunk_def)
    with False assms obtain s1 where s1: "sl_bio_read A ?n s = (Some (take ?n (out s)), s1)" "out s1 = drop ?n (out s)"
      unfolding bio_laws_def by blast
    have "length (out s1) < length (out s)" using s1(2) n False by simp
    from less [OF this] obtain acts s' where r: "flushWriteBio A s1 = Some (acts, s')" "out s' = []" "sent_bytes acts = out s1" "list_all send_chunk acts"
      by blast
    have "flushWriteBio A s = Some (ConnSend (take ?n (out s)) # acts, s')"
      using False by (subst flushWriteBio.simps) (simp add: Let_def pend s1(1) r(1))
    moreover have "send_chunk (ConnSend (take ?n (out s)))" using n by simp
    ultimately show ?thesis using r(2-4) s1(2) by (auto simp del: send_chunk.simps)
  qed
qed

lemma handshake_keeps:
  assumes "handleHandshake A c = Inr (acts, c')"
  shows "sent_bytes acts = [] \<and> tl_ssl c' \<noteq> None \<and> tl_state c' \<in> {tl_state c, ESTABLISHED} \<and> tl_messageCallback c' = tl_messageCallback c \<and>
    tl_readBuffer c' = tl_readBuffer c \<and> tl_decryptedBuffer c' = tl_decryptedBuffer c"
  using assms by (auto simp: handleHandshake_def split: option.splits prod.splits if_splits ssl_error.splits)

lemma handshake_defined: "tl_ssl c \<noteq> None \<Longrightarrow> handleHandshake A c \<noteq> Inl e"
  by (auto simp: handleHandshake_def split: prod.splits if_splits ssl_error.splits)

lemma tls_exec_defined: "Tls_inv (c, sent) \<Longrightarrow> tls_exec A call c \<noteq> Some (Inl e)"
  by (cases call)
    (auto simp: Tls_inv_def startHandshake_def TLS_send_def TLS_onRead_def Let_def handshake_defined map_sum_def
      split: option.splits prod.splits if_splits sum.splits)

lemma tls_exec_inv:
  assumes "Tls_inv (c, sent)" and "tls_exec A call c = Some (Inr (acts, c'))"
  shows "Tls_inv (c', sent @ sent_bytes acts)"
proof (cases call)
  case CallStart
  with assms handshake_keeps [of A c acts c'] show ?thesis by (auto simp: startHandshake_def Tls_inv_def)
next
  case (CallSend data)
  with assms show ?thesis by (auto simp: TLS_send_def Tls_inv_def split: if_splits option.splits prod.splits)
next
  case (CallRead buf)
  then obtain buf' got where r: "TLS_onRead A buf c = Inr (acts, c', buf', got)"
    using assms(2) by (cases "TLS_onRead A buf c") auto
  show ?thesis
  proof (cases "tl_state c = HANDSHAKE")
    case True
    let ?c1 = "c\<lparr>tl_ssl := map_option (sl_bio_write A (writeFd_offer buf)) (tl_ssl c)\<rparr>"
    from True r have "handleHandshake A ?c1 = Inr (acts, c')"
      by (cases "handleHandshake A ?c1") (auto simp: TLS_onRead_def Let_def)
    from handshake_keeps [OF this] assms(1) True show ?thesis by (auto simp: Tls_inv_def)
  next
    case False
    with assms(1) r show ?thesis by (auto simp: Tls_inv_def TLS_onRead_def split: option.splits prod.splits)
  qed
qed

interpretation tlsi: inductive_invariant tls_init "tls_step A" Tls_inv for A
proof
  show "tls_init p \<Longrightarrow> Tls_inv p" for p :: "'s tls_connection \<times> string"
    by (auto simp: tls_init_def Tls_inv_def TLSConnection_new_def wf_intros)
  show "Tls_inv p \<Longrightarrow> tls_step A p p' \<Longrightarrow> Tls_inv p'" for p p' :: "'s tls_connection \<times> string" and A
    by (erule tls_stepE) (auto intro: tls_exec_inv)
qed

text \<open>The configured version is the one that is switched off.\<close>

lemma version_disabled:
  "TLSContext_initialize cl fresh f = (True, Some x) \<Longrightarrow> version_op (tf_version f) \<in> set (sx_options x)"
  by (auto simp: TLSContext_initialize_def setupProtocol_def setupSessionCache_def set_options_def Let_def split: if_splits prod.splits bool.splits)

lemma plain_context: "onPlainMessage srv env ts CtxTls b st = onPlainMessage srv env ts CtxEmpty b st"
  by (simp add: onPlainMessage_def)

section \<open>Properties\<close>

text \<open>
  C18. A TLS connection stays well formed. Whatever OpenSSL answers, in every run of \<open>startHandshake\<close>, \<open>send\<close> and
  \<open>onRead\<close> on a connection that got its \<open>SSL\<close> object, the object stays, the buffers keep their index
  invariant, the state is \<open>HANDSHAKE\<close> or \<open>ESTABLISHED\<close>, no further call can fail on a null pointer,
  and as long as the handshake lasts not a byte has been sent: the replies of OpenSSL stay in the
  write BIO.
\<close>

theorem tls_well_formed:
  assumes "reachable tls_init (tls_step A) (c, sent)"
  shows "tl_ssl c \<noteq> None \<and> Buffer_inv (tl_readBuffer c) \<and> Buffer_inv (tl_decryptedBuffer c) \<and> tl_state c \<in> {HANDSHAKE, ESTABLISHED} \<and>
    (\<forall>call e. tls_exec A call c \<noteq> Some (Inl e)) \<and> (tl_state c = HANDSHAKE \<longrightarrow> sent = [])"
  using tlsi.reachable_inv [OF assms] tls_exec_defined [of c sent A] by (simp add: Tls_inv_def)

text \<open>
  C17. Sending over TLS. On an established connection \<open>send\<close> comes back, and when OpenSSL took data it
  has handed all encrypted bytes that were waiting, in order and in pieces of 1 to 4096 bytes, to
  the TCP connection and the write BIO is empty. On any other connection it does nothing.
\<close>

theorem tls_send_flushes:
  assumes "bio_laws A out" and "tl_ssl c = Some ssl" and "sl_write A data ssl = (written, ssl1)"
  shows "\<exists>acts c'. TLS_send A data c = Some (Inr (acts, c')) \<and> tl_state c' = tl_state c \<and>
    (if tl_state c = ESTABLISHED
     then if written \<le> 0 then acts = [] \<and> tl_ssl c' = Some ssl1
          else sent_bytes acts = out ssl1 \<and> list_all send_chunk acts \<and> (\<exists>ssl2. tl_ssl c' = Some ssl2 \<and> out ssl2 = [])
     else acts = [] \<and> c' = c)"
proof (cases "tl_state c = ESTABLISHED \<and> 0 < written")
  case True
  obtain acts s' where "flushWriteBio A ssl1 = Some (acts, s')" "out s' = []" "sent_bytes acts = out ssl1" "list_all send_chunk acts"
    using flush_all [OF assms(1), of ssl1] by blast
  with True assms(2,3) show ?thesis by (simp add: TLS_send_def)
next
  case False
  with assms(2,3) show ?thesis by (auto simp: TLS_send_def)
qed

text \<open>
  C36. Replies leave in the clear. When an established TLS connection decrypts a request, the server
  hands the plain bytes of the response to the TCP connection, not to the TLS connection, and the
  context that held the TLS connection now holds an HTTP context.
\<close>

theorem tls_reply_plain:
  assumes "m \<noteq> kInvalid" and "path_safe path" and "list_all param_safe query"
    and "list_all header_safe hs" and "body_framed m hs body"
    and "plain_server srv" and "rt_handlers (hs_router srv) (m, path) = Some h"
    and "h (parsed_request t m path query hs body)
           (HttpResponse_new (map_of (stored_headers hs) ''Connection'' = Some ''close'')) w = Inr (resp, w')"
    and "length (rs_body resp) < 2 ^ 64"
    and "tl_state c = ESTABLISHED" and "tl_messageCallback c" and "tl_ssl c = Some ssl"
    and "sl_read A bio_chunk ssl = (Some (render_request m path query hs body), ssl1)"
  shows "tls_onMessage A srv env t c buf (w, sw) =
    Inr (ConnSend (response_bytes resp) # (if rs_closeConnection resp then [ConnShutdown] else []),
         c\<lparr>tl_ssl := Some ssl1\<rparr>, CtxHttp HttpContext_new, buf, w', sw)"
proof -
  let ?b = "Buffer_append (render_request m path query hs body) (Buffer_new kInitialSize)"
  have "Buffer_inv ?b" "Buffer_contents ?b = render_request m path query hs body @ []" by (simp_all add: wf_intros abs_simps)
  from request_run [OF assms(1-5) this assms(6-9), of env sw] obtain b' where
    "onPlainMessage srv env t CtxTls ?b (w, sw) = Inr (ConnSend (response_bytes resp) # (if rs_closeConnection resp then [ConnShutdown] else []),
       CtxHttp HttpContext_new, b', w', sw)" by (auto simp: plain_context)
  moreover have "TLS_onRead A buf c = Inr ([], c\<lparr>tl_ssl := Some ssl1\<rparr>, buf, Some (render_request m path query hs body))"
    using assms(10-13) by (simp add: TLS_onRead_def)
  ultimately show ?thesis by (simp add: tls_onMessage_def)
qed

section \<open>Witnesses\<close>

text \<open>A library that finishes every handshake, reverses what it encrypts and has a fixed request to read.\<close>

definition sample_ssl :: "string ssl_api" where
  "sample_ssl =
     \<lparr>sl_do_handshake = (\<lambda>s. (1, s)), sl_get_error = (\<lambda>s r. SSL_ERROR_NONE), sl_write = (\<lambda>d s. (int (length d), s @ rev d)),
      sl_read = (\<lambda>n s. (Some (render_request kGet ''/hi'' [] [] []), s)), sl_bio_write = (\<lambda>d s. s), sl_bio_pending = (\<lambda>s. int (length s)),
      sl_bio_read = (\<lambda>n s. (Some (take n s), drop n s))\<rparr>"

definition sample_tls :: "string tls_connection" where
  "sample_tls = (TLSConnection_new (Some []))\<lparr>tl_messageCallback := True, tl_state := ESTABLISHED\<rparr>"

theorem tls_well_formed_witness: "tls_exec sample_ssl (CallSend ''ab'') sample_tls \<noteq> Some (Inl NullDeref)"
proof -
  let ?c = "(TLSConnection_new (Some []))\<lparr>tl_messageCallback := True\<rparr> :: string tls_connection"
  have "tls_init (?c, [])" by (auto simp: tls_init_def)
  then have "reachable tls_init (tls_step sample_ssl) (?c, [])" by (rule reach_init)
  moreover have "tls_exec sample_ssl CallStart ?c = Some (Inr ([], sample_tls))"
    by (simp add: startHandshake_def handleHandshake_def sample_ssl_def sample_tls_def TLSConnection_new_def)
  from tls_step.intros [OF this, of "[]"] have "tls_step sample_ssl (?c, []) (sample_tls, [])" by simp
  ultimately have "reachable tls_init (tls_step sample_ssl) (sample_tls, [])" by (rule reach_step)
  from tls_well_formed [OF this] show ?thesis by blast
qed

theorem tls_send_flushes_witness:
  "\<exists>acts c'. TLS_send sample_ssl ''ab'' sample_tls = Some (Inr (acts, c')) \<and> sent_bytes acts = ''ba''"
proof -
  have "bio_laws sample_ssl (\<lambda>s. s)" by (simp add: bio_laws_def sample_ssl_def)
  from tls_send_flushes [OF this, of sample_tls "[]" "''ab''" 2 "''ba''"] show ?thesis
    by (auto simp: sample_tls_def sample_ssl_def TLSConnection_new_def)
qed

theorem tls_reply_plain_witness:
  "tls_onMessage sample_ssl (HttpServer_Get ''/hi'' (\<lambda>q r w. Inr (Response_setBody ''yo'' (setStatusCode k200Ok r), w + 1)) (HttpServer_new True))
     \<lparr>env_t1 = 0, env_t2 = 0, env_rnd = RandBytes []\<rparr> 7 sample_tls (Buffer_new 0) (0 :: nat, Session_world_new)
   = Inr ([ConnSend (response_bytes (Response_setBody ''yo'' (setStatusCode k200Ok (HttpResponse_new False))))],
          sample_tls, CtxHttp HttpContext_new, Buffer_new 0, 1, Session_world_new)"
proof -
  let ?h = "\<lambda>(q :: http_request) r (w :: nat). Inr (Response_setBody ''yo'' (setStatusCode k200Ok r), w + 1) :: cpp_error + http_response \<times> nat"
  let ?srv = "HttpServer_Get ''/hi'' ?h (HttpServer_new True)"
  let ?resp = "Response_setBody ''yo'' (setStatusCode k200Ok (HttpResponse_new False))"
  have resp: "rs_closeConnection ?resp = False" "length (rs_body ?resp) < 2 ^ 64"
    by (simp_all add: response_setters HttpResponse_new_def)
  have srv: "plain_server ?srv" "rt_handlers (hs_router ?srv) (kGet, ''/hi'') = Some ?h"
    by (simp_all add: plain_server_def HttpServer_Get_def HttpServer_new_def registerHandler_def)
  have tls: "tl_state sample_tls = ESTABLISHED" "tl_messageCallback sample_tls" "tl_ssl sample_tls = Some []"
      "sl_read sample_ssl bio_chunk [] = (Some (render_request kGet ''/hi'' [] [] []), [])" "sample_tls\<lparr>tl_ssl := Some []\<rparr> = sample_tls"
    by (simp_all add: sample_tls_def TLSConnection_new_def sample_ssl_def)
  from tls_reply_plain [of kGet "''/hi''" "[]" "[]" "[]" ?srv ?h 7 0 ?resp 1, OF _ _ _ _ _ srv _ _ tls(1-4),
      of "\<lparr>env_t1 = 0, env_t2 = 0, env_rnd = RandBytes []\<rparr>" "Buffer_new 0" Session_world_new] resp tls(5)
  show ?thesis by (simp add: path_safe_def body_framed_def stored_headers_def)
qed

end
