(* ===== verification/Listen_Socket.thy ===== *)
theory Listen_Socket
  imports Tcp_Server Channel_Poller
begin

text \<open>
  How the server comes to listen: \<open>Socket\<close> (\<open>src/core/src/Socket.cpp\<close>) and the life of \<open>Acceptor\<close>
  (\<open>src/core/src/Acceptor.cpp\<close>), on the poller of \<open>Channel_Poller\<close>. Whether \<open>socket\<close>, \<open>bind\<close> and
  \<open>listen\<close> succeed are arguments; the code ignores the results of \<open>setsockopt\<close>.
\<close>

section \<open>\<open>Socket\<close>\<close>

record sock =
  sck_fd :: int
  sck_reuseAddr :: bool
  sck_reusePort :: bool
  sck_bound :: "inet_address option"
  sck_listening :: bool

definition createNonBlockingSocket :: "errno + int \<Rightarrow> cpp_error + sock" where
  "createNonBlockingSocket r =
     (case r of
        Inl e \<Rightarrow> Inl LogFatal
      | Inr fd \<Rightarrow> Inr \<lparr>sck_fd = fd, sck_reuseAddr = False, sck_reusePort = False, sck_bound = None, sck_listening = False\<rparr>)"

definition setReuseAddr :: "bool \<Rightarrow> sock \<Rightarrow> sock" where
  "setReuseAddr on s = s\<lparr>sck_reuseAddr := on\<rparr>"

definition setReusePort :: "bool \<Rightarrow> sock \<Rightarrow> sock" where
  "setReusePort on s = s\<lparr>sck_reusePort := on\<rparr>"

definition bindAddress :: "bool \<Rightarrow> inet_address \<Rightarrow> sock \<Rightarrow> cpp_error + sock" where
  "bindAddress ok addr s = (if \<not> ok then Inl LogFatal else Inr (s\<lparr>sck_bound := Some addr\<rparr>))"

definition Socket_listen :: "bool \<Rightarrow> sock \<Rightarrow> cpp_error + sock" where
  "Socket_listen ok s = (if \<not> ok then Inl LogFatal else Inr (s\<lparr>sck_listening := True\<rparr>))"

section \<open>\<open>Acceptor\<close>\<close>

text \<open>\<open>ac_channel\<close> is the address of the channel object in the poller's heap.\<close>

record acceptor =
  ac_socket :: sock
  ac_channel :: nat
  ac_listenning :: bool

definition Acceptor_new :: "errno + int \<Rightarrow> bool \<Rightarrow> inet_address \<Rightarrow> bool \<Rightarrow> nat \<Rightarrow> reactor \<Rightarrow> cpp_error + acceptor \<times> reactor" where
  "Acceptor_new r bound listenAddr reusePort p rc =
     (case createNonBlockingSocket r of
        Inl e \<Rightarrow> Inl e
      | Inr s \<Rightarrow>
          (case bindAddress bound listenAddr (setReusePort reusePort (setReuseAddr True s)) of
             Inl e \<Rightarrow> Inl e
           | Inr s1 \<Rightarrow>
               Inr (\<lparr>ac_socket = s1, ac_channel = p, ac_listenning = False\<rparr>,
                    rc\<lparr>rc_heap := (rc_heap rc)(p \<mapsto> (Channel_new (sck_fd s1))\<lparr>ch_readCallback := True\<rparr>)\<rparr>)))"

definition Acceptor_listen :: "bool \<Rightarrow> acceptor \<Rightarrow> reactor \<Rightarrow> cpp_error + acceptor \<times> reactor" where
  "Acceptor_listen ok a rc =
     map_sum id (\<lambda>s. (a\<lparr>ac_listenning := True, ac_socket := s\<rparr>, Channel_set True EnableReading (ac_channel a) rc))
       (Socket_listen ok (ac_socket a))"

definition Acceptor_destroy :: "acceptor \<Rightarrow> reactor \<Rightarrow> reactor" where
  "Acceptor_destroy a rc = Channel_remove True (ac_channel a) (Channel_set True DisableAll (ac_channel a) rc)"

text \<open>The destructor of the server: every connection in the table is destroyed in its loop. \<open>names\<close> is the order of iteration.\<close>

definition TcpServer_destroy :: "string list \<Rightarrow> tcp_server \<Rightarrow> tcp_server" where
  "TcpServer_destroy names s =
     fold (\<lambda>name s. case ts_connections s name of
        None \<Rightarrow> s
      | Some ref \<Rightarrow> (case ts_heap s ref of None \<Rightarrow> s | Some co \<Rightarrow> post (co_loop co) (TDestroy ref) s)) names s"

section \<open>Lemmas\<close>

lemma Reactor_inv_add:
  assumes "Reactor_inv rc" and "rc_heap rc p = None" and "0 \<le> fd" and "interest_of (rc_calls rc) fd = None"
    and "\<And>q c. rc_heap rc q = Some c \<Longrightarrow> ch_fd c \<noteq> fd"
  shows "Reactor_inv (rc\<lparr>rc_heap := (rc_heap rc)(p \<mapsto> (Channel_new fd)\<lparr>ch_readCallback := True\<rparr>)\<rparr>)"
  using assms unfolding Reactor_inv_def by (auto simp: Channel_new_def split: if_splits)

lemma kReadEvent_nonzero: "kReadEvent \<noteq> 0"
  using kReadEvent_bit [of 0] by auto

lemma enable_reading:
  assumes "rc_heap rc p = Some c" and "ch_index c = kNew" and "0 \<le> ch_fd c" and "interest_of (rc_calls rc) (ch_fd c) = None" and "ch_events c = 0"
  shows "interest_of (rc_calls (Channel_set True EnableReading p rc)) (ch_fd c) = Some (kReadEvent, p)"
  using assms by (simp add: Channel_set_def updateChannel_def Channel_mask_def EPollPoller_update_def set_index_def Let_def interest_append)

text \<open>
  What it takes to listen. Creating, binding and listening either abort the process, exactly when
  one of the three system calls fails, or leave a bound and listening socket with the address
  reusable, whose descriptor the kernel watches for reading on behalf of the acceptor's channel;
  the calls made on the poller stay legal.
\<close>

lemma acceptor_listens:
  assumes "Reactor_inv rc" and "rc_heap rc p = None" and "\<And>fd. r = Inr fd \<Longrightarrow> 0 \<le> fd \<and> interest_of (rc_calls rc) fd = None \<and> (\<forall>q c. rc_heap rc q = Some c \<longrightarrow> ch_fd c \<noteq> fd)"
  shows "case Acceptor_new r bound addr reusePort p rc of
      Inl e \<Rightarrow> e = LogFatal \<and> ((\<exists>er. r = Inl er) \<or> \<not> bound)
    | Inr (a, rc1) \<Rightarrow> bound \<and> Reactor_inv rc1 \<and>
        (case Acceptor_listen ok a rc1 of
           Inl e \<Rightarrow> e = LogFatal \<and> \<not> ok
         | Inr (a', rc2) \<Rightarrow> ok \<and> ac_listenning a' \<and> sck_listening (ac_socket a') \<and> sck_bound (ac_socket a') = Some addr \<and>
             sck_reuseAddr (ac_socket a') \<and> sck_reusePort (ac_socket a') = reusePort \<and> Reactor_inv rc2 \<and>
             interest_of (rc_calls rc2) (sck_fd (ac_socket a')) = Some (kReadEvent, p))"
proof (cases r)
  case (Inr fd)
  let ?rc = "rc\<lparr>rc_heap := (rc_heap rc)(p \<mapsto> (Channel_new fd)\<lparr>ch_readCallback := True\<rparr>)\<rparr>"
  have inv: "Reactor_inv ?rc" using assms(3) [OF Inr] by (intro Reactor_inv_add assms(1,2)) auto
  moreover have "interest_of (rc_calls (Channel_set True EnableReading p ?rc)) fd = Some (kReadEvent, p)"
    using enable_reading [of ?rc p "(Channel_new fd)\<lparr>ch_readCallback := True\<rparr>"] assms(3) [OF Inr] by (simp add: Channel_new_def)
  ultimately show ?thesis
    using Inr by (auto simp: Acceptor_new_def Acceptor_listen_def createNonBlockingSocket_def bindAddress_def Socket_listen_def setReuseAddr_def
        setReusePort_def wf_intros)
qed (simp add: Acceptor_new_def createNonBlockingSocket_def)

end
