(* ===== verification/Spec2Isabelle.thy ===== *)
theory Spec2Isabelle
  imports Byte_Buffer Http_Context Http_Response Http_Router Http_Middleware Http_Session
    Channel_Poller Event_Loop Tcp_Connection Tcp_Server Http_Server Queues
    Order_Cache Inventory Mysql_Pool Order_Handlers Mq_Events Order_App Log_Sink Tls_Connection Listen_Socket
begin

text \<open>
  A verification library for the program under \<open>src/\<close>: an event-driven network library in the style
  of muduo, an HTTP server on top of it, clients of Redis, MySQL and a message queue, a logger, and
  an order server that uses all of them.

  \<^bold>\<open>The program.\<close> An \<open>EventLoop\<close> waits in an \<open>EPollPoller\<close> for events of its \<open>Channel\<close>s and runs functors
  that other threads post to it. \<open>Acceptor\<close> and \<open>TcpServer\<close> take connections and spread them over
  the loops of an \<open>EventLoopThreadPool\<close>; a \<open>TcpConnection\<close> moves bytes between its socket and two
  \<open>Buffer\<close>s. \<open>HttpServer\<close> parses requests from the input buffer with \<open>HttpContext\<close>, runs sessions,
  middleware and the \<open>Router\<close>, and writes an \<open>HttpResponse\<close>; with TLS a \<open>TLSConnection\<close> stands in
  between. The order server registers \<open>OrderCreateHandler\<close> and \<open>OrderQueryHandler\<close>, which use
  \<open>InventoryService\<close>, \<open>OrderCache\<close> (Redis) and \<open>OrderRepository\<close> (MySQL through \<open>MySQLConnPool\<close>) and
  publish messages; \<open>MQEventRouter\<close> handles incoming ones.

  \<^bold>\<open>Foundations.\<close>
  \<^item> \<open>Prelude\<close>: collections of facts, the parts of the C++ library that the sources call, errors as
    values (\<open>cpp_error\<close>), reachable states and the locale \<open>inductive_invariant\<close>.
  \<^item> \<open>Effects\<close>: programs that thread a state and return, throw or never come back.
  \<^item> \<open>Cpp_Numbers\<close>: reading and printing numbers, rounding to binary64 included.

  \<^bold>\<open>Network library\<close> (\<open>src/base\<close>, \<open>src/core\<close>).
  \<^item> \<open>Byte_Buffer\<close> (\<open>Buffer\<close>): the two-index vector refines a queue of bytes (locale \<open>byte_queue\<close>);
    when it grows.
  \<^item> \<open>Channel_Poller\<close> (\<open>Channel\<close>, \<open>Poller\<close>, \<open>EPollPoller\<close>): the recorded \<open>epoll_ctl\<close> calls, replayed,
    give the interest list that the poller's own state claims.
  \<^item> \<open>Event_Loop\<close> (\<open>EventLoop\<close>): a step relation with foreign threads; posted functors run once and
    in order, and none is left waiting while the loop sleeps.
  \<^item> \<open>Tcp_Connection\<close> (\<open>TcpConnection\<close>): what the kernel took and what is buffered is what was sent, in
    order; write interest is on exactly when bytes wait; a shutdown comes after the last byte.
  \<^item> \<open>Tcp_Server\<close> (\<open>InetAddress\<close>, \<open>EventLoopThreadPool\<close>, \<open>TcpServer\<close>): fresh connection names, loops in
    turn. \<open>Listen_Socket\<close> (\<open>Socket\<close>, \<open>Acceptor\<close>): listening or aborting, and registration.

  \<^bold>\<open>HTTP and TLS\<close> (\<open>src/net\<close>).
  \<^item> \<open>Http_Request\<close>, \<open>Http_Context\<close>: the incremental parser; it inverts the printing of a request, does
    not depend on how the bytes are cut into pieces, and terminates.
  \<^item> \<open>Http_Response\<close>: the bytes of a response and a reader that recovers its parts.
  \<^item> \<open>Http_Router\<close>, \<open>Http_Middleware\<close>, \<open>Http_Session\<close>: exact and dynamic routes, the CORS decision,
    sessions continued by their cookie.
  \<^item> \<open>Http_Server\<close>: from bytes to the handler's answer.
  \<^item> \<open>Tls_Connection\<close> (\<open>TLSContext\<close>, \<open>TLSConnection\<close>): the connection stays well formed, \<open>send\<close> empties
    the write BIO; also what the TLS path does wrong.

  \<^bold>\<open>Threads and logging\<close> (\<open>src/db/include/BlockingQueue.h\<close>, \<open>src/logger\<close>).
  \<^item> \<open>Queues\<close>: the functions of the blocking queues meet one contract (locale \<open>fifo_queue\<close>); their wait
    protocols, and the lock-free queue with its two separate writes, are step relations.
  \<^item> \<open>Log_Sink\<close> (\<open>AsyncFileSink\<close>, \<open>Logger\<close>): lines reach the file in order, all of them after \<open>stop\<close> when
    writes are complete (locale \<open>log_kernel\<close>, for any kernel and for complete writes).

  \<^bold>\<open>Storage\<close> (\<open>src/cache\<close>, \<open>src/db\<close>).
  \<^item> \<open>Redis_Client\<close> (\<open>RedisClient\<close>, \<open>RedisPool\<close>): clients borrowed and returned on every path.
  \<^item> \<open>Mysql_Pool\<close> (\<open>SQLTask\<close>, \<open>MySQLConn\<close>, \<open>MySQLConnPool\<close>): every operation is taken once, in order,
    and answered; the synchronous call is a run of the threads.

  \<^bold>\<open>Order server\<close> (\<open>src/apps/order_server\<close>).
  \<^item> \<open>Order_Model\<close>, \<open>Order_Cache\<close>, \<open>Inventory\<close>, \<open>Order_Repository\<close>, \<open>Order_Service\<close>: records and their state
    machine, round trips through Redis text and SQL text, reservation and release of stock,
    cancelling.
  \<^item> \<open>Order_Handlers\<close>: creating and querying an order on every branch.
  \<^item> \<open>Mq_Events\<close>: finding the event name in a message and calling its handler.
  \<^item> \<open>Order_Config\<close>, \<open>Order_App\<close>: the configuration, the phases of \<open>start\<close>, \<open>stop\<close> and \<open>main\<close>; the
    server boots.
  \<^item> This theory composes them: bytes of a \<open>POST\<close> and a \<open>GET\<close> request, from boot to stored row.

  \<^bold>\<open>How state and operations correspond.\<close> A class is a record, its fields prefixed; a member function
  is a definition with the name of the member, prefixed where it is used twice. Objects that are
  shared by pointer live in a store under their address. Threads are program counters of step
  relations, and each step is what one thread does between two accesses to shared data. An
  exception is \<open>Inl\<close> or \<open>Throws\<close>, a \<open>LOG_FATAL\<close> an error no handler catches, a wait nobody ends
  \<open>Blocks\<close>. System calls, clocks and random bytes are arguments. Libraries that are not part of the
  sources (hiredis with Redis, the MySQL connector, OpenSSL, the JSON and YAML libraries, the file
  system) are records of their calls; what is assumed of them is a named predicate
  (\<open>redis_serves\<close>, \<open>sql_serves\<close>, \<open>redis_starts\<close>, \<open>sql_starts\<close>, \<open>bio_laws\<close>) with a concrete instance in the
  witnesses.

  \<^bold>\<open>Bounds.\<close> No loop runs on fuel: loops are structural, have a termination proof, or are
  \<open>partial_function (option)\<close> or step relations, and then a property says that they come to an end.
  Connection numbers, ports, event masks and quantities have their machine width. Strings are
  assumed shorter than \<open>2 ^ 64\<close> bytes where their length is printed or counted.

  \<^bold>\<open>Not modelled.\<close>
  \<^item> \<open>Thread\<close>, \<open>EventLoopThread\<close>, \<open>CurrentThread\<close>, \<open>Timestamp\<close>: each wraps one system or library call, whose
    result is an argument elsewhere.
  \<^item> The bodies of \<open>MQClient\<close>, \<open>MQProducer\<close> and \<open>MQConsumer\<close>, which only forward to the AMQP library:
    published messages and subscriptions are recorded instead.
  \<^item> \<open>TcpConnection::handleError\<close>, the destructors of \<open>EventLoop\<close> and \<open>Logger\<close>, the start and join of the
    database threads, and log messages inside other components: logging has no effect on them
    except for \<open>LOG_FATAL\<close>.
  \<^item> Data races on plain fields (\<open>Logger::asyncSink_\<close>, a second consumer of the lock-free queue) and
    the weak memory model: steps are sequentially consistent.
  \<^item> Infinities and NaNs, regular expressions beyond those \<open>convertToRegex\<close> makes from plain paths,
    and locales.
  \<^item> The programs under \<open>src/tests\<close>, callback type declarations and \<open>NonCopyable\<close>.
\<close>

section \<open>Lemmas across components\<close>

lemma answered_fields [simp]: "rs_body (answered code text resp) = text" "rs_closeConnection (answered code text resp) = rs_closeConnection resp"
  by (simp_all add: answered_def response_setters)

lemma micro_id_safe: "param_safe (''id'', micro_id t)" and micro_id_nonempty: "micro_id t \<noteq> []"
proof -
  have "c \<notin> set (micro_id t)" if "c \<in> {CHR ''&'', CHR '' '', CHR 0x0D}" for c
    using that by (auto simp: micro_id_def isdigit_def dest!: show_int_chars split: if_splits)
  then show "param_safe (''id'', micro_id t)" by (simp add: param_safe_def query_safe_def)
qed (simp add: micro_id_def)

lemma stock_kept:
  assumes "kept_keys (app_cache q) kv kv'" and "ro_keyPrefix (so_redis q) = ''order:'' @ pre" and "stock_is (InventoryService_new a b c) p n kv"
  shows "stock_is (InventoryService_new a b c) p n kv'"
proof -
  have "makeStockKey (InventoryService_new a b c) p \<noteq> c_str (buildOrderKey (app_cache q) i)" for i
    using assms(2) by (simp add: default_inventory_keys buildOrderKey_def app_cache_def c_str_def)
  with assms(1,3) show ?thesis by (simp add: kept_keys_def stock_is_def)
qed

text \<open>The two order routes of a started server, from bytes to bytes.\<close>

lemma http_route:
  assumes "serves_orders L J q srv" and "m \<in> {kPost, kGet}"
    and "h = (if m = kPost then Create_handle L J (full_handler micro_id app_repo (app_cache q) True (mo_orderQueue (so_mq q)))
              else Query_handle L J (full_query app_repo (app_cache q)))"
    and "list_all param_safe query" and "list_all header_safe hs" and "body_framed m hs body"
    and "Buffer_inv b" and "Buffer_contents b = render_request m ''/orders'' query hs body"
    and "h (parsed_request t m ''/orders'' query hs body) (HttpResponse_new (map_of (stored_headers hs) ''Connection'' = Some ''close'')) w =
           Returns (answered code text (HttpResponse_new (map_of (stored_headers hs) ''Connection'' = Some ''close''))) w'"
    and "length text < 2 ^ 64"
  shows "\<exists>b'. onPlainMessage srv env t CtxEmpty b (w, sw) =
     Inr (ConnSend (response_bytes (answered code text (HttpResponse_new (map_of (stored_headers hs) ''Connection'' = Some ''close'')))) #
            (if map_of (stored_headers hs) ''Connection'' = Some ''close'' then [ConnShutdown] else []),
          CtxHttp HttpContext_new, b', w', sw)"
proof -
  let ?close = "map_of (stored_headers hs) ''Connection'' = Some ''close''"
  let ?resp = "answered code text (HttpResponse_new ?close)"
  have plain: "plain_server srv" and hd: "rt_handlers (hs_router srv) (m, ''/orders'') = Some (as_handler h)"
    using assms(1-3) by (auto simp: serves_orders_def)
  have run: "as_handler h (parsed_request t m ''/orders'' query hs body) (HttpResponse_new ?close) w = Inr (?resp, w')"
    using assms(9) by (simp add: as_handler_def)
  have pre: "m \<noteq> kInvalid" "path_safe ''/orders''" using assms(2) by (auto simp: path_safe_def)
  have cont: "Buffer_contents b = render_request m ''/orders'' query hs body @ []" using assms(8) by simp
  have len: "length (rs_body ?resp) < 2 ^ 64" using assms(10) by simp
  have "rs_closeConnection ?resp = ?close" by (simp add: HttpResponse_new_def)
  with request_run [OF pre assms(4-7) cont plain hd run len, of env sw] show ?thesis by (simp only:) blast
qed

section \<open>Properties\<close>

text \<open>
  C3. An order over HTTP. On servers that work, the order server boots from a checked configuration;
  the bytes of a \<open>POST /orders\<close> request whose body stands for an order are answered with status 200
  and the new id, and the bytes of a \<open>GET /orders\<close> request for this id, on another connection, are
  answered with status 200 and the order's fields. The stock has gone down by the quantity and the
  row is in the table.
\<close>

theorem orders_over_http:
  fixes w :: "('r, 'c, 'd, 'row, 'z) order_world_scheme"
  assumes "FromConfig Y hc path = Inr q" and "\<not> so_enableTLS q" and "ro_password (so_redis q) = []" and "0 < ro_poolSize (so_redis q)"
    and "redis_serves (lb_redis L) rdb" and "sql_serves (lb_db L) app_repo sdb" and "redis_starts (lb_redis L) rdb" and "sql_starts (lb_db L) sdb"
    and "stores rdb sdb w = (kv, rows, msgs)" and "ro_keyPrefix (so_redis q) = ''order:'' @ pre" and "nul_free pre"
    and "order_of J body = Some r" and "filed micro_id r body (aw_clock w) (Suc (aw_tick w)) = record"
    and "insertable record" and "storable (whole_seconds record)" and "rows (or_orderId record) = None"
    and "iv = InventoryService_new True True True" and "stock_is iv (or_productId r) n kv" and "unat (or_quantity r) \<le> n"
    and "js_dump J (created_json record) = Inr made" and "length made < 2 ^ 64"
    and "js_dump J (record_json record) = Inr found" and "length found < 2 ^ 64"
    and "list_all header_safe hs" and "body_framed kPost hs body" and "map_of (stored_headers hs) ''Connection'' = None"
    and "Buffer_inv b1" and "Buffer_contents b1 = render_request kPost ''/orders'' [] hs body"
    and "Buffer_inv b2" and "Buffer_contents b2 = render_request kGet ''/orders'' [(''id'', or_orderId record)] [] []"
  shows "\<exists>app w1 w2 w3 b1' b2' kv' msgs'. app_start L J hc (OrderApplication_new True q) w = Returns app w1 \<and>
     onPlainMessage (oa_server app) ea ta CtxEmpty b1 (w1, sw) =
       Inr ([ConnSend (response_bytes (answered k200Ok made (HttpResponse_new False)))], CtxHttp HttpContext_new, b1', w2, sw) \<and>
     onPlainMessage (oa_server app) eb tb CtxEmpty b2 (w2, sw) =
       Inr ([ConnSend (response_bytes (answered k200Ok found (HttpResponse_new False)))], CtxHttp HttpContext_new, b2', w3, sw) \<and>
     stores rdb sdb w3 = (kv', rows(or_orderId record \<mapsto> stored record), msgs') \<and>
     stock_is iv (or_productId r) (n - unat (or_quantity r)) kv'"
proof -
  let ?oc = "app_cache q" and ?id = "or_orderId record" and ?resp = "HttpResponse_new False"
  let ?post = "parsed_request ta kPost ''/orders'' [] hs body" and ?get = "parsed_request tb kGet ''/orders'' [(''id'', or_orderId record)] [] []"
  obtain app w1 kv1 where boot: "app_start L J hc (OrderApplication_new True q) w = Returns app w1" "serves_orders L J q (oa_server app)"
      "world_ok L app_repo rdb sdb w1" "same_clock w1 w" "stores rdb sdb w1 = (kv1, rows, msgs)" "kept_keys ?oc kv kv1"
    using boot_run [OF assms(1-9)] by blast
  have id: "?id = micro_id (aw_clock w (Suc (aw_tick w)))" using assms(13) by auto
  have oc: "oc_pool ?oc" "oc_keyPrefix ?oc = ''order:'' @ pre @ ''detail:''" "nul_free (pre @ ''detail:'')"
    using assms(10,11) by (simp_all add: app_cache_def OrderCache_new_def nul_free_def)
  have rq: "order_of J (rq_content ?post) = Some r" "filed micro_id r (rq_content ?post) (aw_clock w1) (Suc (aw_tick w1)) = record"
    using assms(12,13) boot(4) by (simp_all add: parsed_request_def same_clock_def)
  have stock: "stock_is iv (or_productId r) n kv1" using stock_kept [OF boot(6) assms(10)] assms(17,18) by simp
  obtain w2 kv2 ms2 where w2: "Create_handle L J (full_handler micro_id app_repo ?oc True (mo_orderQueue (so_mq q))) ?post ?resp w1 = Returns (answered k200Ok made ?resp) w2"
      "world_ok L app_repo rdb sdb w2" "stores rdb sdb w2 = (kv2, rows(?id \<mapsto> stored record), ms2)"
      "stock_is iv (or_productId r) (n - unat (or_quantity r)) kv2" "kv2 (buildOrderKey ?oc ?id) = Some (c_str (serializeOrder record))"
    using create_order_run [OF boot(3,5) oc rq assms(14,16,17) stock assms(19,20), of "mo_orderQueue (so_mq q)" ?resp] by blast
  have "CHR 0x00 \<notin> set (serializeOrder record)" using serialize_plain [OF assms(15)] by (simp add: whole_seconds_same)
  moreover have "nul_free ?id" using assms(14) sql_text_nul_free by (auto simp: insertable_def)
  ultimately have hit: "kv2 (c_str (buildOrderKey ?oc ?id)) = Some (serializeOrder record)"
    using w2(5) order_keys_apart(1) [OF oc(2,3)] by simp
  have get: "extractOrderId ?get = Some ?id"
    using micro_id_nonempty by (simp add: extractOrderId_def getQueryParameter_def parsed_request_def id)
  obtain w3 where w3: "Query_handle L J (full_query app_repo ?oc) ?get ?resp w2 = Returns (answered k200Ok found ?resp) w3"
      "stores rdb sdb w3 = (kv2, rows(?id \<mapsto> stored record), ms2)"
    by (rule query_hit [OF w2(2,3) oc(1) get hit assms(15,22)])
  have "\<exists>b1'. onPlainMessage (oa_server app) ea ta CtxEmpty b1 (w1, sw) =
       Inr ([ConnSend (response_bytes (answered k200Ok made ?resp))], CtxHttp HttpContext_new, b1', w2, sw)"
    using http_route [OF boot(2), of kPost _ "[]" hs body b1 ta w1 k200Ok made w2 ea sw] w2(1) assms(21,24-28) by simp
  moreover have "\<exists>b2'. onPlainMessage (oa_server app) eb tb CtxEmpty b2 (w2, sw) =
       Inr ([ConnSend (response_bytes (answered k200Ok found ?resp))], CtxHttp HttpContext_new, b2', w3, sw)"
    using http_route [OF boot(2), of kGet _ "[(''id'', ?id)]" "[]" "[]" b2 tb w2 k200Ok found w3 eb sw] w3(1) assms(23,29,30) micro_id_safe
    by (simp add: id body_framed_def stored_headers_def)
  ultimately show ?thesis using boot(1) w3(2) w2(4) by blast
qed

definition sample_app_record :: order_record where
  "sample_app_record = sample_parsed\<lparr>or_orderId := ''ORD-0'', or_createdAt := 2, or_updatedAt := 2\<rparr>"

definition sample_headers :: "(string \<times> string) list" where
  "sample_headers = [(''Content-Length'', show_nat (length sample_body))]"

lemma sample_app_filed:
  "filed micro_id sample_parsed sample_body (aw_clock (sample_shop rows)) (Suc (aw_tick (sample_shop rows))) = sample_app_record"
proof -
  have "digit_char 0 = CHR ''0''" by code_simp
  then have "micro_id 1 = ''ORD-0''" by (simp add: micro_id_def show_int_def show_nat.simps)
  then show ?thesis
    by (simp add: filed_def sample_app_record_def sample_shop_def sample_db_world_def sample_parsed_def OrderRecord_new_def)
qed

lemma sample_app_insertable: "insertable sample_app_record"
  by (simp add: insertable_def sample_app_record_def sample_parsed_def OrderRecord_new_def sample_body_def sql_text_def sql_char_def)

lemma sample_app_storable: "storable (whole_seconds sample_app_record)"
proof -
  have "cents 25000 = to_double (of_nat 250)" by (simp add: cents_def)
  then have "(250 :: double) = cents 25000" using to_double_nat [of 250] by simp
  moreover have "(25000::nat) < max_cents" by (simp add: max_cents_def)
  ultimately have "\<exists>k<max_cents. (250 :: double) = cents k" by blast
  moreover have "to_seconds 2 = 0" "int64 0" by (simp_all add: to_seconds_def int64_def)
  ultimately show ?thesis
    unfolding storable_def whole_seconds_def sample_app_record_def sample_parsed_def
    by (auto simp: OrderRecord_new_def plain_def sample_body_def)
qed

lemma sample_app_lengths: "length (dump_json (created_json sample_app_record)) < 2 ^ 64" "length (dump_json (record_json sample_app_record)) < 2 ^ 64"
proof -
  show "length (dump_json (created_json sample_app_record)) < 2 ^ 64"
    by (simp add: created_json_def sample_app_record_def sample_parsed_def OrderRecord_new_def ToString_def)
  have "show_general6 250 = show_nat 250" using show_general6_nat [of 250] by simp
  then show "length (dump_json (record_json sample_app_record)) < 2 ^ 64"
    by (simp add: record_json_def sample_app_record_def sample_parsed_def OrderRecord_new_def ToString_def to_seconds_def show_int_def show_nat.simps)
qed

lemma sample_headers_ok: "list_all header_safe sample_headers" "body_framed kPost sample_headers sample_body" "map_of (stored_headers sample_headers) ''Connection'' = None"
proof -
  let ?n = "show_nat (length sample_body)"
  have safe: "\<not> isspace c \<and> c \<noteq> CHR 0x0D" if "c \<in> set ?n" for c
    using show_nat_digits [OF that] by (auto simp: isdigit_def isspace_def)
  then have "?n \<noteq> [] \<Longrightarrow> \<not> isspace (hd ?n) \<and> \<not> isspace (last ?n)" "CHR 0x0D \<notin> set ?n" by auto
  then show "list_all header_safe sample_headers" by (simp add: sample_headers_def header_safe_def)
qed (simp_all add: sample_headers_def body_framed_def stored_headers_def sample_body_def)

theorem orders_over_http_witness:
  "\<exists>app w1 w2 w3 b1' b2' kv' msgs'. app_start sample_libs sample_json 4 (OrderApplication_new True sample_options) (sample_shop Map.empty) = Returns app w1 \<and>
     onPlainMessage (oa_server app) \<lparr>env_t1 = 0, env_t2 = 0, env_rnd = RandBytes []\<rparr> 7 CtxEmpty
         (Buffer_append (render_request kPost ''/orders'' [] sample_headers sample_body) (Buffer_new 0)) (w1, Session_world_new) =
       Inr ([ConnSend (response_bytes (answered k200Ok (dump_json (created_json sample_app_record)) (HttpResponse_new False)))],
            CtxHttp HttpContext_new, b1', w2, Session_world_new) \<and>
     onPlainMessage (oa_server app) \<lparr>env_t1 = 0, env_t2 = 0, env_rnd = RandBytes []\<rparr> 8 CtxEmpty
         (Buffer_append (render_request kGet ''/orders'' [(''id'', ''ORD-0'')] [] []) (Buffer_new 0)) (w2, Session_world_new) =
       Inr ([ConnSend (response_bytes (answered k200Ok (dump_json (record_json sample_app_record)) (HttpResponse_new False)))],
            CtxHttp HttpContext_new, b2', w3, Session_world_new) \<and>
     stores (\<lambda>d. d) (\<lambda>d. d) w3 = (kv', [''ORD-0'' \<mapsto> stored sample_app_record], msgs') \<and>
     stock_is (InventoryService_new True True True) ''p1'' 3 kv'"
proof -
  let ?iv = "InventoryService_new True True True" and ?env = "\<lparr>env_t1 = 0, env_t2 = 0, env_rnd = RandBytes []\<rparr>"
  let ?b1 = "Buffer_append (render_request kPost ''/orders'' [] sample_headers sample_body) (Buffer_new 0)"
  let ?b2 = "Buffer_append (render_request kGet ''/orders'' [(''id'', or_orderId sample_app_record)] [] []) (Buffer_new 0)"
  have serve: "redis_serves (lb_redis sample_libs) (\<lambda>d. d)" "sql_serves (lb_db sample_libs) app_repo (\<lambda>d. d)" "redis_starts (lb_redis sample_libs) (\<lambda>d. d)"
      "sql_starts (lb_db sample_libs) (\<lambda>d. d)"
    using map_redis_serves map_sql_serves map_redis_starts map_sql_starts by (simp_all add: sample_libs_def app_repo_sample)
  have key: "ro_keyPrefix (so_redis sample_options) = ''order:'' @ []" "nul_free []"
    by (simp_all add: sample_options_def OrderServerOptions_new_def Let_def nul_free_def)
  have ord: "order_of sample_json sample_body = Some sample_parsed" using sample_order_of by (simp add: sample_request_def)
  have none: "(Map.empty :: string \<rightharpoonup> order_record) (or_orderId sample_app_record) = None" by simp
  have row: "or_orderId sample_app_record = ''ORD-0''" "or_productId sample_parsed = ''p1''" "unat (or_quantity sample_parsed) = 2"
    by (simp_all add: sample_app_record_def sample_parsed_def)
  have st: "stock_is ?iv (or_productId sample_parsed) 5 [''inventory:stock:p1'' \<mapsto> show_nat 5]" "unat (or_quantity sample_parsed) \<le> 5"
    using sample_stock by (simp_all add: row)
  have dump: "js_dump sample_json v = Inr (dump_json v)" for v by (simp add: sample_json_def)
  have buf: "Buffer_inv ?b1" "Buffer_contents ?b1 = render_request kPost ''/orders'' [] sample_headers sample_body"
      "Buffer_inv ?b2" "Buffer_contents ?b2 = render_request kGet ''/orders'' [(''id'', or_orderId sample_app_record)] [] []"
    by (simp_all add: wf_intros abs_simps)
  from orders_over_http [where path = "''c.yaml''" and w = "sample_shop Map.empty" and rows = Map.empty and n = 5 and iv = ?iv and ta = 7 and tb = 8 and ea = ?env and eb = ?env and sw = Session_world_new,
      OF sample_config sample_options_ok serve sample_shop_ok(2) key ord sample_app_filed sample_app_insertable sample_app_storable none refl st
        dump sample_app_lengths(1) dump sample_app_lengths(2) sample_headers_ok buf]
  show ?thesis unfolding row by simp
qed

end
